(* ===== verification/Prelude.thy ===== *)
theory Prelude
  imports Main "HOL-Library.State_Monad" "HOL-Library.Word"
begin

text \<open>
  What every theory of the development shares: Go's fixed-width signed integers as
  \<^typ>\<open>int\<close> with the wrap-around written out, loops over slices in the state monad, and a
  small program logic for that monad: a Hoare triple \<open>triple P m Q\<close> for facts about one call,
  and the library's \<^const>\<open>state_io_rel\<close> for facts that relate the state before and after,
  whose composition rules are proved once in the locale \<open>evolution\<close> for any reflexive and
  transitive relation.
\<close>

named_theorems wp_rules \<open>introduction rules for Hoare triples\<close>

section \<open>Fixed-width integers\<close>

text \<open>
  A Go \<^verbatim>\<open>int\<close> or \<^verbatim>\<open>int64\<close> is an \<^typ>\<open>int\<close> between
  \<open>-(2 ^ 63)\<close> and \<open>2 ^ 63 - 1\<close>; an operation that can leave the range is followed by
  \<open>wrap64\<close>. The conversion \<^verbatim>\<open>int32(x)\<close> is \<open>wrap32\<close>.
\<close>

definition wrap64 :: "int \<Rightarrow> int" where
  "wrap64 x = signed_take_bit 63 x"

definition wrap32 :: "int \<Rightarrow> int" where
  "wrap32 x = signed_take_bit 31 x"

definition in_int64 :: "int \<Rightarrow> bool" where
  "in_int64 x \<longleftrightarrow> - (2 ^ 63) \<le> x \<and> x < 2 ^ 63"

definition in_int32 :: "int \<Rightarrow> bool" where
  "in_int32 x \<longleftrightarrow> - (2 ^ 31) \<le> x \<and> x < 2 ^ 31"

lemma wrap64_id [simp]: "in_int64 x \<Longrightarrow> wrap64 x = x"
  by (simp add: wrap64_def in_int64_def signed_take_bit_int_eq_self)

lemma wrap32_id [simp]: "in_int32 x \<Longrightarrow> wrap32 x = x"
  by (simp add: wrap32_def in_int32_def signed_take_bit_int_eq_self)

lemma in_int64_wrap64 [simp]: "in_int64 (wrap64 x)"
  using signed_take_bit_int_greater_eq_minus_exp [of 63 x] signed_take_bit_int_less_exp [of 63 x]
  by (simp add: wrap64_def in_int64_def)

lemma in_int32_wrap32 [simp]: "in_int32 (wrap32 x)"
  using signed_take_bit_int_greater_eq_minus_exp [of 31 x] signed_take_bit_int_less_exp [of 31 x]
  by (simp add: wrap32_def in_int32_def)

lemma in_int32_int64: "in_int32 x \<Longrightarrow> in_int64 x"
  by (simp add: in_int32_def in_int64_def)

section \<open>Lists as tables\<close>

text \<open>
  A database table is a list of rows in insertion order. \<open>update_where P f\<close> is the
  effect of an UPDATE; the lemmas say what it keeps.
\<close>

definition update_where :: "('a \<Rightarrow> bool) \<Rightarrow> ('a \<Rightarrow> 'a) \<Rightarrow> 'a list \<Rightarrow> 'a list" where
  "update_where P f xs = map (\<lambda>x. if P x then f x else x) xs"

lemma length_update_where [simp]: "length (update_where P f xs) = length xs"
  by (simp add: update_where_def)

lemma map_update_where:
  "(\<And>x. P x \<Longrightarrow> g (f x) = g x) \<Longrightarrow> map g (update_where P f xs) = map g xs"
  by (simp add: update_where_def)

lemma update_where_none: "filter P xs = [] \<Longrightarrow> update_where P f xs = xs"
  by (auto simp: update_where_def filter_empty_conv intro: map_idI)

lemma in_update_where:
  "y \<in> set (update_where P f xs) \<longleftrightarrow> (\<exists>x\<in>set xs. y = (if P x then f x else x))"
  by (auto simp: update_where_def)

lemma find_update_where_key:
  assumes "\<And>x. k (f x) = k x"
  shows "find (\<lambda>x. k x = i) (update_where P f xs) =
    map_option (\<lambda>x. if P x then f x else x) (find (\<lambda>x. k x = i) xs)"
  by (induction xs) (auto simp: update_where_def assms)

lemma find_append: "find P (xs @ ys) = (case find P xs of None \<Rightarrow> find P ys | Some x \<Rightarrow> Some x)"
  by (induction xs) auto

lemma find_SomeD: "find P xs = Some x \<Longrightarrow> x \<in> set xs \<and> P x"
  by (induction xs) (auto split: if_splits)

lemma find_key_unique:
  "distinct (map k xs) \<Longrightarrow> x \<in> set xs \<Longrightarrow> k x = i \<Longrightarrow> find (\<lambda>x. k x = i) xs = Some x"
  by (induction xs) (auto simp: image_iff)

lemma distinct_key_eq:
  "distinct (map k xs) \<Longrightarrow> x \<in> set xs \<Longrightarrow> y \<in> set xs \<Longrightarrow> k x = k y \<Longrightarrow> x = y"
  by (auto simp: distinct_map inj_on_def)

lemma image_filter_pairs:
  "list_all2 (\<lambda>r r'. k r' = k r \<and> (P r \<longleftrightarrow> Q r \<or> S r')) rs rs' \<Longrightarrow>
   k ` {r \<in> set rs. P r} = k ` {r \<in> set rs. Q r} \<union> k ` {r \<in> set rs'. S r}"
  unfolding set_filter [symmetric] by (induction rule: list_all2_induct) auto

section \<open>Loops and the logic of state-passing programs\<close>

text \<open>\<^verbatim>\<open>for _, x := range xs { body }\<close> where the body never leaves the loop.\<close>

primrec for_each :: "'a list \<Rightarrow> ('a \<Rightarrow> ('s, unit) state) \<Rightarrow> ('s, unit) state" where
  "for_each [] f = State_Monad.return ()"
| "for_each (x # xs) f = do { f x; for_each xs f }"

text \<open>
  \<^verbatim>\<open>for _, x := range xs { if err := body(x); err != nil { return err } }\<close>:
  the first error leaves the loop.
\<close>

primrec for_each_err :: "'a list \<Rightarrow> ('a \<Rightarrow> ('s, 'e + unit) state) \<Rightarrow> ('s, 'e + unit) state" where
  "for_each_err [] f = State_Monad.return (Inr ())"
| "for_each_err (x # xs) f = do {
     r \<leftarrow> f x;
     case r of Inl e \<Rightarrow> State_Monad.return (Inl e) | Inr _ \<Rightarrow> for_each_err xs f
   }"

definition triple :: "('s \<Rightarrow> bool) \<Rightarrow> ('s, 'a) state \<Rightarrow> ('a \<Rightarrow> 's \<Rightarrow> bool) \<Rightarrow> bool" where
  "triple P m Q \<longleftrightarrow> (\<forall>s. P s \<longrightarrow> Q (fst (run_state m s)) (snd (run_state m s)))"

lemma tripleD: "triple P m Q \<Longrightarrow> P s \<Longrightarrow> run_state m s = (a, s') \<Longrightarrow> Q a s'"
  unfolding triple_def by (metis fst_conv snd_conv)

lemma tripleI: "(\<And>s a s'. P s \<Longrightarrow> run_state m s = (a, s') \<Longrightarrow> Q a s') \<Longrightarrow> triple P m Q"
  unfolding triple_def by (metis prod.collapse)

lemma triple_weaken:
  "triple P m Q \<Longrightarrow> (\<And>s. P' s \<Longrightarrow> P s) \<Longrightarrow> (\<And>a s. Q a s \<Longrightarrow> Q' a s) \<Longrightarrow> triple P' m Q'"
  by (auto simp: triple_def)

lemma triple_conj:
  "triple P m Q \<Longrightarrow> triple P' m Q' \<Longrightarrow> triple (\<lambda>s. P s \<and> P' s) m (\<lambda>a s. Q a s \<and> Q' a s)"
  by (auto simp: triple_def)

lemma triple_return [wp_rules]: "(\<And>s. P s \<Longrightarrow> Q a s) \<Longrightarrow> triple P (State_Monad.return a) Q"
  by (simp add: triple_def)

lemma triple_bind [wp_rules]:
  "triple P m R \<Longrightarrow> (\<And>a. triple (R a) (f a) Q) \<Longrightarrow> triple P (m \<bind> f) Q"
  by (fastforce simp: triple_def split: prod.splits)

lemma triple_if [wp_rules]:
  "(c \<Longrightarrow> triple P m Q) \<Longrightarrow> (\<not> c \<Longrightarrow> triple P n Q) \<Longrightarrow> triple P (if c then m else n) Q"
  by simp

lemma triple_sum [wp_rules]:
  "(\<And>e. r = Inl e \<Longrightarrow> triple P (f e) Q) \<Longrightarrow> (\<And>a. r = Inr a \<Longrightarrow> triple P (g a) Q) \<Longrightarrow>
   triple P (case r of Inl e \<Rightarrow> f e | Inr a \<Rightarrow> g a) Q"
  by (simp split: sum.split)

lemma triple_option [wp_rules]:
  "(r = None \<Longrightarrow> triple P f Q) \<Longrightarrow> (\<And>a. r = Some a \<Longrightarrow> triple P (g a) Q) \<Longrightarrow>
   triple P (case r of None \<Rightarrow> f | Some a \<Rightarrow> g a) Q"
  by (simp split: option.split)

lemma triple_prod [wp_rules]:
  "(\<And>a b. r = (a, b) \<Longrightarrow> triple P (f a b) Q) \<Longrightarrow> triple P (case r of (a, b) \<Rightarrow> f a b) Q"
  by (simp split: prod.split)

lemma triple_Let [wp_rules]: "(\<And>x. x = e \<Longrightarrow> triple P (f x) Q) \<Longrightarrow> triple P (let x = e in f x) Q"
  by (simp add: Let_def)

lemma triple_const_pre: "(\<And>s. P s \<Longrightarrow> C) \<Longrightarrow> (C \<Longrightarrow> triple P m Q) \<Longrightarrow> triple P m Q"
  by (auto simp: triple_def)

lemma triple_for_each:
  "(\<And>x. x \<in> set xs \<Longrightarrow> triple P (f x) (\<lambda>_. P)) \<Longrightarrow> triple P (for_each xs f) (\<lambda>_. P)"
  by (induction xs) (auto intro!: wp_rules simp: triple_bind)

text \<open>What a program returns, whatever the state it starts in.\<close>

definition results :: "('s, 'a) state \<Rightarrow> ('a \<Rightarrow> bool) \<Rightarrow> bool" where
  "results m Q \<longleftrightarrow> (\<forall>s. Q (fst (run_state m s)))"

lemma results_return: "Q a \<Longrightarrow> results (State_Monad.return a) Q"
  by (simp add: results_def)

lemma results_bind: "results m Q \<Longrightarrow> (\<And>a. Q a \<Longrightarrow> results (f a) Q') \<Longrightarrow> results (m \<bind> f) Q'"
  by (simp add: results_def split: prod.split) (metis fst_conv)

lemma results_any: "results m (\<lambda>_. True)"
  by (simp add: results_def)

lemma triple_bind_results:
  "triple P m (\<lambda>_. P) \<Longrightarrow> results m R \<Longrightarrow> (\<And>a. R a \<Longrightarrow> triple P (f a) Q) \<Longrightarrow> triple P (m \<bind> f) Q"
  unfolding triple_def results_def by (auto split: prod.split) (metis fst_conv snd_conv)

text \<open>
  A relation between the states before and after that holds of every part of a program
  holds of the whole: \<open>R\<close> is any preorder (what a call may change, how a row may
  evolve, which tables it leaves alone).
\<close>

locale evolution =
  fixes R :: "'s \<Rightarrow> 's \<Rightarrow> bool"
  assumes R_refl: "R s s"
    and R_trans: "R s t \<Longrightarrow> R t u \<Longrightarrow> R s u"
begin

lemma io_return: "state_io_rel R (State_Monad.return a)"
  by (simp add: state_io_rel_def R_refl)

lemma io_get: "state_io_rel R State_Monad.get"
  by (simp add: state_io_rel_def R_refl)

lemma io_bind: "state_io_rel R m \<Longrightarrow> (\<And>a. state_io_rel R (f a)) \<Longrightarrow> state_io_rel R (m \<bind> f)"
  by (auto simp: state_io_rel_def split: prod.splits) (metis R_trans snd_conv)

lemma io_bind_results:
  "state_io_rel R m \<Longrightarrow> results m Q \<Longrightarrow> (\<And>a. Q a \<Longrightarrow> state_io_rel R (f a)) \<Longrightarrow>
   state_io_rel R (m \<bind> f)"
  unfolding results_def
  by (auto simp: state_io_rel_def split: prod.splits) (metis R_trans fst_conv snd_conv)

lemma io_if:
  "(c \<Longrightarrow> state_io_rel R m) \<Longrightarrow> (\<not> c \<Longrightarrow> state_io_rel R n) \<Longrightarrow> state_io_rel R (if c then m else n)"
  by simp

lemma io_sum:
  "(\<And>e. r = Inl e \<Longrightarrow> state_io_rel R (f e)) \<Longrightarrow> (\<And>a. r = Inr a \<Longrightarrow> state_io_rel R (g a)) \<Longrightarrow>
   state_io_rel R (case r of Inl e \<Rightarrow> f e | Inr a \<Rightarrow> g a)"
  by (simp split: sum.split)

lemma io_option:
  "(r = None \<Longrightarrow> state_io_rel R f) \<Longrightarrow> (\<And>a. r = Some a \<Longrightarrow> state_io_rel R (g a)) \<Longrightarrow>
   state_io_rel R (case r of None \<Rightarrow> f | Some a \<Rightarrow> g a)"
  by (simp split: option.split)

lemma io_prod:
  "(\<And>a b. r = (a, b) \<Longrightarrow> state_io_rel R (f a b)) \<Longrightarrow> state_io_rel R (case r of (a, b) \<Rightarrow> f a b)"
  by (simp split: prod.split)

lemma io_Let: "(\<And>x. x = e \<Longrightarrow> state_io_rel R (f x)) \<Longrightarrow> state_io_rel R (let x = e in f x)"
  by (simp add: Let_def)

lemma io_for_each:
  "(\<And>x. x \<in> set xs \<Longrightarrow> state_io_rel R (f x)) \<Longrightarrow> state_io_rel R (for_each xs f)"
  by (induction xs) (simp_all add: io_return io_bind)

lemma io_for_each_err:
  "(\<And>x. x \<in> set xs \<Longrightarrow> state_io_rel R (f x)) \<Longrightarrow> state_io_rel R (for_each_err xs f)"
  by (induction xs) (auto intro!: io_return io_bind io_sum)

lemmas io_intros =
  io_return io_get io_bind io_if io_sum io_option io_prod io_Let io_for_each io_for_each_err

end

text \<open>Preservation of an invariant is the evolution \<open>I s \<longrightarrow> I s'\<close>.\<close>

definition keeps :: "('s \<Rightarrow> bool) \<Rightarrow> 's \<Rightarrow> 's \<Rightarrow> bool" where
  "keeps I s s' \<longleftrightarrow> (I s \<longrightarrow> I s')"

interpretation keeping: evolution "keeps I" for I
  by unfold_locales (auto simp: keeps_def)

text \<open>A projection of the state that a program does not write.\<close>

definition same :: "('s \<Rightarrow> 'b) \<Rightarrow> 's \<Rightarrow> 's \<Rightarrow> bool" where
  "same f s s' \<longleftrightarrow> f s' = f s"

interpretation framing: evolution "same f" for f
  by unfold_locales (auto simp: same_def)

lemma same_run: "state_io_rel (same f) m \<Longrightarrow> f (snd (run_state m s)) = f s"
  by (simp add: state_io_rel_def same_def)

end
