(* ===== verification/GoStrings.thy ===== *)
theory GoStrings
  imports Prelude
begin

text \<open>
  The parts of Go's \<^verbatim>\<open>strings\<close> and \<^verbatim>\<open>strconv\<close> packages the program
  calls. A Go string is its list of bytes. \<open>TrimSpace\<close> knows every white-space rune by its
  UTF-8 encoding. \<open>ToUpper\<close> maps the ASCII letters and the two other runes whose upper case
  is an ASCII letter (dotless i, long s); it leaves the other multi-byte runes alone, which the
  program cannot observe, since it only compares the result with ASCII words.
\<close>

section \<open>Bytes and digits\<close>

definition byte :: "char \<Rightarrow> nat" where
  "byte c = of_char c"

definition digit_char :: "nat \<Rightarrow> char" where
  "digit_char n = char_of (48 + n)"

definition is_digit :: "char \<Rightarrow> bool" where
  "is_digit c \<longleftrightarrow> 48 \<le> byte c \<and> byte c \<le> 57"

definition digit_val :: "char \<Rightarrow> nat" where
  "digit_val c = byte c - 48"

lemma byte_digit_char [simp]: "n < 10 \<Longrightarrow> byte (digit_char n) = 48 + n"
  by (simp add: byte_def digit_char_def)

lemma is_digit_digit_char [simp]: "n < 10 \<Longrightarrow> is_digit (digit_char n)"
  by (simp add: is_digit_def)

lemma digit_val_digit_char [simp]: "n < 10 \<Longrightarrow> digit_val (digit_char n) = n"
  by (simp add: digit_val_def)

section \<open>strconv\<close>

fun nat_digits :: "nat \<Rightarrow> string" where
  "nat_digits n = (if n < 10 then [digit_char n] else nat_digits (n div 10) @ [digit_char (n mod 10)])"

declare nat_digits.simps [simp del]

definition Itoa :: "int \<Rightarrow> string" where
  "Itoa i = (if i < 0 then CHR ''-'' # nat_digits (nat (- i)) else nat_digits (nat i))"

definition digits_val :: "string \<Rightarrow> nat" where
  "digits_val s = foldl (\<lambda>acc c. 10 * acc + digit_val c) 0 s"

definition parse_digits :: "string \<Rightarrow> nat option" where
  "parse_digits s = (if s \<noteq> [] \<and> list_all is_digit s then Some (digits_val s) else None)"

text \<open>\<^verbatim>\<open>strconv.Atoi\<close>: an optional sign, decimal digits, and the range of int.\<close>

definition Atoi :: "string \<Rightarrow> int option" where
  "Atoi s = (case (case s of
        [] \<Rightarrow> None
      | c # cs \<Rightarrow>
          if c = CHR ''-'' then map_option (\<lambda>n. - int n) (parse_digits cs)
          else if c = CHR ''+'' then map_option int (parse_digits cs)
          else map_option int (parse_digits s)) of
      None \<Rightarrow> None
    | Some i \<Rightarrow> if in_int64 i then Some i else None)"

lemma nat_digits_ne [simp]: "nat_digits n \<noteq> []"
  by (subst nat_digits.simps) simp

lemma nat_digits_are_digits: "list_all is_digit (nat_digits n)"
proof (induction n rule: nat_digits.induct)
  case (1 n)
  then show ?case by (subst nat_digits.simps) auto
qed

lemma digits_val_nat_digits: "digits_val (nat_digits n) = n"
proof (induction n rule: nat_digits.induct)
  case (1 n)
  then show ?case by (subst nat_digits.simps) (auto simp: digits_val_def)
qed

lemma parse_digits_nat_digits [simp]: "parse_digits (nat_digits n) = Some n"
  by (simp add: parse_digits_def nat_digits_are_digits digits_val_nat_digits)

lemma nat_digits_head: "nat_digits n = c # cs \<Longrightarrow> is_digit c"
  using nat_digits_are_digits [of n] by simp

lemma digit_not_sign: "is_digit c \<Longrightarrow> c \<noteq> CHR ''-'' \<and> c \<noteq> CHR ''+''"
  by (auto simp: is_digit_def byte_def)

lemma Atoi_Itoa: "in_int64 i \<Longrightarrow> Atoi (Itoa i) = Some i"
proof (cases "i < 0")
  case True
  assume "in_int64 i"
  with True show ?thesis by (simp add: Atoi_def Itoa_def)
next
  case False
  assume i: "in_int64 i"
  obtain c cs where cs: "nat_digits (nat i) = c # cs"
    by (cases "nat_digits (nat i)") auto
  then have "c \<noteq> CHR ''-'' \<and> c \<noteq> CHR ''+''"
    by (blast dest: nat_digits_head digit_not_sign)
  with False i cs show ?thesis
    using parse_digits_nat_digits [of "nat i"] by (simp add: Atoi_def Itoa_def)
qed

lemma nat_digits_inj: "nat_digits m = nat_digits n \<Longrightarrow> m = n"
  by (metis digits_val_nat_digits)

lemma Itoa_inj:
  assumes "Itoa i = Itoa j"
  shows "i = j"
proof -
  have neg: "nat_digits n \<noteq> CHR ''-'' # s" for n s
    using nat_digits_head digit_not_sign by blast
  from assms show ?thesis
    by (auto simp: Itoa_def neg neg [symmetric] dest!: nat_digits_inj split: if_splits)
qed

lemma Itoa_digits: "c \<in> set (Itoa i) \<Longrightarrow> is_digit c \<or> c = CHR ''-''"
  using nat_digits_are_digits by (auto simp: Itoa_def list_all_iff split: if_splits)

lemma Atoi_range: "Atoi s = Some i \<Longrightarrow> in_int64 i"
  by (auto simp: Atoi_def split: option.splits if_splits)

section \<open>strings\<close>

text \<open>The UTF-8 encodings of the runes \<^verbatim>\<open>unicode.IsSpace\<close> accepts.\<close>

definition space_runes :: "nat list list" where
  "space_runes =
     [[9], [10], [11], [12], [13], [32], [0xC2, 0x85], [0xC2, 0xA0], [0xE1, 0x9A, 0x80],
      [0xE2, 0x80, 0x80], [0xE2, 0x80, 0x81], [0xE2, 0x80, 0x82], [0xE2, 0x80, 0x83],
      [0xE2, 0x80, 0x84], [0xE2, 0x80, 0x85], [0xE2, 0x80, 0x86], [0xE2, 0x80, 0x87],
      [0xE2, 0x80, 0x88], [0xE2, 0x80, 0x89], [0xE2, 0x80, 0x8A], [0xE2, 0x80, 0xA8],
      [0xE2, 0x80, 0xA9], [0xE2, 0x80, 0xAF], [0xE2, 0x81, 0x9F], [0xE3, 0x80, 0x80]]"

definition leading_rune :: "nat list list \<Rightarrow> string \<Rightarrow> nat list option" where
  "leading_rune rs s = find (\<lambda>r. r \<noteq> [] \<and> map byte (take (length r) s) = r) rs"

function trim_left :: "nat list list \<Rightarrow> string \<Rightarrow> string" where
  "trim_left rs s = (case leading_rune rs s of
       None \<Rightarrow> s
     | Some r \<Rightarrow> trim_left rs (drop (length r) s))"
  by pat_completeness auto
termination
proof (relation "measure (\<lambda>(rs, s). length s)", goal_cases)
  case 1
  then show ?case by simp
next
  case (2 rs s r)
  then have "r \<noteq> []" and "map byte (take (length r) s) = r"
    by (auto simp: leading_rune_def dest: find_SomeD)
  then show ?case by (cases s) auto
qed

declare trim_left.simps [simp del]

definition TrimSpace :: "string \<Rightarrow> string" where
  "TrimSpace s = rev (trim_left (map rev space_runes) (rev (trim_left space_runes s)))"

lemma trim_left_id: "s = [] \<or> byte (hd s) \<notin> set (map hd rs) \<Longrightarrow> trim_left rs s = s"
proof -
  assume s: "s = [] \<or> byte (hd s) \<notin> set (map hd rs)"
  have "leading_rune rs s = None"
  proof (cases s)
    case Nil
    then show ?thesis by (auto simp: leading_rune_def find_None_iff)
  next
    case (Cons c cs)
    have "map byte (take (length r) s) \<noteq> r" if r: "r \<in> set rs" "r \<noteq> []" for r
    proof -
      from r(2) obtain x xs where "r = x # xs" by (meson neq_Nil_conv)
      with r(1) s Cons show ?thesis by force
    qed
    then show ?thesis by (auto simp: leading_rune_def find_None_iff)
  qed
  then show ?thesis by (simp add: trim_left.simps [of rs s])
qed

lemma TrimSpace_id:
  assumes "s = [] \<or> (byte (hd s) \<notin> set (map hd space_runes) \<and>
             byte (last s) \<notin> set (map last space_runes))"
  shows "TrimSpace s = s"
proof -
  have "map hd (map rev space_runes) = map last space_runes"
    by (simp add: space_runes_def)
  with assms show ?thesis
    by (auto simp: TrimSpace_def trim_left_id hd_rev)
qed

text \<open>\<^verbatim>\<open>strings.Split\<close> and \<^verbatim>\<open>strings.Cut\<close> with a one-byte separator.\<close>

fun Split :: "string \<Rightarrow> char \<Rightarrow> string list" where
  "Split [] sep = [[]]"
| "Split (c # cs) sep =
     (if c = sep then [] # Split cs sep
      else (case Split cs sep of [] \<Rightarrow> [[c]] | p # ps \<Rightarrow> (c # p) # ps))"

fun Cut :: "string \<Rightarrow> char \<Rightarrow> (string \<times> string) option" where
  "Cut [] sep = None"
| "Cut (c # cs) sep =
     (if c = sep then Some ([], cs) else map_option (\<lambda>(a, b). (c # a, b)) (Cut cs sep))"

definition HasPrefix :: "string \<Rightarrow> string \<Rightarrow> bool" where
  "HasPrefix s p \<longleftrightarrow> take (length p) s = p"

definition TrimPrefix :: "string \<Rightarrow> string \<Rightarrow> string" where
  "TrimPrefix s p = (if HasPrefix s p then drop (length p) s else s)"

definition upper_byte :: "char \<Rightarrow> char" where
  "upper_byte c = (if 97 \<le> byte c \<and> byte c \<le> 122 then char_of (byte c - 32) else c)"

fun ToUpper :: "string \<Rightarrow> string" where
  "ToUpper (c # d # cs) =
     (if byte c = 0xC4 \<and> byte d = 0xB1 then CHR ''I'' # ToUpper cs
      else if byte c = 0xC5 \<and> byte d = 0xBF then CHR ''S'' # ToUpper cs
      else upper_byte c # ToUpper (d # cs))"
| "ToUpper cs = map upper_byte cs"

lemma Split_ne [simp]: "Split s sep \<noteq> []"
  by (induction s) (auto split: list.splits)

lemma Split_no_sep: "sep \<notin> set s \<Longrightarrow> Split s sep = [s]"
  by (induction s) auto

lemma Split_append: "sep \<notin> set p \<Longrightarrow> Split (p @ sep # s) sep = p # Split s sep"
  by (induction p) auto

lemma Cut_append: "sep \<notin> set p \<Longrightarrow> Cut (p @ sep # s) sep = Some (p, s)"
  by (induction p) auto

lemma HasPrefix_append [simp]: "HasPrefix (p @ s) p"
  by (simp add: HasPrefix_def)

lemma TrimPrefix_append [simp]: "TrimPrefix (p @ s) p = s"
  by (simp add: TrimPrefix_def)

end
