(* ===== verification/GoTime.thy ===== *)
theory GoTime
  imports GoStrings
begin

text \<open>
  The parts of Go's \<^verbatim>\<open>time\<close> package the program calls. An instant is the number of
  nanoseconds since the Unix epoch; the zero \<^verbatim>\<open>time.Time\<close> is the start of year 1. A
  location is the function its \<^verbatim>\<open>lookup\<close> method computes: from a Unix second to the
  UTC offset in force and the span of seconds on which it holds. The zone database is data
  outside the program, so \<open>LoadLocation\<close> takes it as a parameter; the laws of a lookup
  that proofs rely on are the locale \<open>tz_zone\<close>, interpreted on transition tables.
\<close>

section \<open>Instants and durations\<close>

type_synonym time = int
type_synonym duration = int

definition Second :: duration where "Second = 1000000000"
definition Minute_ns :: duration where "Minute_ns = 60 * Second"
definition Hour_ns :: duration where "Hour_ns = 3600 * Second"

text \<open>Seconds from the zero time to the Unix epoch.\<close>

definition unixToInternal :: int where
  "unixToInternal = 62135596800"

definition zero_time :: time where
  "zero_time = - (unixToInternal * Second)"

definition IsZero :: "time \<Rightarrow> bool" where
  "IsZero t \<longleftrightarrow> t = zero_time"

definition Unix :: "time \<Rightarrow> int" where
  "Unix t = t div Second"

text \<open>\<^verbatim>\<open>t.Truncate(d)\<close> rounds down to a multiple of d since the zero time.\<close>

definition Truncate :: "time \<Rightarrow> duration \<Rightarrow> time" where
  "Truncate t d = t - (t - zero_time) mod d"

lemmas time_defs = Second_def Minute_ns_def Hour_ns_def unixToInternal_def zero_time_def

lemma Truncate_hour: "Truncate t Hour_ns = (t div Hour_ns) * Hour_ns"
proof -
  have "(t - zero_time) mod Hour_ns = (t + 17259888 * Hour_ns) mod Hour_ns"
    by (simp add: time_defs)
  then have "(t - zero_time) mod Hour_ns = t mod Hour_ns"
    by (simp only: mod_mult_self1)
  then show ?thesis
    by (simp add: Truncate_def minus_mod_eq_div_mult)
qed

section \<open>The civil calendar\<close>

definition leap :: "int \<Rightarrow> bool" where
  "leap y \<longleftrightarrow> y mod 4 = 0 \<and> (y mod 100 \<noteq> 0 \<or> y mod 400 = 0)"

text \<open>Days from the start of year 1 to the start of year y.\<close>

definition days_before_year :: "int \<Rightarrow> int" where
  "days_before_year y =
     365 * (y - 1) + (y - 1) div 4 - (y - 1) div 100 + (y - 1) div 400"

text \<open>The year and the day of the year (from 0) of a day counted from the start of year 1.\<close>

definition year_yday :: "int \<Rightarrow> int \<times> int" where
  "year_yday d =
     (let n400 = d div 146097; d1 = d mod 146097;
          n100 = min 3 (d1 div 36524); d2 = d1 - 36524 * n100;
          n4 = d2 div 1461; d3 = d2 - 1461 * n4;
          n1 = min 3 (d3 div 365); d4 = d3 - 365 * n1
      in (400 * n400 + 100 * n100 + 4 * n4 + n1 + 1, d4))"

lemma year_yday_days: "year_yday d = (y, k) \<Longrightarrow> days_before_year y + k = d"
proof -
  assume a: "year_yday d = (y, k)"
  define q where "q = d div 146097"
  define d1 where "d1 = d mod 146097"
  define c where "c = min 3 (d1 div 36524)"
  define d2 where "d2 = d1 - 36524 * c"
  define f where "f = d2 div 1461"
  define d3 where "d3 = d2 - 1461 * f"
  define g where "g = min 3 (d3 div 365)"
  have d: "d = 146097 * q + d1" and d1: "0 \<le> d1" "d1 < 146097"
    by (simp_all add: q_def d1_def)
  have c: "0 \<le> c" "c \<le> 3" and d2: "0 \<le> d2" "d2 < 36525"
    using d1 by (auto simp: c_def d2_def min_def)
  have f: "0 \<le> f" "f \<le> 24" and d3: "0 \<le> d3" "d3 < 1461"
    using d2 by (auto simp: f_def d3_def)
  have g: "0 \<le> g" "g \<le> 3"
    using d3 by (auto simp: g_def min_def)
  have "year_yday d = (400 * q + 100 * c + 4 * f + g + 1, d3 - 365 * g)"
    unfolding year_yday_def Let_def q_def d1_def c_def d2_def f_def d3_def g_def by (rule refl)
  with a have y: "y - 1 = 400 * q + 100 * c + 4 * f + g" and k: "k = d3 - 365 * g" by auto
  have "(y - 1) div 4 = 100 * q + 25 * c + f"
    unfolding y by (rule int_div_pos_eq [where r = g]) (use g in auto)
  moreover have "(y - 1) div 100 = 4 * q + c"
    unfolding y by (rule int_div_pos_eq [where r = "4 * f + g"]) (use f g in auto)
  moreover have "(y - 1) div 400 = q"
    unfolding y by (rule int_div_pos_eq [where r = "100 * c + 4 * f + g"]) (use c f g in auto)
  ultimately show ?thesis
    unfolding days_before_year_def using y k d by (simp add: d2_def d3_def)
qed

text \<open>Days of the year before the first of month m (1 to 12).\<close>

definition days_before_month :: "bool \<Rightarrow> int \<Rightarrow> int" where
  "days_before_month lp m =
     [0, 31, 59, 90, 120, 151, 181, 212, 243, 273, 304, 334] ! nat (m - 1)
     + (if lp \<and> m > 2 then 1 else 0)"

text \<open>The month a day of the year (from 0) falls in: the last that starts at or before it.\<close>

definition month_of_yday :: "bool \<Rightarrow> int \<Rightarrow> int" where
  "month_of_yday lp k =
     last (filter (\<lambda>m. m = 1 \<or> days_before_month lp m \<le> k) [1, 2, 3, 4, 5, 6, 7, 8, 9, 10, 11, 12])"

text \<open>
  The fields of the wall clock that shows \<open>l\<close> seconds since 1970-01-01T00:00 local time.
  Day 0 of the Unix epoch is day 719162 of the calendar.
\<close>

definition wall_day :: "int \<Rightarrow> int" where "wall_day l = l div 86400"
definition Year :: "int \<Rightarrow> int" where "Year l = fst (year_yday (wall_day l + 719162))"
definition yday0 :: "int \<Rightarrow> int" where "yday0 l = snd (year_yday (wall_day l + 719162))"
definition YearDay :: "int \<Rightarrow> int" where "YearDay l = yday0 l + 1"
definition Month :: "int \<Rightarrow> int" where "Month l = month_of_yday (leap (Year l)) (yday0 l)"
definition Day :: "int \<Rightarrow> int" where
  "Day l = yday0 l - days_before_month (leap (Year l)) (Month l) + 1"
definition Hour :: "int \<Rightarrow> int" where "Hour l = (l mod 86400) div 3600"
definition Minute :: "int \<Rightarrow> int" where "Minute l = (l mod 3600) div 60"

text \<open>The wall-clock second \<^verbatim>\<open>time.Date\<close> starts from; a day outside the month carries over.\<close>

definition date_secs :: "int \<Rightarrow> int \<Rightarrow> int \<Rightarrow> int \<Rightarrow> int \<Rightarrow> int" where
  "date_secs y m d hh mm =
     (days_before_year y + days_before_month (leap y) m + (d - 1) - 719162) * 86400
     + hh * 3600 + mm * 60"

lemma date_secs_wall:
  "date_secs (Year l) (Month l) (Day l + k) hh mm = (wall_day l + k) * 86400 + hh * 3600 + mm * 60"
proof -
  have "days_before_year (Year l) + yday0 l = wall_day l + 719162"
    by (rule year_yday_days) (simp add: Year_def yday0_def)
  then show ?thesis by (simp add: date_secs_def Day_def algebra_simps)
qed

lemma same_date_iff: "Year a = Year b \<and> YearDay a = YearDay b \<longleftrightarrow> wall_day a = wall_day b"
proof
  assume "Year a = Year b \<and> YearDay a = YearDay b"
  moreover have "days_before_year (Year l) + yday0 l = wall_day l + 719162" for l
    by (rule year_yday_days) (simp add: Year_def yday0_def)
  ultimately show "wall_day a = wall_day b"
    by (simp add: YearDay_def) (metis add_right_cancel)
next
  assume "wall_day a = wall_day b"
  then show "Year a = Year b \<and> YearDay a = YearDay b"
    by (simp add: Year_def YearDay_def yday0_def)
qed

lemma Hour_bounds [simp]: "0 \<le> Hour l" "Hour l < 24"
  by (simp_all add: Hour_def)

lemma Minute_bounds [simp]: "0 \<le> Minute l" "Minute l < 60"
  by (simp_all add: Minute_def)

lemma wall_of_parts:
  assumes "0 \<le> hh" "hh < 24" "0 \<le> mm" "mm < 60"
  shows "wall_day (d * 86400 + hh * 3600 + mm * 60) = d"
    and "Hour (d * 86400 + hh * 3600 + mm * 60) = hh"
    and "Minute (d * 86400 + hh * 3600 + mm * 60) = mm"
proof -
  let ?l = "d * 86400 + hh * 3600 + mm * 60"
  show "wall_day ?l = d"
    unfolding wall_day_def
    by (rule int_div_pos_eq [where r = "hh * 3600 + mm * 60"]) (use assms in auto)
  have "?l mod 86400 = hh * 3600 + mm * 60"
    by (rule int_mod_pos_eq [where q = d]) (use assms in auto)
  then show "Hour ?l = hh"
    unfolding Hour_def
    by (simp only:) (rule int_div_pos_eq [where r = "mm * 60"]; use assms in auto)
  have "?l mod 3600 = mm * 60"
    by (rule int_mod_pos_eq [where q = "24 * d + hh"]) (use assms in auto)
  then show "Minute ?l = mm" by (simp add: Minute_def)
qed

section \<open>Locations\<close>

record Location =
  loc_name :: string
  loc_lookup :: "int \<Rightarrow> int \<times> int \<times> int"

definition alpha :: int where "alpha = - (2 ^ 63)"
definition omega :: int where "omega = 2 ^ 63 - 1"

definition zone_offset :: "Location \<Rightarrow> int \<Rightarrow> int" where
  "zone_offset loc u = fst (loc_lookup loc u)"

text \<open>The wall clock of \<^verbatim>\<open>t.In(loc)\<close>, as seconds.\<close>

definition In_loc :: "time \<Rightarrow> Location \<Rightarrow> int" where
  "In_loc t loc = Unix t + zone_offset loc (Unix t)"

text \<open>The seconds of a \<^verbatim>\<open>time.Time\<close> are an int64 counted from the zero time.\<close>

definition norm_sec :: "int \<Rightarrow> int" where
  "norm_sec u = wrap64 (u + unixToInternal) - unixToInternal"

definition Date_unix :: "Location \<Rightarrow> int \<Rightarrow> int" where
  "Date_unix loc u =
     (case loc_lookup loc u of (off, st, en) \<Rightarrow>
        if off = 0 then u
        else if u - off < st \<or> en \<le> u - off then u - zone_offset loc (u - off)
        else u - off)"

definition Date :: "int \<Rightarrow> int \<Rightarrow> int \<Rightarrow> int \<Rightarrow> int \<Rightarrow> Location \<Rightarrow> time" where
  "Date y m d hh mm loc = norm_sec (Date_unix loc (wrap64 (date_secs y m d hh mm))) * Second"

locale tz_zone =
  fixes lookup :: "int \<Rightarrow> int \<times> int \<times> int"
  assumes lookup_span: "alpha \<le> u \<Longrightarrow> u < omega \<Longrightarrow> lookup u = (off, st, en) \<Longrightarrow> st \<le> u \<and> u < en"
    and lookup_const: "lookup u = (off, st, en) \<Longrightarrow> st \<le> v \<Longrightarrow> v < en \<Longrightarrow> alpha \<le> v \<Longrightarrow>
      v < omega \<Longrightarrow> lookup v = (off, st, en)"
begin

text \<open>
  When \<^verbatim>\<open>time.Date\<close> finds the instant inside the span of the offset it used first, the
  wall clock at that instant is the one asked for.
\<close>

lemma date_in_span:
  assumes "lookup u = (off, st, en)" "st \<le> u - off" "u - off < en"
    and "alpha \<le> u - off" "u - off < omega"
  shows "u - off + fst (lookup (u - off)) = u"
  using lookup_const [OF assms(1,2,3,4,5)] by simp

end

text \<open>A zone given by its first offset and its transitions, in order.\<close>

fun table_lookup :: "int \<Rightarrow> (int \<times> int) list \<Rightarrow> int \<Rightarrow> int \<Rightarrow> int \<times> int \<times> int" where
  "table_lookup o0 [] lo u = (o0, lo, omega)"
| "table_lookup o0 ((w, o1) # tx) lo u =
     (if u < w then (o0, lo, w) else table_lookup o1 tx w u)"

lemma table_lookup_span:
  "lo \<le> u \<Longrightarrow> u < omega \<Longrightarrow> table_lookup o0 tx lo u = (off, st, en) \<Longrightarrow> st \<le> u \<and> u < en"
  by (induction o0 tx lo u rule: table_lookup.induct) (auto split: if_splits)

lemma table_lookup_const:
  assumes "sorted (map fst tx)" "\<forall>w\<in>set (map fst tx). lo \<le> w"
    and "table_lookup o0 tx lo u = (off, st, en)" "lo \<le> u" "st \<le> v" "v < en"
  shows "table_lookup o0 tx lo v = (off, st, en)"
  using assms
proof (induction o0 tx lo u rule: table_lookup.induct)
  case (1 o0 lo u)
  then show ?case by simp
next
  case (2 o0 w o1 tx lo u)
  show ?case
  proof (cases "u < w")
    case True
    with 2 show ?thesis by auto
  next
    case False
    have "w \<le> st"
      using False 2 by (induction o1 tx w u rule: table_lookup.induct) (auto split: if_splits)
    with False 2 show ?thesis by auto
  qed
qed

definition table_location :: "string \<Rightarrow> int \<Rightarrow> (int \<times> int) list \<Rightarrow> Location" where
  "table_location n o0 tx = \<lparr>loc_name = n, loc_lookup = table_lookup o0 tx alpha\<rparr>"

definition UTC :: Location where
  "UTC = table_location ''UTC'' 0 []"

lemma zone_offset_UTC [simp]: "zone_offset UTC u = 0"
  by (simp add: UTC_def table_location_def zone_offset_def)

section \<open>LoadLocation, Parse and Format\<close>

text \<open>
  \<^verbatim>\<open>time.LoadLocation\<close>: the empty name and UTC are UTC, Local is the process's own
  zone, names that leave the zone directory are refused, the rest is looked up in the zone
  database \<open>db\<close>.
\<close>

record tz_database =
  tz_local :: Location
  tz_zones :: "string \<Rightarrow> Location option"

fun containsDotDot :: "string \<Rightarrow> bool" where
  "containsDotDot (a # b # s) = ((a = CHR ''.'' \<and> b = CHR ''.'') \<or> containsDotDot (b # s))"
| "containsDotDot _ = False"

definition LoadLocation :: "tz_database \<Rightarrow> string \<Rightarrow> Location option" where
  "LoadLocation db name =
     (if name = '''' \<or> name = ''UTC'' then Some UTC
      else if name = ''Local'' then Some (tz_local db)
      else if containsDotDot name \<or> hd name = CHR ''/'' \<or> byte (hd name) = 92 then None
      else tz_zones db name)"

text \<open>\<^verbatim>\<open>getnum\<close>: one or two digits, or exactly two when \<open>fixed\<close>.\<close>

fun getnum :: "string \<Rightarrow> bool \<Rightarrow> (int \<times> string) option" where
  "getnum [] fixed = None"
| "getnum [c] fixed =
     (if is_digit c \<and> \<not> fixed then Some (int (digit_val c), []) else None)"
| "getnum (c # d # s) fixed =
     (if \<not> is_digit c then None
      else if is_digit d then Some (int (10 * digit_val c + digit_val d), s)
      else if fixed then None
      else Some (int (digit_val c), d # s))"

text \<open>\<^verbatim>\<open>time.Parse("15:04", s)\<close>: the hour and the minute.\<close>

definition Parse_15_04 :: "string \<Rightarrow> (int \<times> int) option" where
  "Parse_15_04 s = (case getnum s False of
       None \<Rightarrow> None
     | Some (hh, s1) \<Rightarrow>
         if \<not> hh < 24 then None
         else (case s1 of
             [] \<Rightarrow> None
           | c # s2 \<Rightarrow>
               if c \<noteq> CHR '':'' then None
               else (case getnum s2 True of
                   None \<Rightarrow> None
                 | Some (mm, s3) \<Rightarrow>
                     if \<not> mm < 60 \<or> s3 \<noteq> [] then None else Some (hh, mm))))"

definition two_digits :: "int \<Rightarrow> string" where
  "two_digits n = [digit_char (nat n div 10), digit_char (nat n mod 10)]"

text \<open>\<^verbatim>\<open>Format("15:04")\<close> of the wall clock \<open>l\<close>.\<close>

definition Format_15_04 :: "int \<Rightarrow> string" where
  "Format_15_04 l = two_digits (Hour l) @ '':'' @ two_digits (Minute l)"

lemma getnum_bounds: "getnum s f = Some (n, r) \<Longrightarrow> 0 \<le> n"
  by (induction s f rule: getnum.induct) (auto split: if_splits)

lemma Parse_15_04_bounds:
  "Parse_15_04 s = Some (hh, mm) \<Longrightarrow> 0 \<le> hh \<and> hh < 24 \<and> 0 \<le> mm \<and> mm < 60"
  by (auto simp: Parse_15_04_def split: option.splits prod.splits list.splits if_splits
      dest: getnum_bounds)

lemma getnum_two_digits:
  "0 \<le> n \<Longrightarrow> n < 100 \<Longrightarrow> getnum (two_digits n @ s) f = Some (n, s)"
  by (simp add: two_digits_def nat_less_iff)

lemma Parse_Format_15_04: "Parse_15_04 (Format_15_04 l) = Some (Hour l, Minute l)"
proof -
  have "getnum (two_digits (Minute l)) True = Some (Minute l, [])"
    using getnum_two_digits [of "Minute l" "[]" True] Minute_bounds [of l] by simp
  moreover have "getnum (Format_15_04 l) False = Some (Hour l, '':'' @ two_digits (Minute l))"
    unfolding Format_15_04_def append_assoc
    by (rule getnum_two_digits) (use Hour_bounds [of l] in linarith)+
  ultimately show ?thesis
    using Hour_bounds [of l] Minute_bounds [of l] by (simp add: Parse_15_04_def)
qed

interpretation utc: tz_zone "loc_lookup UTC"
  by unfold_locales
    (auto simp: UTC_def table_location_def)

end
