(* ===== verification/SharedKernel.thy ===== *)
theory SharedKernel
  imports GoTime
begin

text \<open>
  \<^verbatim>\<open>internal/shared\<close> and the error values of the task feature
  (\<^verbatim>\<open>internal/task/errors.go\<close>). An identifier is the 16 bytes of a UUID, a 128-bit
  word; the package \<^verbatim>\<open>google/uuid\<close> that prints and parses it is third-party code, the
  parameter \<open>uuid_pkg\<close>, of which proofs use \<open>uuid_ok\<close>: parsing what \<^verbatim>\<open>String\<close>
  printed gives the identifier back.
\<close>

section \<open>Identifiers (ids.go)\<close>

type_synonym uuid = "128 word"
type_synonym UserID = uuid
type_synonym TenantID = uuid
type_synonym JobID = uuid
type_synonym JobRunID = uuid
type_synonym RunEventID = uuid

record uuid_pkg =
  uuid_String :: "uuid \<Rightarrow> string"
  uuid_Parse :: "string \<Rightarrow> uuid option"

definition uuid_ok :: "uuid_pkg \<Rightarrow> bool" where
  "uuid_ok U \<longleftrightarrow> (\<forall>u. uuid_Parse U (uuid_String U u) = Some u)"

definition id_IsZero :: "uuid \<Rightarrow> bool" where
  "id_IsZero u \<longleftrightarrow> u = 0"

lemma uuid_String_inj: "uuid_ok U \<Longrightarrow> uuid_String U a = uuid_String U b \<Longrightarrow> a = b"
  unfolding uuid_ok_def by (metis option.inject)

text \<open>
  The canonical text of a UUID, 32 lower-case hexadecimal digits in groups of 8, 4, 4, 4 and 12,
  as an instance of the parameter.
\<close>

definition hex_digits :: string where "hex_digits = ''0123456789abcdef''"

fun hex_text :: "nat \<Rightarrow> nat \<Rightarrow> string" where
  "hex_text 0 n = []"
| "hex_text (Suc k) n = hex_text k (n div 16) @ [hex_digits ! (n mod 16)]"

definition hex_val :: "char \<Rightarrow> nat" where
  "hex_val c = (if is_digit c then byte c - 48 else byte c - 87)"

definition hex_nat :: "string \<Rightarrow> nat" where
  "hex_nat s = foldl (\<lambda>a c. a * 16 + hex_val c) 0 s"

definition canonical_String :: "uuid \<Rightarrow> string" where
  "canonical_String u =
     (let h = hex_text 32 (unat u)
      in take 8 h @ ''-'' @ take 4 (drop 8 h) @ ''-'' @ take 4 (drop 12 h) @ ''-'' @
         take 4 (drop 16 h) @ ''-'' @ drop 20 h)"

definition canonical_Parse :: "string \<Rightarrow> uuid option" where
  "canonical_Parse s =
     (let h = filter (\<lambda>c. c \<noteq> CHR ''-'') s
      in if length s = 36 \<and> s ! 8 = CHR ''-'' \<and> s ! 13 = CHR ''-'' \<and> s ! 18 = CHR ''-'' \<and> s ! 23 = CHR ''-'' \<and>
            length h = 32 \<and> list_all (\<lambda>c. c \<in> set hex_digits) h
         then Some (of_nat (hex_nat h)) else None)"

definition canonical_uuid :: uuid_pkg where
  "canonical_uuid = \<lparr>uuid_String = canonical_String, uuid_Parse = canonical_Parse\<rparr>"

lemma hex_digits_nth: "n < 16 \<Longrightarrow> hex_digits ! n \<in> set hex_digits \<and> hex_val (hex_digits ! n) = n"
proof -
  assume n: "n < 16"
  have "list_all (\<lambda>n. hex_digits ! n \<in> set hex_digits \<and> hex_val (hex_digits ! n) = n) [0..<16]"
    by code_simp
  then show ?thesis using n by (simp only: list_all_iff) simp
qed

lemma length_hex_text [simp]: "length (hex_text k n) = k"
  by (induction k arbitrary: n) auto

lemma hex_text_digits: "c \<in> set (hex_text k n) \<Longrightarrow> c \<in> set hex_digits"
  by (induction k arbitrary: n) (auto simp: hex_digits_nth)

lemma hex_nat_text: "hex_nat (hex_text k n) = n mod 16 ^ k"
proof (induction k arbitrary: n)
  case (Suc k)
  have "hex_nat (hex_text (Suc k) n) = (n div 16 mod 16 ^ k) * 16 + n mod 16"
    using Suc hex_digits_nth [of "n mod 16"] by (simp add: hex_nat_def)
  then show ?case by (simp add: mod_mult2_eq)
qed (simp add: hex_nat_def)

lemma canonical_uuid_ok: "uuid_ok canonical_uuid"
  unfolding uuid_ok_def
proof
  fix u :: uuid
  define h where "h = hex_text 32 (unat u)"
  have len: "length h = 32" by (simp add: h_def)
  have dash: "c \<noteq> CHR ''-''" if "c \<in> set h" for c
    using hex_text_digits that by (fastforce simp: h_def hex_digits_def)
  then have keep: "filter (\<lambda>c. c \<noteq> CHR ''-'') h = h" by (simp add: filter_id_conv)
  have parts: "filter (\<lambda>c. c \<noteq> CHR ''-'') (take n (drop m h)) = take n (drop m h)" for n m
    using dash by (auto simp: filter_id_conv dest: in_set_takeD in_set_dropD)
  have parts': "filter (\<lambda>c. c \<noteq> CHR ''-'') (drop m h) = drop m h"
    "filter (\<lambda>c. c \<noteq> CHR ''-'') (take m h) = take m h" for m
    using dash by (auto simp: filter_id_conv dest: in_set_takeD in_set_dropD)
  have s: "canonical_String u = take 8 h @ ''-'' @ take 4 (drop 8 h) @ ''-'' @ take 4 (drop 12 h) @
      ''-'' @ take 4 (drop 16 h) @ ''-'' @ drop 20 h"
    by (simp add: canonical_String_def h_def Let_def)
  have "drop 16 h = take 4 (drop 16 h) @ drop 20 h" "drop 12 h = take 4 (drop 12 h) @ drop 16 h"
    "drop 8 h = take 4 (drop 8 h) @ drop 12 h" "h = take 8 h @ drop 8 h"
    using append_take_drop_id [of 4 "drop 16 h"] append_take_drop_id [of 4 "drop 12 h"]
      append_take_drop_id [of 4 "drop 8 h"] append_take_drop_id [of 8 h] by (simp_all add: drop_drop)
  then have "filter (\<lambda>c. c \<noteq> CHR ''-'') (canonical_String u) = h"
    by (simp add: s parts parts')
  moreover have "length (canonical_String u) = 36 \<and> canonical_String u ! 8 = CHR ''-'' \<and>
      canonical_String u ! 13 = CHR ''-'' \<and> canonical_String u ! 18 = CHR ''-'' \<and>
      canonical_String u ! 23 = CHR ''-''"
    by (simp add: s len nth_append)
  moreover have "list_all (\<lambda>c. c \<in> set hex_digits) h"
    using hex_text_digits by (auto simp: list_all_iff h_def)
  moreover have "(of_nat (hex_nat h) :: uuid) = u"
    by (simp add: h_def hex_nat_text unsigned_less [of u, simplified])
  ultimately show "uuid_Parse canonical_uuid (uuid_String canonical_uuid u) = Some u"
    by (simp add: canonical_uuid_def canonical_Parse_def len)
qed

section \<open>Errors (errors.go and the fmt.Errorf wrappers)\<close>

text \<open>
  The sentinels of \<^verbatim>\<open>task/errors.go\<close> and \<^verbatim>\<open>user/errors.go\<close>,
  \<^verbatim>\<open>shared.ErrInvalidID\<close>, \<^verbatim>\<open>ErrExecutionInProgress\<close> of
  \<^verbatim>\<open>executor.go\<close>, those of \<^verbatim>\<open>auth/jwt.go\<close> and the ones it compares
  with, \<^verbatim>\<open>context.DeadlineExceeded\<close> and \<^verbatim>\<open>pgx.ErrNoRows\<close>; a
  \<^verbatim>\<open>pgconn.PgError\<close> with its SQLSTATE code and message; an error value another package
  returned; and the three shapes of \<^verbatim>\<open>fmt.Errorf\<close> the code uses: \<open>Errorf s e\<close> is "s: \<^verbatim>\<open>%w\<close>",
  \<open>ErrorfIs e s\<close> is "\<^verbatim>\<open>%w\<close>: s", \<open>Errorf2\<close> is "\<^verbatim>\<open>%w: %w\<close>".
\<close>

datatype error =
    ErrJobNotFound | ErrJobRunNotFound | ErrInvalidDescription | ErrInvalidSchedule
  | ErrInvalidOwner | ErrInvalidStatusTransition | ErrQuotaExceeded | ErrInvalidTimezone
  | ErrInvalidRecurrence | ErrInvalidJobType | ErrInvalidLLMOutput | ErrLLMTimeout
  | ErrLLMCostExceeded | ErrWorkerStalled
  | ErrExecutionInProgress | ErrInvalidID | DeadlineExceeded | ErrNoRows
  | ErrUserNotFound | ErrEmailAlreadyExists | ErrInvalidEmail | ErrInvalidPassword
  | ErrInvalidDisplayName | ErrInvalidCredentials
  | ErrInvalidToken | ErrExpiredToken | jwt_ErrTokenExpired | ErrMismatchedHashAndPassword
  | PgError string string
  | ErrText string
  | Errorf string error
  | ErrorfIs error string
  | Errorf2 error error

text \<open>\<^verbatim>\<open>errors.Is\<close> against a sentinel follows the wrapped errors.\<close>

fun err_is :: "error \<Rightarrow> error \<Rightarrow> bool" where
  "err_is (Errorf s e) t = (Errorf s e = t \<or> err_is e t)"
| "err_is (ErrorfIs e s) t = (ErrorfIs e s = t \<or> err_is e t)"
| "err_is (Errorf2 a b) t = (Errorf2 a b = t \<or> err_is a t \<or> err_is b t)"
| "err_is e t = (e = t)"

text \<open>\<^verbatim>\<open>err.Error()\<close>.\<close>

fun err_text :: "error \<Rightarrow> string" where
  "err_text ErrJobNotFound = ''job not found''"
| "err_text ErrJobRunNotFound = ''job run not found''"
| "err_text ErrInvalidDescription = ''invalid description''"
| "err_text ErrInvalidSchedule = ''invalid schedule''"
| "err_text ErrInvalidOwner = ''invalid owner''"
| "err_text ErrInvalidStatusTransition = ''invalid status transition''"
| "err_text ErrQuotaExceeded = ''tenant quota exceeded''"
| "err_text ErrInvalidTimezone = ''invalid timezone''"
| "err_text ErrInvalidRecurrence = ''invalid recurrence''"
| "err_text ErrInvalidJobType = ''invalid job type''"
| "err_text ErrInvalidLLMOutput = ''invalid LLM output''"
| "err_text ErrLLMTimeout = ''LLM request timed out''"
| "err_text ErrLLMCostExceeded = ''LLM cost budget exceeded''"
| "err_text ErrWorkerStalled = ''worker stalled before completion''"
| "err_text ErrExecutionInProgress = ''execution already in progress''"
| "err_text ErrInvalidID = ''invalid id''"
| "err_text DeadlineExceeded = ''context deadline exceeded''"
| "err_text ErrNoRows = ''no rows in result set''"
| "err_text ErrUserNotFound = ''user not found''"
| "err_text ErrEmailAlreadyExists = ''email already exists''"
| "err_text ErrInvalidEmail = ''invalid email''"
| "err_text ErrInvalidPassword = ''invalid password''"
| "err_text ErrInvalidDisplayName = ''invalid display name''"
| "err_text ErrInvalidCredentials = ''invalid credentials''"
| "err_text ErrInvalidToken = ''invalid token''"
| "err_text ErrExpiredToken = ''token expired''"
| "err_text jwt_ErrTokenExpired = ''token is expired''"
| "err_text ErrMismatchedHashAndPassword =
     ''crypto/bcrypt: hashedPassword is not the hash of the given password''"
| "err_text (PgError code msg) = ''ERROR: '' @ msg @ '' (SQLSTATE '' @ code @ '')''"
| "err_text (ErrText s) = s"
| "err_text (Errorf s e) = s @ '': '' @ err_text e"
| "err_text (ErrorfIs e s) = err_text e @ '': '' @ s"
| "err_text (Errorf2 a b) = err_text a @ '': '' @ err_text b"

text \<open>\<^verbatim>\<open>errors.As(err, &pgErr)\<close>: the code of the first \<^verbatim>\<open>PgError\<close> in the chain.\<close>

fun as_PgError :: "error \<Rightarrow> string option" where
  "as_PgError (PgError code msg) = Some code"
| "as_PgError (Errorf s e) = as_PgError e"
| "as_PgError (ErrorfIs e s) = as_PgError e"
| "as_PgError (Errorf2 a b) = (case as_PgError a of None \<Rightarrow> as_PgError b | Some c \<Rightarrow> Some c)"
| "as_PgError e = None"

type_synonym 'a result = "error + 'a"

text \<open>\<^verbatim>\<open>if err != nil { return fmt.Errorf("s: %w", err) }\<close>.\<close>

definition wrap_err :: "string \<Rightarrow> 'a result \<Rightarrow> 'a result" where
  "wrap_err s r = (case r of Inl e \<Rightarrow> Inl (Errorf s e) | Inr a \<Rightarrow> Inr a)"

lemma wrap_err_simps [simp]:
  "wrap_err s (Inl e) = Inl (Errorf s e)" "wrap_err s (Inr a) = Inr a"
  "wrap_err s r = Inr a \<longleftrightarrow> r = Inr a"
  by (simp_all add: wrap_err_def split: sum.split)

lemma wrap_err_Inr: "wrap_err s r = Inr a \<longleftrightarrow> r = Inr a"
  by (cases r) simp_all

definition ParseUserID :: "uuid_pkg \<Rightarrow> string \<Rightarrow> UserID result" where
  "ParseUserID U s = (case uuid_Parse U s of None \<Rightarrow> Inl ErrInvalidID | Some u \<Rightarrow> Inr u)"

definition ParseTenantID :: "uuid_pkg \<Rightarrow> string \<Rightarrow> TenantID result" where
  "ParseTenantID U s = (case uuid_Parse U s of None \<Rightarrow> Inl ErrInvalidID | Some u \<Rightarrow> Inr u)"

definition ParseJobID :: "uuid_pkg \<Rightarrow> string \<Rightarrow> JobID result" where
  "ParseJobID U s = (case uuid_Parse U s of None \<Rightarrow> Inl ErrInvalidID | Some u \<Rightarrow> Inr u)"

definition ParseJobRunID :: "uuid_pkg \<Rightarrow> string \<Rightarrow> JobRunID result" where
  "ParseJobRunID U s = (case uuid_Parse U s of None \<Rightarrow> Inl ErrInvalidID | Some u \<Rightarrow> Inr u)"

definition ParseRunEventID :: "uuid_pkg \<Rightarrow> string \<Rightarrow> RunEventID result" where
  "ParseRunEventID U s = (case uuid_Parse U s of None \<Rightarrow> Inl ErrInvalidID | Some u \<Rightarrow> Inr u)"

lemma Parse_String [simp]:
  assumes "uuid_ok U"
  shows "ParseJobRunID U (uuid_String U i) = Inr i" "ParseTenantID U (uuid_String U i) = Inr i"
    "ParseJobID U (uuid_String U i) = Inr i" "ParseUserID U (uuid_String U i) = Inr i"
  using assms
  by (simp_all add: uuid_ok_def ParseJobRunID_def ParseTenantID_def ParseJobID_def ParseUserID_def)

section \<open>Text and database codecs of the identifiers (ids.go)\<close>

text \<open>
  The five identifier types have the same methods. What they call of \<^verbatim>\<open>google/uuid\<close>
  extends the parameter: \<^verbatim>\<open>MarshalText\<close>, \<^verbatim>\<open>ParseBytes\<close>, and
  \<^verbatim>\<open>Value\<close> and \<^verbatim>\<open>Scan\<close> of a database value. A method with a pointer
  receiver returns its error and the identifier it leaves behind.
\<close>

datatype driver_value = DNull | DString string | DBytes string | DOther string

record uuid_codec = uuid_pkg +
  uuid_MarshalText :: "uuid \<Rightarrow> string result"
  uuid_ParseBytes :: "string \<Rightarrow> uuid result"
  uuid_Value :: "uuid \<Rightarrow> driver_value result"
  uuid_Scan :: "driver_value \<Rightarrow> uuid result"

text \<open>What the package documents of the four: each pair reads back what it wrote.\<close>

definition uuid_codec_ok :: "uuid_codec \<Rightarrow> bool" where
  "uuid_codec_ok U \<longleftrightarrow>
     (\<forall>u. \<exists>b. uuid_MarshalText U u = Inr b \<and> uuid_ParseBytes U b = Inr u) \<and>
     (\<forall>u. \<exists>v. uuid_Value U u = Inr v \<and> uuid_Scan U v = Inr u)"

definition id_MarshalText :: "uuid_codec \<Rightarrow> uuid \<Rightarrow> string result" where
  "id_MarshalText U i = uuid_MarshalText U i"

definition id_UnmarshalText :: "uuid_codec \<Rightarrow> uuid \<Rightarrow> string \<Rightarrow> error option \<times> uuid" where
  "id_UnmarshalText U i b = (case uuid_ParseBytes U b of
       Inl err \<Rightarrow> (Some err, i)
     | Inr u \<Rightarrow> (None, u))"

definition id_Value :: "uuid_codec \<Rightarrow> uuid \<Rightarrow> driver_value result" where
  "id_Value U i = uuid_Value U i"

text \<open>\<open>name\<close> is the name of the type in the error, the only difference between the five.\<close>

definition id_Scan :: "uuid_codec \<Rightarrow> string \<Rightarrow> uuid \<Rightarrow> driver_value \<Rightarrow> error option \<times> uuid" where
  "id_Scan U name i src = (case uuid_Scan U src of
       Inl err \<Rightarrow> (Some (Errorf (''scan '' @ name) err), i)
     | Inr u \<Rightarrow> (None, u))"

text \<open>An instance: the canonical text, or the 16 bytes of a database value.\<close>

definition canonical_codec :: uuid_codec where
  "canonical_codec = \<lparr>
     uuid_String = canonical_String, uuid_Parse = canonical_Parse,
     uuid_MarshalText = (\<lambda>u. Inr (canonical_String u)),
     uuid_ParseBytes = (\<lambda>b. case canonical_Parse b of
         None \<Rightarrow> Inl (ErrText ''invalid UUID format'') | Some u \<Rightarrow> Inr u),
     uuid_Value = (\<lambda>u. Inr (DString (canonical_String u))),
     uuid_Scan = (\<lambda>v. case v of
         DNull \<Rightarrow> Inr 0
       | DString s \<Rightarrow> if s = '''' then Inr 0 else (case canonical_Parse s of
             None \<Rightarrow> Inl (ErrText ''Scan: invalid UUID format'') | Some u \<Rightarrow> Inr u)
       | DBytes b \<Rightarrow> if b = '''' then Inr 0
           else if length b = 16 then Inr (of_nat (foldl (\<lambda>n c. n * 256 + byte c) 0 b))
           else (case canonical_Parse b of
             None \<Rightarrow> Inl (ErrText ''Scan: invalid UUID format'') | Some u \<Rightarrow> Inr u)
       | DOther t \<Rightarrow> Inl (ErrText (''Scan: unable to scan type '' @ t @ '' into UUID'')))\<rparr>"

lemma canonical_codec_ok: "uuid_codec_ok canonical_codec"
proof -
  have parse: "canonical_Parse (canonical_String u) = Some u" for u
    using canonical_uuid_ok by (simp add: uuid_ok_def canonical_uuid_def)
  have "canonical_String u \<noteq> ''''" for u
    by (simp add: canonical_String_def Let_def)
  then show ?thesis
    by (simp add: uuid_codec_ok_def canonical_codec_def parse)
qed

text \<open>
  An identifier survives the text encoding (JSON) and the database encoding, and a
  value that cannot be read leaves the identifier as it was, with an error that wraps the
  package's.
\<close>

theorem id_codecs:
  assumes "uuid_codec_ok U"
  shows "(\<exists>b. id_MarshalText U i = Inr b \<and> id_UnmarshalText U j b = (None, i)) \<and>
    (\<exists>v. id_Value U i = Inr v \<and> id_Scan U name j v = (None, i)) \<and>
    (\<forall>b err k. id_UnmarshalText U j b = (Some err, k) \<longrightarrow> k = j \<and> uuid_ParseBytes U b = Inl err) \<and>
    (\<forall>v err k. id_Scan U name j v = (Some err, k) \<longrightarrow>
       k = j \<and> (\<exists>e. uuid_Scan U v = Inl e \<and> err = Errorf (''scan '' @ name) e))"
proof -
  have "\<exists>b. id_MarshalText U i = Inr b \<and> id_UnmarshalText U j b = (None, i)"
    using assms by (fastforce simp: uuid_codec_ok_def id_MarshalText_def id_UnmarshalText_def)
  moreover have "\<exists>v. id_Value U i = Inr v \<and> id_Scan U name j v = (None, i)"
    using assms by (fastforce simp: uuid_codec_ok_def id_Value_def id_Scan_def)
  ultimately show ?thesis
    by (auto simp: id_UnmarshalText_def id_Scan_def split: sum.splits)
qed

theorem id_codecs_witness:
  "uuid_codec_ok canonical_codec \<and>
   (\<exists>v. id_Value canonical_codec 7 = Inr v \<and> id_Scan canonical_codec ''JobID'' 0 v = (None, 7))"
  using id_codecs [OF canonical_codec_ok, of 7 0 "''JobID''"] canonical_codec_ok by blast

section \<open>Pagination (pagination.go)\<close>

record Pagination =
  p_Limit :: int
  p_Offset :: int

definition defaultLimit :: int where "defaultLimit = 20"
definition maxLimit :: int where "maxLimit = 100"

definition NewPagination :: "int \<Rightarrow> int \<Rightarrow> Pagination" where
  "NewPagination limit offset =
     (let limit = (if limit \<le> 0 then defaultLimit else limit);
          limit = (if limit > maxLimit then maxLimit else limit);
          offset = (if offset < 0 then 0 else offset)
      in \<lparr>p_Limit = limit, p_Offset = offset\<rparr>)"

lemma NewPagination_bounds:
  "1 \<le> p_Limit (NewPagination l k) \<and> p_Limit (NewPagination l k) \<le> maxLimit \<and>
   0 \<le> p_Offset (NewPagination l k)"
  by (simp add: NewPagination_def Let_def defaultLimit_def maxLimit_def)

end
