(* ===== verification/Recurrence.thy ===== *)
theory Recurrence
  imports SharedKernel
begin

text \<open>
  \<^verbatim>\<open>internal/task/recurrence.go\<close>: the recurrence-rule parser and the next occurrence of
  a local wall-clock time in a time zone.
\<close>

section \<open>Rules\<close>

record Rule =
  Freq :: string
  Interval :: int

datatype DSTNote = DSTNone | DSTShiftedForward | DSTAmbiguousFirst

text \<open>The loop of \<^verbatim>\<open>ParseRule\<close> over the parts between semicolons.\<close>

fun parse_parts :: "string list \<Rightarrow> Rule \<Rightarrow> Rule result" where
  "parse_parts [] rule = Inr rule"
| "parse_parts (part # parts) rule =
     (case Cut (TrimSpace part) (CHR ''='') of
        None \<Rightarrow> Inl ErrInvalidRecurrence
      | Some (key, value) \<Rightarrow>
          if ToUpper key = ''FREQ'' then parse_parts parts (rule\<lparr>Freq := ToUpper value\<rparr>)
          else if ToUpper key = ''INTERVAL'' then
            (case Atoi value of
               None \<Rightarrow> Inl ErrInvalidRecurrence
             | Some interval \<Rightarrow>
                 if interval < 1 then Inl ErrInvalidRecurrence
                 else parse_parts parts (rule\<lparr>Interval := interval\<rparr>))
          else Inl ErrInvalidRecurrence)"

definition ParseRule :: "string \<Rightarrow> Rule result" where
  "ParseRule s =
     (case parse_parts (Split s (CHR '';'')) \<lparr>Freq = '''', Interval = 1\<rparr> of
        Inl e \<Rightarrow> Inl e
      | Inr rule \<Rightarrow>
          if Freq rule \<noteq> ''DAILY'' \<and> Freq rule \<noteq> ''WEEKLY'' then Inl ErrInvalidRecurrence
          else Inr rule)"

definition parseLocalTime :: "string \<Rightarrow> (int \<times> int) result" where
  "parseLocalTime s = (case Parse_15_04 s of
       None \<Rightarrow> Inl ErrInvalidRecurrence
     | Some (hh, mm) \<Rightarrow> Inr (hh, mm))"

section \<open>Occurrences\<close>

text \<open>
  The first loop of \<^verbatim>\<open>resolveWallTime\<close>: the half-hour steps from two hours before to two
  hours after the candidate, keeping the earliest instant with the same date and wall clock.
\<close>

definition half_hour_steps :: "int \<Rightarrow> int \<Rightarrow> duration list" where
  "half_hour_steps lo hi = map (\<lambda>k. k * (30 * Minute_ns)) [lo..hi]"

definition same_wall :: "Location \<Rightarrow> int \<Rightarrow> int \<Rightarrow> int \<Rightarrow> time \<Rightarrow> bool" where
  "same_wall tz l hour minute other \<longleftrightarrow>
     Year (In_loc other tz) = Year l \<and> YearDay (In_loc other tz) = YearDay l \<and>
     Hour (In_loc other tz) = hour \<and> Minute (In_loc other tz) = minute"

definition earliest_wall :: "Location \<Rightarrow> int \<Rightarrow> int \<Rightarrow> time \<Rightarrow> time" where
  "earliest_wall tz hour minute candidate =
     fold (\<lambda>delta earliest.
         let other = candidate + delta
         in if same_wall tz (In_loc candidate tz) hour minute other \<and> other < earliest
            then other else earliest)
       (half_hour_steps (-4) 4) candidate"

definition resolveWallTime :: "time \<Rightarrow> int \<Rightarrow> int \<Rightarrow> Location \<Rightarrow> time \<times> DSTNote" where
  "resolveWallTime candidate hour minute tz =
     (let l = In_loc candidate tz
      in if Hour l \<noteq> hour \<or> Minute l \<noteq> minute then
           let wallDelta = ((hour - Hour l) * 60 + (minute - Minute l)) * Minute_ns;
               candidate = (if wallDelta > 0 then candidate + wallDelta else candidate)
           in (candidate, DSTShiftedForward)
         else
           let earliest = earliest_wall tz hour minute candidate
           in if earliest \<noteq> candidate then (earliest, DSTAmbiguousFirst)
              else if \<exists>delta \<in> set (half_hour_steps 1 4).
                        same_wall tz l hour minute (candidate + delta)
              then (candidate, DSTAmbiguousFirst)
              else (candidate, DSTNone))"

definition NextOccurrence ::
  "Rule \<Rightarrow> string \<Rightarrow> Location option \<Rightarrow> time \<Rightarrow> (time \<times> DSTNote) result" where
  "NextOccurrence rule localTime tz after =
     (case (parseLocalTime localTime, tz) of
        (Inr (hour, minute), Some tz) \<Rightarrow>
          if Interval rule < 1 \<or> (Freq rule \<noteq> ''DAILY'' \<and> Freq rule \<noteq> ''WEEKLY'')
          then Inl ErrInvalidRecurrence
          else
            let stepDays = (if Freq rule = ''WEEKLY'' then wrap64 (Interval rule * 7) else Interval rule);
                l = In_loc after tz;
                date = Date (Year l) (Month l) (Day l) hour minute tz;
                date = (if \<not> after < date
                        then Date (Year l) (Month l) (wrap64 (Day l + stepDays)) hour minute tz
                        else date)
            in Inr (resolveWallTime date hour minute tz)
      | _ \<Rightarrow> Inl ErrInvalidRecurrence)"

section \<open>The rule parser\<close>

definition valid_rule :: "Rule \<Rightarrow> bool" where
  "valid_rule r \<longleftrightarrow> (Freq r = ''DAILY'' \<or> Freq r = ''WEEKLY'') \<and> 1 \<le> Interval r \<and> Interval r < 2 ^ 63"

lemma parse_parts_interval:
  "parse_parts parts r0 = Inr r \<Longrightarrow> 1 \<le> Interval r0 \<Longrightarrow> in_int64 (Interval r0) \<Longrightarrow>
   1 \<le> Interval r \<and> in_int64 (Interval r)"
  by (induction parts arbitrary: r0)
    (simp, fastforce split: option.splits if_splits dest: Atoi_range)

lemma ParseRule_valid: "ParseRule s = Inr r \<Longrightarrow> valid_rule r"
  by (auto simp: ParseRule_def valid_rule_def in_int64_def split: sum.splits if_splits
      dest!: parse_parts_interval)

text \<open>The text of a rule, as the API documents it.\<close>

definition print_rule :: "Rule \<Rightarrow> string" where
  "print_rule r = ''FREQ='' @ Freq r @ '';INTERVAL='' @ Itoa (Interval r)"

lemma Itoa_pos_last:
  assumes "0 \<le> n"
  shows "Itoa n \<noteq> []" "is_digit (last (Itoa n))" "CHR '';'' \<notin> set (Itoa n)"
proof -
  have d: "list_all is_digit (Itoa n)" and ne: "Itoa n \<noteq> []"
    using assms by (auto simp: Itoa_def nat_digits_are_digits)
  show "Itoa n \<noteq> []" by (rule ne)
  show "is_digit (last (Itoa n))" using d ne by (simp add: list_all_iff)
  show "CHR '';'' \<notin> set (Itoa n)"
    using d by (auto simp: list_all_iff is_digit_def byte_def)
qed

lemma TrimSpace_interval: "0 \<le> n \<Longrightarrow> TrimSpace (''INTERVAL='' @ Itoa n) = ''INTERVAL='' @ Itoa n"
proof -
  assume n: "0 \<le> n"
  have "byte (last (''INTERVAL='' @ Itoa n)) \<notin> set (map last space_runes)"
    using Itoa_pos_last [OF n] by (simp add: is_digit_def space_runes_def)
  moreover have "byte (hd (''INTERVAL='' @ Itoa n)) \<notin> set (map hd space_runes)"
    by (simp add: byte_def space_runes_def)
  ultimately show ?thesis by (intro TrimSpace_id) blast
qed

lemma TrimSpace_freq:
  "TrimSpace ''FREQ=DAILY'' = ''FREQ=DAILY''" "TrimSpace ''FREQ=WEEKLY'' = ''FREQ=WEEKLY''"
  by (rule TrimSpace_id, simp add: byte_def space_runes_def)+

lemma ToUpper_words:
  "ToUpper ''FREQ'' = ''FREQ''" "ToUpper ''INTERVAL'' = ''INTERVAL''"
  "ToUpper ''DAILY'' = ''DAILY''" "ToUpper ''WEEKLY'' = ''WEEKLY''"
  by (simp_all add: upper_byte_def byte_def)

lemma parse_parts_freq:
  assumes "f = ''DAILY'' \<or> f = ''WEEKLY''"
  shows "parse_parts ((''FREQ='' @ f) # ps) r = parse_parts ps (r\<lparr>Freq := f\<rparr>)"
proof -
  have "TrimSpace (''FREQ='' @ f) = ''FREQ='' @ f"
    using assms TrimSpace_freq by auto
  moreover have "Cut (''FREQ='' @ f) (CHR ''='') = Some (''FREQ'', f)"
    by simp
  moreover have "ToUpper f = f" using assms ToUpper_words by auto
  ultimately show ?thesis
    by (simp only: parse_parts.simps option.case prod.case ToUpper_words if_True refl)
qed

lemma parse_parts_interval_eq:
  assumes "1 \<le> n" "n < 2 ^ 63"
  shows "parse_parts ((''INTERVAL='' @ Itoa n) # ps) r = parse_parts ps (r\<lparr>Interval := n\<rparr>)"
proof -
  have "Cut (''INTERVAL='' @ Itoa n) (CHR ''='') = Some (''INTERVAL'', Itoa n)"
    by simp
  moreover have "Atoi (Itoa n) = Some n" using assms by (simp add: Atoi_Itoa in_int64_def)
  moreover have "TrimSpace (''INTERVAL='' @ Itoa n) = ''INTERVAL='' @ Itoa n"
    using assms by (simp only: TrimSpace_interval)
  ultimately show ?thesis
    using assms by (simp only: parse_parts.simps option.case prod.case ToUpper_words if_True refl) simp
qed

lemma ParseRule_print: "valid_rule r \<Longrightarrow> ParseRule (print_rule r) = Inr r"
proof -
  assume v: "valid_rule r"
  have f: "Freq r = ''DAILY'' \<or> Freq r = ''WEEKLY''" and n: "1 \<le> Interval r" "Interval r < 2 ^ 63"
    using v by (auto simp: valid_rule_def)
  have "CHR '';'' \<notin> set (''FREQ='' @ Freq r)" using f by auto
  then have "Split (print_rule r) (CHR '';'') =
      (''FREQ='' @ Freq r) # Split (''INTERVAL='' @ Itoa (Interval r)) (CHR '';'')"
    unfolding print_rule_def using Split_append [of "CHR '';''" "''FREQ='' @ Freq r"] by simp
  also have "Split (''INTERVAL='' @ Itoa (Interval r)) (CHR '';'') = [''INTERVAL='' @ Itoa (Interval r)]"
    using Itoa_pos_last(3) [of "Interval r"] n by (intro Split_no_sep) simp
  finally have "parse_parts (Split (print_rule r) (CHR '';'')) \<lparr>Freq = '''', Interval = 1\<rparr> = Inr r"
    by (simp only: parse_parts_freq [OF f] parse_parts_interval_eq [OF n] parse_parts.simps(1)) simp
  with f show ?thesis by (auto simp: ParseRule_def)
qed

section \<open>Where the zone's offset is steady\<close>

text \<open>The zone has the one offset \<open>off\<close> at every second from \<open>a\<close> to \<open>b\<close>.\<close>

definition steady :: "Location \<Rightarrow> int \<Rightarrow> int \<Rightarrow> int \<Rightarrow> bool" where
  "steady tz off a b \<longleftrightarrow> (\<forall>v. a \<le> v \<and> v \<le> b \<longrightarrow> zone_offset tz v = off)"

lemma steady_at: "steady tz off a b \<Longrightarrow> a \<le> v \<Longrightarrow> v \<le> b \<Longrightarrow> zone_offset tz v = off"
  by (simp add: steady_def)

lemma Date_unix_steady:
  assumes "steady tz off a b" "a \<le> u" "u \<le> b" "a \<le> u - off" "u - off \<le> b"
  shows "Date_unix tz u = u - off"
proof (cases "loc_lookup tz u")
  case (fields o1 st en)
  then have "o1 = off" using assms(1,2,3) steady_at [of tz off a b u] by (simp add: zone_offset_def)
  moreover have "zone_offset tz (u - off) = off" using assms by (blast intro: steady_at)
  ultimately show ?thesis using fields by (simp add: Date_unix_def)
qed

lemma Unix_Second [simp]: "Unix (x * Second) = x"
  by (simp add: Unix_def Second_def)

lemma Unix_half_hours: "Unix (x * Second + k * (30 * Minute_ns)) = x + 1800 * k"
proof -
  have "x * Second + k * (30 * Minute_ns) = (x + 1800 * k) * Second"
    by (simp add: Minute_ns_def algebra_simps)
  then show ?thesis by (simp only: Unix_Second)
qed

lemma wall_inj:
  assumes "wall_day a = wall_day b" "Hour a = Hour b" "Minute a = Minute b" "a mod 60 = b mod 60"
  shows "a = b"
proof -
  have "x = wall_day x * 86400 + Hour x * 3600 + Minute x * 60 + x mod 60" for x
  proof -
    have "x mod 86400 mod 3600 = x mod 3600" "x mod 3600 mod 60 = x mod 60"
      by (simp_all add: mod_mod_cancel)
    then show ?thesis
      using div_mult_mod_eq [of x 86400] div_mult_mod_eq [of "x mod 86400" 3600]
        div_mult_mod_eq [of "x mod 3600" 60]
      unfolding wall_day_def Hour_def Minute_def by linarith
  qed
  then show ?thesis using assms by metis
qed

lemma earliest_wall_id:
  assumes "\<And>delta. delta \<in> set (half_hour_steps (-4) 4) \<Longrightarrow> delta < 0 \<Longrightarrow>
    \<not> same_wall tz (In_loc c tz) hour minute (c + delta)"
  shows "earliest_wall tz hour minute c = c"
proof -
  have "fold (\<lambda>delta earliest. let other = c + delta
        in if same_wall tz (In_loc c tz) hour minute other \<and> other < earliest then other else earliest)
      xs c = c"
    if "\<And>delta. delta \<in> set xs \<Longrightarrow> delta < 0 \<Longrightarrow> \<not> same_wall tz (In_loc c tz) hour minute (c + delta)"
    for xs using that by (induction xs) (auto simp: Let_def)
  with assms show ?thesis unfolding earliest_wall_def by blast
qed

lemma half_hour_steps_iff:
  "delta \<in> set (half_hour_steps lo hi) \<longleftrightarrow> (\<exists>k. lo \<le> k \<and> k \<le> hi \<and> delta = k * (30 * Minute_ns))"
  by (auto simp: half_hour_steps_def)

lemma resolveWallTime_steady:
  assumes st: "steady tz off a b" "a \<le> u - off - 7200" "u - off + 7200 \<le> b"
    and u: "Hour u = hour" "Minute u = minute" "u mod 60 = 0"
  shows "resolveWallTime ((u - off) * Second) hour minute tz = ((u - off) * Second, DSTNone)"
proof -
  let ?c = "(u - off) * Second"
  have shift: "In_loc (?c + k * (30 * Minute_ns)) tz = u + 1800 * k" if "-4 \<le> k" "k \<le> 4" for k
    using that st by (simp add: In_loc_def Unix_half_hours steady_at [of tz off a b])
  have here: "In_loc ?c tz = u" using shift [of 0] by simp
  have no: "\<not> same_wall tz u hour minute (?c + k * (30 * Minute_ns))"
    if "-4 \<le> k" "k \<le> 4" "k \<noteq> 0" for k
  proof
    assume "same_wall tz u hour minute (?c + k * (30 * Minute_ns))"
    then have "wall_day (u + 1800 * k) = wall_day u" "Hour (u + 1800 * k) = Hour u"
      "Minute (u + 1800 * k) = Minute u"
      using u same_date_iff [of "u + 1800 * k" u] by (simp_all add: same_wall_def shift that)
    moreover have "(u + 1800 * k) mod 60 = u mod 60"
      using mod_mult_self1 [of u "30 * k" 60] by simp
    ultimately have "u + 1800 * k = u" by (rule wall_inj)
    with that show False by simp
  qed
  have "earliest_wall tz hour minute ?c = ?c"
  proof (rule earliest_wall_id)
    fix delta assume "delta \<in> set (half_hour_steps (-4) 4)" "delta < 0"
    then obtain k where "-4 \<le> k" "k \<le> 4" "delta = k * (30 * Minute_ns)" "k \<noteq> 0"
      unfolding half_hour_steps_iff by force
    then show "\<not> same_wall tz (In_loc ?c tz) hour minute (?c + delta)"
      using no here by simp
  qed
  moreover have "\<not> (\<exists>delta \<in> set (half_hour_steps 1 4). same_wall tz u hour minute (?c + delta))"
    using no half_hour_steps_iff [of _ 1 4] by force
  ultimately show ?thesis
    using u by (simp add: resolveWallTime_def Let_def here)
qed

definition step_days :: "Rule \<Rightarrow> int" where
  "step_days rule = (if Freq rule = ''WEEKLY'' then Interval rule * 7 else Interval rule)"

lemma Date_steady:
  assumes st: "steady tz off a b" and off: "\<bar>off\<bar> \<le> 86400"
    and rng: "a \<le> (d + k) * 86400 - 86400" "(d + k) * 86400 + 2 * 86400 \<le> b"
    and small: "\<bar>(d + k) * 86400\<bar> < 2 ^ 60"
    and hm: "0 \<le> hh" "hh < 24" "0 \<le> mm" "mm < 60"
    and l: "wall_day l = d" "kk = Day l + k"
  shows "Date (Year l) (Month l) kk hh mm tz =
    ((d + k) * 86400 + hh * 3600 + mm * 60 - off) * Second"
proof -
  let ?u = "(d + k) * 86400 + hh * 3600 + mm * 60"
  have b: "0 \<le> hh * 3600 + mm * 60" "hh * 3600 + mm * 60 < 86400" using hm by auto
  have "date_secs (Year l) (Month l) kk hh mm = ?u" using l by (simp add: date_secs_wall)
  moreover have "wrap64 ?u = ?u"
    using small b by (intro wrap64_id) (simp add: in_int64_def abs_less_iff)
  moreover have "Date_unix tz ?u = ?u - off"
    by (rule Date_unix_steady [OF st]) (use rng b off in linarith)+
  moreover have "norm_sec (?u - off) = ?u - off"
    using small b off
    by (simp add: norm_sec_def unixToInternal_def in_int64_def abs_less_iff abs_le_iff)
  ultimately show ?thesis by (simp add: Date_def)
qed

lemma month_of_yday_in: "month_of_yday lp k \<in> set [1, 2, 3, 4, 5, 6, 7, 8, 9, 10, 11, 12]"
proof -
  let ?P = "\<lambda>m. m = 1 \<or> days_before_month lp m \<le> k"
  have "filter ?P (1 # ms) \<noteq> []" for ms by simp
  then have "last (filter ?P (1 # ms)) \<in> set (1 # ms)" for ms
    by (metis (no_types, lifting) filter_is_subset last_in_set subsetD)
  then show ?thesis unfolding month_of_yday_def by blast
qed

lemma days_before_month_bounds:
  "m \<in> set [1, 2, 3, 4, 5, 6, 7, 8, 9, 10, 11, 12] \<Longrightarrow>
   0 \<le> days_before_month lp m \<and> days_before_month lp m \<le> 335"
  by (auto simp: days_before_month_def)

lemma yday_bounds: "0 \<le> snd (year_yday d) \<and> snd (year_yday d) \<le> 365"
proof -
  define d2 where "d2 = d mod 146097 - 36524 * min 3 (d mod 146097 div 36524)"
  define d3 where "d3 = d2 - 1461 * (d2 div 1461)"
  have d3: "0 \<le> d3" "d3 < 1461"
    by (simp_all add: d3_def minus_mult_div_eq_mod)
  have "snd (year_yday d) = d3 - 365 * min 3 (d3 div 365)"
    by (simp add: year_yday_def Let_def d2_def d3_def)
  moreover have "0 \<le> d3 - 365 * min 3 (d3 div 365) \<and> d3 - 365 * min 3 (d3 div 365) \<le> 365"
    using d3 by (simp add: min_def) linarith
  ultimately show ?thesis by simp
qed

lemma Day_bound: "\<bar>Day l\<bar> \<le> 400"
  using yday_bounds [of "wall_day l + 719162"]
    days_before_month_bounds [OF month_of_yday_in [of "leap (Year l)" "yday0 l"], of "leap (Year l)"]
  by (simp only: Day_def Month_def yday0_def) linarith

lemma NextOccurrence_steady:
  assumes lt: "Parse_15_04 localTime = Some (hh, mm)" and rule: "valid_rule rule"
    and small: "step_days rule < 2 ^ 40" "\<bar>Unix after\<bar> < 2 ^ 50"
    and st: "steady tz off (Unix after - 4 * 86400) (Unix after + (step_days rule + 4) * 86400)"
    and off: "\<bar>off\<bar> \<le> 86400"
    and today: "today = (wall_day (In_loc after tz) * 86400 + hh * 3600 + mm * 60 - off) * Second"
  shows "NextOccurrence rule localTime (Some tz) after =
    Inr (if after < today then today else today + step_days rule * 86400 * Second, DSTNone)"
proof -
  let ?l = "In_loc after tz" and ?a = "Unix after" and ?s = "step_days rule"
  let ?d = "wall_day ?l"
  have hm: "0 \<le> hh" "hh < 24" "0 \<le> mm" "mm < 60" using Parse_15_04_bounds [OF lt] by auto
  have s1: "1 \<le> ?s" using rule by (auto simp: valid_rule_def step_days_def)
  have "zone_offset tz ?a = off" using st s1 by (rule_tac steady_at [OF st]) auto
  then have l: "?l = ?a + off" by (simp add: In_loc_def)
  have d: "?d * 86400 \<le> ?a + off" "?a + off < ?d * 86400 + 86400"
    using div_mult_mod_eq [of "?a + off" 86400] pos_mod_bound [of 86400 "?a + off"]
      pos_mod_sign [of 86400 "?a + off"]
    by (simp_all only: l wall_day_def)
  have resolve: "resolveWallTime (((?d + k) * 86400 + hh * 3600 + mm * 60 - off) * Second) hh mm tz =
      (((?d + k) * 86400 + hh * 3600 + mm * 60 - off) * Second, DSTNone)" if "0 \<le> k" "k \<le> ?s" for k
  proof (rule resolveWallTime_steady [OF st])
    show "?a - 4 * 86400 \<le> (?d + k) * 86400 + hh * 3600 + mm * 60 - off - 7200"
      using d hm off that by (simp add: algebra_simps)
    show "(?d + k) * 86400 + hh * 3600 + mm * 60 - off + 7200 \<le> ?a + (?s + 4) * 86400"
      using d hm off that by (simp add: algebra_simps)
    have "(?d + k) * 86400 + hh * 3600 + mm * 60 = 60 * ((?d + k) * 1440 + hh * 60 + mm)" by simp
    then show "((?d + k) * 86400 + hh * 3600 + mm * 60) mod 60 = 0"
      by (simp only: mod_mult_self1_is_0)
  qed (rule wall_of_parts [OF hm])+
  note Day = Day_bound [of ?l]
  have date: "Date (Year ?l) (Month ?l) (wrap64 (Day ?l + k)) hh mm tz =
      ((?d + k) * 86400 + hh * 3600 + mm * 60 - off) * Second" if "0 \<le> k" "k \<le> ?s" for k
  proof (rule Date_steady [OF st off])
    show "\<bar>(?d + k) * 86400\<bar> < 2 ^ 60"
      using d off that small s1 by (simp add: algebra_simps abs_less_iff abs_le_iff)
    show "wrap64 (Day ?l + k) = Day ?l + k"
      using Day that small by (intro wrap64_id) (auto simp: in_int64_def abs_le_iff)
  qed (use d off that hm in \<open>auto simp: algebra_simps\<close>)
  have step: "(if Freq rule = ''WEEKLY'' then wrap64 (Interval rule * 7) else Interval rule) = ?s"
    using small(1) rule by (auto simp: step_days_def valid_rule_def in_int64_def)
  have date0: "Date (Year ?l) (Month ?l) (Day ?l) hh mm tz = today"
    using date [of 0] s1 today Day by (simp add: in_int64_def abs_le_iff)
  have dates: "Date (Year ?l) (Month ?l) (wrap64 (Day ?l + ?s)) hh mm tz = today + ?s * 86400 * Second"
    using date [of ?s] s1 today by (simp add: algebra_simps)
  have r0: "resolveWallTime today hh mm tz = (today, DSTNone)"
    using resolve [of 0] s1 today by simp
  have "today + ?s * 86400 * Second = ((?d + ?s) * 86400 + hh * 3600 + mm * 60 - off) * Second"
    unfolding today by (simp add: algebra_simps)
  then have rs: "resolveWallTime (today + ?s * 86400 * Second) hh mm tz =
      (today + ?s * 86400 * Second, DSTNone)"
    using resolve [of ?s] s1 by simp
  have "parseLocalTime localTime = Inr (hh, mm)" using lt by (simp add: parseLocalTime_def)
  moreover have "\<not> (Interval rule < 1 \<or> (Freq rule \<noteq> ''DAILY'' \<and> Freq rule \<noteq> ''WEEKLY''))"
    using rule by (auto simp: valid_rule_def)
  ultimately show ?thesis
    by (simp only: NextOccurrence_def sum.case option.case prod.case if_False step date0 dates Let_def
        r0 rs if_distrib [where f = "\<lambda>t. Inr (resolveWallTime t hh mm tz)"])
      (simp add: r0 rs)
qed

lemma NextOccurrence_steady_bounds:
  assumes lt: "Parse_15_04 localTime = Some (hh, mm)" and rule: "valid_rule rule"
    and small: "step_days rule < 2 ^ 40" "\<bar>Unix after\<bar> < 2 ^ 50"
    and st: "steady tz off (Unix after - 4 * 86400) (Unix after + (step_days rule + 4) * 86400)"
    and off: "\<bar>off\<bar> \<le> 86400"
  shows "\<exists>t. NextOccurrence rule localTime (Some tz) after = Inr (t, DSTNone) \<and>
    after < t \<and> t \<le> after + step_days rule * 86400 * Second \<and>
    Hour (In_loc t tz) = hh \<and> Minute (In_loc t tz) = mm \<and> In_loc t tz mod 60 = 0"
proof -
  let ?a = "Unix after" and ?s = "step_days rule"
  define d where "d = wall_day (In_loc after tz)"
  define u where "u = d * 86400 + hh * 3600 + mm * 60"
  define today where "today = (u - off) * Second"
  define t where "t = (if after < today then today else today + ?s * 86400 * Second)"
  define k where "k = (if after < today then 0 else ?s)"
  have next_t: "NextOccurrence rule localTime (Some tz) after = Inr (t, DSTNone)"
    unfolding t_def by (rule NextOccurrence_steady [OF assms]) (simp add: today_def u_def d_def)
  have hm: "0 \<le> hh" "hh < 24" "0 \<le> mm" "mm < 60" using Parse_15_04_bounds [OF lt] by auto
  have s1: "1 \<le> ?s" using rule by (auto simp: valid_rule_def step_days_def)
  have "zone_offset tz ?a = off" using s1 by (rule_tac steady_at [OF st]) auto
  then have l: "In_loc after tz = ?a + off" by (simp add: In_loc_def)
  have d: "d * 86400 \<le> ?a + off" "?a + off < d * 86400 + 86400"
    using div_mult_mod_eq [of "?a + off" 86400] pos_mod_bound [of 86400 "?a + off"]
      pos_mod_sign [of 86400 "?a + off"]
    by (simp_all only: d_def l wall_day_def)
  have a: "?a * Second \<le> after" "after < ?a * Second + Second"
    using div_mult_mod_eq [of after Second] pos_mod_bound [of Second after] pos_mod_sign [of Second after]
    by (simp_all add: Unix_def Second_def)
  have tk: "t = (d * 86400 + k * 86400 + hh * 3600 + mm * 60 - off) * Second"
    by (simp add: t_def k_def today_def u_def algebra_simps)
  have k: "k = 0 \<or> k = ?s" by (simp add: k_def)
  have bounds: "after < t \<and> t \<le> after + ?s * 86400 * Second"
    using a d hm s1 by (auto simp: t_def today_def u_def Second_def)
  have "zone_offset tz (Unix t) = off"
    unfolding tk Unix_Second by (rule steady_at [OF st]) (use k d hm off s1 in auto)
  then have "In_loc t tz = (d + k) * 86400 + hh * 3600 + mm * 60"
    unfolding In_loc_def tk Unix_Second by (simp add: algebra_simps)
  moreover have "((d + k) * 86400 + hh * 3600 + mm * 60) mod 60 = 0"
    using mod_mult_self1_is_0 [of 60 "(d + k) * 1440 + hh * 60 + mm"] by (simp add: algebra_simps)
  ultimately show ?thesis
    using next_t bounds wall_of_parts [OF hm, of "d + k"] by simp
qed

section \<open>Any zone\<close>

lemma earliest_wall_same:
  assumes "same_wall tz (In_loc c tz) hour minute c"
  shows "same_wall tz (In_loc c tz) hour minute (earliest_wall tz hour minute c)"
    and "earliest_wall tz hour minute c \<le> c"
proof -
  let ?f = "\<lambda>delta earliest. let other = c + delta
        in if same_wall tz (In_loc c tz) hour minute other \<and> other < earliest then other else earliest"
  have "same_wall tz (In_loc c tz) hour minute (fold ?f xs e) \<and> fold ?f xs e \<le> c"
    if "same_wall tz (In_loc c tz) hour minute e" "e \<le> c" for xs e
    using that by (induction xs arbitrary: e) (auto simp: Let_def)
  then show "same_wall tz (In_loc c tz) hour minute (earliest_wall tz hour minute c)"
    and "earliest_wall tz hour minute c \<le> c"
    unfolding earliest_wall_def using assms by blast+
qed

lemma resolveWallTime_clock:
  assumes "resolveWallTime c hour minute tz = (t, note)" "note \<noteq> DSTShiftedForward"
  shows "Hour (In_loc t tz) = hour \<and> Minute (In_loc t tz) = minute \<and> t \<le> c"
proof -
  let ?l = "In_loc c tz"
  have hm: "Hour ?l = hour" "Minute ?l = minute"
    using assms by (auto simp: resolveWallTime_def Let_def split: if_splits)
  then have "same_wall tz ?l hour minute c" by (simp add: same_wall_def)
  note e = earliest_wall_same [OF this]
  have "t = c \<or> t = earliest_wall tz hour minute c"
    using assms hm by (auto simp: resolveWallTime_def Let_def split: if_splits)
  then show ?thesis using e hm by (auto simp: same_wall_def)
qed

definition berlin :: Location where
  "berlin = table_location ''Europe/Berlin'' 3600 [(1743296400, 7200), (1761440400, 3600)]"

definition sao_paulo :: Location where
  "sao_paulo = table_location ''America/Sao_Paulo'' (-10800) [(1508036400, -7200)]"

definition new_york :: Location where
  "new_york = table_location ''America/New_York'' (-18000) [(1772953200, -14400), (1793512800, -18000)]"

interpretation berlin_zone: tz_zone "loc_lookup berlin"
  by unfold_locales (auto simp: berlin_def table_location_def split: if_splits)

definition daily :: Rule where "daily = \<lparr>Freq = ''DAILY'', Interval = 1\<rparr>"

text \<open>
  C20 (round trip): every valid rule, written in the documented form
  \<^verbatim>\<open>FREQ=...;INTERVAL=...\<close>, is parsed back to itself; the parser returns only valid
  rules, so on them the two functions are inverse to each other.
\<close>

theorem ParseRule_roundtrip:
  "valid_rule r \<longleftrightarrow> ParseRule (print_rule r) = Inr r"
  using ParseRule_print ParseRule_valid by blast

text \<open>
  C19 (functional, bounds): as long as the zone keeps one UTC offset around the instants
  involved, the next occurrence exists, lies strictly after \<open>after\<close>, at most one
  recurrence step later, shows exactly the requested wall clock in the zone and carries no
  daylight-saving note.
\<close>

theorem NextOccurrence_progress:
  assumes "Parse_15_04 localTime = Some (hh, mm)" "valid_rule rule"
    and "step_days rule < 2 ^ 40" "\<bar>Unix after\<bar> < 2 ^ 50"
    and "steady tz off (Unix after - 4 * 86400) (Unix after + (step_days rule + 4) * 86400)"
    and "\<bar>off\<bar> \<le> 86400"
  shows "\<exists>t. NextOccurrence rule localTime (Some tz) after = Inr (t, DSTNone) \<and>
    after < t \<and> t \<le> after + step_days rule * 86400 * Second \<and>
    Hour (In_loc t tz) = hh \<and> Minute (In_loc t tz) = mm \<and> In_loc t tz mod 60 = 0"
  using NextOccurrence_steady_bounds [OF assms] by blast

theorem NextOccurrence_progress_witness:
  "\<exists>t. NextOccurrence daily ''08:00'' (Some UTC) 0 = Inr (t, DSTNone) \<and>
    0 < t \<and> t \<le> 0 + step_days daily * 86400 * Second \<and>
    Hour (In_loc t UTC) = 8 \<and> Minute (In_loc t UTC) = 0 \<and> In_loc t UTC mod 60 = 0"
proof (rule NextOccurrence_progress)
  show "Parse_15_04 ''08:00'' = Some (8, 0)" by code_simp
  show "valid_rule daily" by (simp add: valid_rule_def daily_def)
  show "step_days daily < 2 ^ 40" by (simp add: step_days_def daily_def)
  show "\<bar>Unix 0\<bar> < 2 ^ 50" by (simp add: Unix_def)
  show "steady UTC 0 (Unix 0 - 4 * 86400) (Unix 0 + (step_days daily + 4) * 86400)"
    by (simp add: steady_def zone_offset_def UTC_def table_location_def)
qed simp

text \<open>
  In any zone, whatever its transitions, an occurrence that is not noted as
  shifted shows exactly the requested hour and minute in that zone.
\<close>

theorem NextOccurrence_wall_clock:
  assumes "NextOccurrence rule localTime (Some tz) after = Inr (t, note)"
    and "note \<noteq> DSTShiftedForward"
  shows "parseLocalTime localTime = Inr (Hour (In_loc t tz), Minute (In_loc t tz))"
  using assms
  by (auto simp: NextOccurrence_def Let_def split: sum.splits prod.splits if_splits
      dest!: resolveWallTime_clock)

lemma berlin_before: "NextOccurrence daily ''02:30'' (Some berlin) (1761352200 * Second) =
    Inr (1761438600 * Second, DSTAmbiguousFirst)"
  by code_simp

lemma berlin_again: "NextOccurrence daily ''02:30'' (Some berlin) (1761438600 * Second) =
    Inr (1761438600 * Second, DSTAmbiguousFirst)"
  by code_simp

lemma sao_paulo_before: "NextOccurrence daily ''00:30'' (Some sao_paulo) (1507951800 * Second) =
    Inr (1508034600 * Second, DSTShiftedForward)"
  by code_simp

lemma sao_paulo_again: "NextOccurrence daily ''00:30'' (Some sao_paulo) (1508034600 * Second) =
    Inr (1508034600 * Second, DSTShiftedForward)"
  by code_simp

theorem NextOccurrence_wall_clock_witness:
  "parseLocalTime ''02:30'' =
     Inr (Hour (In_loc (1761438600 * Second) berlin), Minute (In_loc (1761438600 * Second) berlin))"
proof (rule NextOccurrence_wall_clock)
  show "NextOccurrence daily ''02:30'' (Some berlin) (1761438600 * Second) =
    Inr (1761438600 * Second, DSTAmbiguousFirst)" by (rule berlin_again)
qed simp


text \<open>
  The daylight-saving cases of the project's own test table for
  America/New_York in 2026: a time skipped in spring is moved past the gap, a time repeated in
  autumn resolves to its first occurrence, other days carry no note.
\<close>

theorem NextOccurrence_new_york_gap:
  "NextOccurrence daily ''02:30'' (Some new_york) (1772946000 * Second) =
     Inr (1772955000 * Second, DSTShiftedForward)"
  by code_simp

theorem NextOccurrence_new_york_overlap:
  "NextOccurrence daily ''01:30'' (Some new_york) (1793505600 * Second) =
     Inr (1793511000 * Second, DSTAmbiguousFirst)"
  by code_simp

theorem NextOccurrence_new_york_plain:
  "NextOccurrence daily ''08:00'' (Some new_york) (1772892000 * Second) =
     Inr (1772971200 * Second, DSTNone)"
  by code_simp

end
