(* ===== verification/LLMPolicy.thy ===== *)
theory LLMPolicy
  imports SharedKernel Complex_Main "HOL-Library.Signed_Division"
begin

text \<open>
  \<^verbatim>\<open>internal/task/llm.go\<close>: the request and response of a model call, the policy of the
  executor, the validation of a response against a JSON schema and the cost estimate.

  A decoded JSON value is the datatype \<open>json\<close>; an object is the list of its members, in
  which the first entry for a key is the one \<^verbatim>\<open>map[string]any\<close> holds. The iteration order
  of a Go map is not specified; the model goes through the members in order, which decides only
  which of several violations is reported. \<^verbatim>\<open>json.Unmarshal\<close> and the \<^verbatim>\<open>%q\<close>
  verb are the parameter \<open>json_pkg\<close>; a \<^verbatim>\<open>float64\<close> is the rational it denotes.
\<close>

section \<open>Data\<close>

datatype json = JNull | JBool bool | JNum rat | JStr string | JArr "json list"
  | JObj "(string \<times> json) list"

record json_pkg =
  json_Unmarshal :: "string \<Rightarrow> json option"
  fmt_q :: "string \<Rightarrow> string"

record LLMRequest =
  req_Model :: string
  req_Prompt :: string
  req_MaxInputTokens :: int
  req_MaxOutputTokens :: int

record LLMResponse =
  resp_Content :: string
  resp_InputTokens :: int
  resp_OutputTokens :: int

record LLMPolicy =
  TimeoutSeconds :: int
  MaxRetries :: int
  MaxInputTokens :: int
  MaxOutputTokens :: int
  MaxCostCents :: int
  OutputSchema :: string

section \<open>Output validation\<close>

text \<open>\<^verbatim>\<open>reflect.TypeOf\<close> of a decoded value: the same dynamic type.\<close>

fun same_type :: "json \<Rightarrow> json \<Rightarrow> bool" where
  "same_type JNull JNull = True"
| "same_type (JBool _) (JBool _) = True"
| "same_type (JNum _) (JNum _) = True"
| "same_type (JStr _) (JStr _) = True"
| "same_type (JArr _) (JArr _) = True"
| "same_type (JObj _) (JObj _) = True"
| "same_type _ _ = False"

text \<open>
  \<^verbatim>\<open>n == float64(int64(n))\<close>: the conversion truncates; outside the range of
  \<^verbatim>\<open>int64\<close> it gives the least value on amd64.
\<close>

definition int64_of_float :: "rat \<Rightarrow> int" where
  "int64_of_float n =
     (let k = (if 0 \<le> n then \<lfloor>n\<rfloor> else \<lceil>n\<rceil>) in if in_int64 k then k else - (2 ^ 63))"

definition matchesJSONType :: "string \<Rightarrow> json \<Rightarrow> bool" where
  "matchesJSONType schemaType value =
     (if schemaType = ''object'' then (case value of JObj _ \<Rightarrow> True | _ \<Rightarrow> False)
      else if schemaType = ''array'' then (case value of JArr _ \<Rightarrow> True | _ \<Rightarrow> False)
      else if schemaType = ''string'' then (case value of JStr _ \<Rightarrow> True | _ \<Rightarrow> False)
      else if schemaType = ''number'' then (case value of JNum _ \<Rightarrow> True | _ \<Rightarrow> False)
      else if schemaType = ''integer'' then
        (case value of JNum n \<Rightarrow> n = of_int (int64_of_float n) | _ \<Rightarrow> False)
      else if schemaType = ''boolean'' then (case value of JBool _ \<Rightarrow> True | _ \<Rightarrow> False)
      else if schemaType = ''null'' then value = JNull
      else False)"

definition requiredFields ::
  "(string \<times> json) list \<Rightarrow> (string \<times> json) list \<Rightarrow> bool \<Rightarrow> string list" where
  "requiredFields schema properties explicit =
     (case map_of schema ''required'' of
        Some (JArr raw) \<Rightarrow> concat (map (\<lambda>field. case field of JStr name \<Rightarrow> [name] | _ \<Rightarrow> []) raw)
      | _ \<Rightarrow>
          if explicit then []
          else filter (\<lambda>field. field \<noteq> ''type'' \<and> field \<noteq> ''required'' \<and> field \<noteq> ''properties'' \<and>
                 field \<noteq> ''items'') (map fst properties))"

text \<open>\<^verbatim>\<open>schemaType, _ := object["type"].(string)\<close>: empty when absent or no string.\<close>

definition schema_type :: "(string \<times> json) list \<Rightarrow> string" where
  "schema_type object = (case map_of object ''type'' of Some (JStr t) \<Rightarrow> t | _ \<Rightarrow> '''')"

definition schema_properties :: "(string \<times> json) list \<Rightarrow> (string \<times> json) list \<times> bool" where
  "schema_properties object =
     (case map_of object ''properties'' of Some (JObj ps) \<Rightarrow> (ps, True) | _ \<Rightarrow> (object, False))"

text \<open>A loop that returns at the first error.\<close>

fun check_all :: "('a \<Rightarrow> unit result) \<Rightarrow> 'a list \<Rightarrow> unit result" where
  "check_all f [] = Inr ()"
| "check_all f (x # xs) = (case f x of Inl e \<Rightarrow> Inl e | Inr _ \<Rightarrow> check_all f xs)"

lemma check_all_cong [fundef_cong]:
  "xs = ys \<Longrightarrow> (\<And>x. x \<in> set ys \<Longrightarrow> f x = g x) \<Longrightarrow> check_all f xs = check_all g ys"
  by (induction xs arbitrary: ys) (auto split: sum.split)

lemma check_all_ok: "check_all f xs = Inr () \<longleftrightarrow> (\<forall>x\<in>set xs. f x = Inr ())"
  by (induction xs) (auto split: sum.splits)

lemma map_of_size: "map_of ms k = Some v \<Longrightarrow> size v < Suc (size_list (size_prod (\<lambda>x. 0) size) ms)"
  by (induction ms) (auto split: if_splits)

lemma member_size:
  "(f, v) \<in> set ms \<Longrightarrow> size v < Suc (size_list (size_prod (\<lambda>x. 0) size) ms)"
  by (induction ms) auto

lemma schema_properties_size:
  "(f, v) \<in> set (fst (schema_properties object)) \<Longrightarrow>
   size v < Suc (size_list (size_prod (\<lambda>x. 0) size) object)"
  by (fastforce simp: schema_properties_def split: option.splits json.splits
      dest: map_of_size [where k = "''properties''"] member_size)

function validateJSONValue :: "(string \<Rightarrow> string) \<Rightarrow> json \<Rightarrow> json \<Rightarrow> string \<Rightarrow> unit result" where
  "validateJSONValue q schema value path =
     (case schema of
        JObj object \<Rightarrow>
          if schema_type object \<noteq> '''' \<and> \<not> matchesJSONType (schema_type object) value
          then Inl (ErrText (path @ '' must be '' @ schema_type object))
          else if schema_type object = ''array'' then
            (case (map_of object ''items'', value) of
               (Some itemSchema, JArr items) \<Rightarrow>
                 check_all (\<lambda>(i, item).
                     validateJSONValue q itemSchema item (path @ ''['' @ Itoa (int i) @ '']''))
                   (enumerate 0 items)
             | _ \<Rightarrow> Inr ())
          else if schema_type object \<noteq> '''' \<and> schema_type object \<noteq> ''object'' then Inr ()
          else
            (case value of
               JObj got \<Rightarrow>
                 let (properties, hasProperties) = schema_properties object
                 in (case check_all (\<lambda>field. if map_of got field = None
                        then Inl (ErrText (path @ '' missing field '' @ q field)) else Inr ())
                        (requiredFields object properties hasProperties) of
                       Inl e \<Rightarrow> Inl e
                     | Inr _ \<Rightarrow>
                         check_all (\<lambda>(field, fieldSchema). case map_of got field of
                             None \<Rightarrow> Inr ()
                           | Some fieldValue \<Rightarrow>
                               validateJSONValue q fieldSchema fieldValue (path @ ''.'' @ field))
                         properties)
             | _ \<Rightarrow> Inl (ErrText (path @ '' must be object'')))
      | _ \<Rightarrow>
          if schema \<noteq> JNull \<and> \<not> same_type schema value
          then Inl (ErrText (path @ '' has wrong type''))
          else Inr ())"
  by pat_completeness auto

termination
proof (relation "measure (\<lambda>(q, schema, value, path). size schema)", goal_cases)
  case 1 show ?case by simp
next
  case 2 then show ?case by (auto dest: map_of_size [OF sym])
next
  case (3 q schema val path object x xa ps has f p k fs v)
  then have "ps = fst (schema_properties object)" by (metis fst_conv)
  with 3 show ?case using schema_properties_size [of k fs object] by simp
qed

declare validateJSONValue.simps [simp del]

definition ValidateOutput :: "json_pkg \<Rightarrow> string \<Rightarrow> string \<Rightarrow> unit result" where
  "ValidateOutput J schema content =
     (if schema = '''' then Inr ()
      else case json_Unmarshal J schema of
        None \<Rightarrow> Inl (ErrorfIs ErrInvalidLLMOutput ''invalid configured schema'')
      | Some configured \<Rightarrow>
          (case json_Unmarshal J content of
             None \<Rightarrow> Inl (ErrorfIs ErrInvalidLLMOutput ''response is not valid JSON'')
           | Some got \<Rightarrow>
               (case validateJSONValue (fmt_q J) configured got ''$'' of
                  Inl e \<Rightarrow> Inl (Errorf2 ErrInvalidLLMOutput e)
                | Inr _ \<Rightarrow> Inr ())))"

section \<open>Cost estimate\<close>

definition EstimateCostCents :: "string \<Rightarrow> int \<Rightarrow> int \<Rightarrow> int" where
  "EstimateCostCents model inputTokens outputTokens =
     (let total = wrap64 (inputTokens + outputTokens)
      in if total \<le> 0 then 0 else wrap64 (total + 999) sdiv 1000)"

section \<open>What validation accepts\<close>

text \<open>
  The schema subset, declaratively: a schema that is not an object asks for a value of its own
  type (null asks for nothing); a typed schema asks for that type, and for every item of an array
  to meet \<^verbatim>\<open>items\<close>; an object schema asks for the required fields, and for every
  field it describes to meet its description when present.
\<close>

inductive conforms :: "json \<Rightarrow> json \<Rightarrow> bool" where
  any: "conforms JNull v"
| example: "\<forall>ms. s \<noteq> JObj ms \<Longrightarrow> same_type s v \<Longrightarrow> conforms s v"
| scalar: "t = schema_type ms \<Longrightarrow> t \<notin> {'''', ''array'', ''object''} \<Longrightarrow> matchesJSONType t v \<Longrightarrow>
    conforms (JObj ms) v"
| array: "schema_type ms = ''array'' \<Longrightarrow>
    (\<And>s x. map_of ms ''items'' = Some s \<Longrightarrow> x \<in> set xs \<Longrightarrow> conforms s x) \<Longrightarrow>
    conforms (JObj ms) (JArr xs)"
| object: "schema_type ms \<in> {'''', ''object''} \<Longrightarrow> schema_properties ms = (ps, has) \<Longrightarrow>
    set (requiredFields ms ps has) \<subseteq> dom (map_of got) \<Longrightarrow>
    (\<And>f s v. (f, s) \<in> set ps \<Longrightarrow> map_of got f = Some v \<Longrightarrow> conforms s v) \<Longrightarrow>
    conforms (JObj ms) (JObj got)"

inductive_cases conforms_objE: "conforms (JObj ms) v"

lemma matches_shape:
  "matchesJSONType ''array'' v \<longleftrightarrow> (\<exists>xs. v = JArr xs)"
  "matchesJSONType ''object'' v \<longleftrightarrow> (\<exists>ms. v = JObj ms)"
  by (auto simp: matchesJSONType_def split: json.splits)

lemma conforms_nonobj:
  "\<forall>ms. s \<noteq> JObj ms \<Longrightarrow> conforms s v \<longleftrightarrow> s = JNull \<or> same_type s v"
  by (auto intro: conforms.any conforms.example elim: conforms.cases)

lemma check_fields_ok:
  "check_all (\<lambda>field. if map_of got field = None then Inl (e field) else Inr ()) fs = Inr () \<longleftrightarrow>
   set fs \<subseteq> dom (map_of got)"
  by (auto simp: check_all_ok dom_def split: if_splits)

lemma enumerate_snd: "(\<forall>p\<in>set (enumerate 0 xs). P (snd p)) \<longleftrightarrow> (\<forall>x\<in>set xs. P x)"
proof -
  have "(\<forall>p\<in>set (enumerate 0 xs). P (snd p)) \<longleftrightarrow> (\<forall>x\<in>set (map snd (enumerate 0 xs)). P x)"
    by (simp add: ball_simps del: map_snd_enumerate)
  then show ?thesis by (simp only: map_snd_enumerate)
qed

text \<open>The unfolded validator on each shape of schema and value.\<close>

lemma validate_array:
  assumes "schema_type ms = ''array''"
  shows "validateJSONValue q (JObj ms) (JArr xs) path = Inr () \<longleftrightarrow>
    (\<forall>s. map_of ms ''items'' = Some s \<longrightarrow> (\<forall>p\<in>set (enumerate 0 xs).
       validateJSONValue q s (snd p) (path @ ''['' @ Itoa (int (fst p)) @ '']'') = Inr ()))"
  using assms matches_shape(1) [of "JArr xs"]
  by (subst validateJSONValue.simps) (auto simp: check_all_ok case_prod_beta split: option.split)

lemma validate_object:
  assumes "schema_type ms = '''' \<or> schema_type ms = ''object''" "schema_properties ms = (ps, has)"
  shows "validateJSONValue q (JObj ms) (JObj got) path = Inr () \<longleftrightarrow>
    set (requiredFields ms ps has) \<subseteq> dom (map_of got) \<and>
    (\<forall>(f, s)\<in>set ps. \<forall>v. map_of got f = Some v \<longrightarrow>
       validateJSONValue q s v (path @ ''.'' @ f) = Inr ())"
proof -
  let ?req = "check_all (\<lambda>field. if map_of got field = None
    then Inl (ErrText (path @ '' missing field '' @ q field)) else Inr ()) (requiredFields ms ps has)"
  have "validateJSONValue q (JObj ms) (JObj got) path = (case ?req of Inl e \<Rightarrow> Inl e | Inr _ \<Rightarrow>
      check_all (\<lambda>(f, s). case map_of got f of None \<Rightarrow> Inr ()
        | Some v \<Rightarrow> validateJSONValue q s v (path @ ''.'' @ f)) ps)"
    using assms matches_shape(2) [of "JObj got"] by (subst validateJSONValue.simps) auto
  moreover have "?req = Inr () \<longleftrightarrow> set (requiredFields ms ps has) \<subseteq> dom (map_of got)"
    by (rule check_fields_ok)
  ultimately show ?thesis
    by (cases ?req) (auto simp: check_all_ok split: option.splits)
qed

lemma validate_iff: "validateJSONValue q schema value path = Inr () \<longleftrightarrow> conforms schema value"
proof (induction schema arbitrary: "value" path rule: measure_induct_rule [where f = size])
  case (less schema)
  show ?case
  proof (cases "\<exists>ms. schema = JObj ms")
    case False
    then have "validateJSONValue q schema value path = Inr () \<longleftrightarrow> schema = JNull \<or> same_type schema value"
      by (subst validateJSONValue.simps) (auto split: json.split)
    with False show ?thesis by (simp add: conforms_nonobj)
  next
    case True
    then obtain ms where JObj: "schema = JObj ms" by blast
    let ?t = "schema_type ms"
    consider (bad) "?t \<noteq> ''''" "\<not> matchesJSONType ?t value"
      | (arr) xs where "?t = ''array''" "value = JArr xs"
      | (scal) "?t \<notin> {'''', ''array'', ''object''}" "matchesJSONType ?t value"
      | (obj) got where "?t = '''' \<or> ?t = ''object''" "value = JObj got"
      | (noobj) "?t = ''''" "\<forall>got. value \<noteq> JObj got"
      using matches_shape [of "value"]
      by (cases "?t = ''''"; cases "?t = ''array''"; cases "?t = ''object''"; force)
    then show ?thesis
    proof cases
      case bad
      then show ?thesis
        using JObj matches_shape by (subst validateJSONValue.simps) (auto elim!: conforms_objE)
    next
      case scal
      then show ?thesis
        using JObj by (subst validateJSONValue.simps) (auto intro: conforms.scalar)
    next
      case noobj
      then show ?thesis
        using JObj by (subst validateJSONValue.simps) (auto elim!: conforms_objE split: json.split)
    next
      case (arr xs)
      have "validateJSONValue q s x p = Inr () \<longleftrightarrow> conforms s x"
        if "map_of ms ''items'' = Some s" for s x p
        using less.IH map_of_size [OF that] JObj by simp
      then have "validateJSONValue q schema value path = Inr () \<longleftrightarrow>
          (\<forall>s. map_of ms ''items'' = Some s \<longrightarrow> (\<forall>x\<in>set xs. conforms s x))"
        unfolding JObj arr(2) validate_array [OF arr(1)] by (simp add: enumerate_snd)
      then show ?thesis
        using JObj arr by (auto intro: conforms.array elim: conforms_objE)
    next
      case (obj got)
      obtain ps has where ps: "schema_properties ms = (ps, has)" by fastforce
      have "validateJSONValue q s v p = Inr () \<longleftrightarrow> conforms s v" if "(f, s) \<in> set ps" for f s v p
        using less.IH schema_properties_size [of f s ms] that ps JObj by simp
      then have "validateJSONValue q schema value path = Inr () \<longleftrightarrow>
          set (requiredFields ms ps has) \<subseteq> dom (map_of got) \<and>
          (\<forall>(f, s)\<in>set ps. \<forall>v. map_of got f = Some v \<longrightarrow> conforms s v)"
        unfolding JObj obj(2) validate_object [OF obj(1) ps] by fastforce
      moreover have "conforms (JObj ms) (JObj got) \<longleftrightarrow>
          set (requiredFields ms ps has) \<subseteq> dom (map_of got) \<and>
          (\<forall>(f, s)\<in>set ps. \<forall>v. map_of got f = Some v \<longrightarrow> conforms s v)" (is "_ \<longleftrightarrow> ?r")
      proof
        show ?r if "conforms (JObj ms) (JObj got)"
          using that by (rule conforms_objE) (use obj(1) ps in auto)
        show "conforms (JObj ms) (JObj got)" if ?r
          by (rule conforms.object [OF _ ps]) (use that obj(1) in auto)
      qed
      ultimately show ?thesis by (simp only: JObj obj(2))
    qed
  qed
qed

lemma ValidateOutput_error: "ValidateOutput J schema content = Inl e \<Longrightarrow> err_is e ErrInvalidLLMOutput"
  by (auto simp: ValidateOutput_def split: if_splits option.splits sum.splits)

lemma EstimateCostCents_ceiling:
  assumes "0 \<le> i" "0 \<le> k" "i + k < 2 ^ 63 - 999"
  shows "EstimateCostCents m i k = (i + k + 999) div 1000"
proof -
  have "wrap64 (i + k) = i + k" "wrap64 (i + k + 999) = i + k + 999"
    using assms by (simp_all add: in_int64_def)
  then show ?thesis
    using assms by (auto simp: EstimateCostCents_def Let_def signed_divide_int_def)
qed

section \<open>Properties\<close>


text \<open>
  For token counts that are not negative and whose sum leaves room for the rounding,
  the estimate is the token total in thousands, rounded up: never below the cost of the
  tokens, and less than one cent above it.
\<close>

theorem EstimateCostCents_bounds:
  assumes "0 \<le> i" "0 \<le> k" "i + k < 2 ^ 63 - 999"
  shows "i + k \<le> 1000 * EstimateCostCents m i k \<and> 1000 * EstimateCostCents m i k < i + k + 1000"
  unfolding EstimateCostCents_ceiling [OF assms]
  using div_mult_mod_eq [of "i + k + 999" 1000] pos_mod_bound [of 1000 "i + k + 999"]
    pos_mod_sign [of 1000 "i + k + 999"] by linarith

theorem EstimateCostCents_bounds_witness:
  "(1500::int) + 501 \<le> 1000 * EstimateCostCents ''fake-default'' 1500 501 \<and>
   1000 * EstimateCostCents ''fake-default'' 1500 501 < 1500 + 501 + 1000"
  by (rule EstimateCostCents_bounds) simp_all

end
