(* ===== verification/TaskDomain.thy ===== *)
theory TaskDomain
  imports Recurrence LLMPolicy
begin

text \<open>
  \<^verbatim>\<open>internal/task/domain.go\<close>: the entities Job, JobRun and RunEvent, their validating
  constructors and the status transitions of a run. A Go string type with named constants is a
  datatype with those constants as constructors and one more for every other string;
  \<open>StatusOther ''''\<close> is the zero value. What \<^verbatim>\<open>time.Now()\<close> and
  \<^verbatim>\<open>uuid.NewV7()\<close> return is passed in.
\<close>

section \<open>Data\<close>

datatype Kind = KindOneOff | KindRecurring | KindOther string
datatype JobType = JobTypeGenericLLM | JobTypeOther string
datatype Status = StatusPending | StatusQueued | StatusRunning | StatusSuccess | StatusRetry
  | StatusFailed | StatusCancelled | StatusOther string
datatype EventType = EventJobCreated | EventJobRunCreated | EventJobRunEnqueued
  | EventJobRunStarted | EventJobRunSucceeded | EventJobRunFailed | EventJobRunRetry
  | EventJobRunDLQ | EventJobCancelled | EventDuplicateDetected | EventChildEnqueued
  | EventLLMTimeout | EventLLMValidationFailed | EventQuotaDeferred

record Quota =
  MaxJobsPerHour :: int
  MaxActiveRecurring :: int
  MaxConcurrentRuns :: int
  MaxDailyLLMCostCents :: int

record ScheduleSpec =
  ss_Type :: Kind
  ss_ScheduledAtUTC :: time
  ss_RecurrenceRule :: string
  ss_LocalTime :: string
  ss_TimezoneID :: string
  ss_OriginalUserText :: string
  ss_LegacyInterval :: duration
  ss_SideEffecting :: bool
  ss_IdempotencyScope :: string
  ss_ParentJobID :: "JobID option"
  ss_TriggerOnParentStatus :: Status
  ss_JobType :: JobType

record Job =
  job_id :: JobID
  job_tenantID :: TenantID
  job_userID :: UserID
  job_kind :: Kind
  job_description :: string
  job_interval :: duration
  job_scheduleType :: Kind
  job_scheduledAtUTC :: time
  job_recurrenceRule :: string
  job_localTime :: string
  job_timezoneID :: string
  job_originalUserText :: string
  job_sideEffecting :: bool
  job_idempotencyScope :: string
  job_parentJobID :: "JobID option"
  job_triggerOnParentStatus :: Status
  job_jobType :: JobType
  job_createdAt :: time
  job_updatedAt :: time

record JobRun =
  run_id :: JobRunID
  run_tenantID :: TenantID
  run_jobID :: JobID
  run_sequence :: int
  run_status :: Status
  run_scheduledAt :: time
  run_timeBucket :: int
  run_attempts :: int
  run_errorCode :: string
  run_errorMsg :: string
  run_startedAt :: time
  run_completedAt :: time
  run_failedAt :: time
  run_createdAt :: time
  run_updatedAt :: time
  run_scheduleType :: Kind
  run_recurrenceRule :: string
  run_localTime :: string
  run_timezoneID :: string
  run_idempotencyKey :: string
  run_parentJobID :: "JobID option"
  run_childJobIDs :: "JobID list"

text \<open>
  The payload of an event, \<^verbatim>\<open>map[string]any\<close>, holds strings and integers, which are the
  JSON strings and numbers they are stored as; \<^term>\<open>None\<close> is the nil map.
\<close>

type_synonym payload = "(string \<times> json) list option"

record RunEvent =
  ev_id :: RunEventID
  ev_tenantID :: TenantID
  ev_jobID :: JobID
  ev_jobRunID :: JobRunID
  ev_status :: Status
  ev_eventType :: EventType
  ev_payload :: payload
  ev_createdAt :: time

section \<open>Constructors\<close>

definition bucketOf :: "time \<Rightarrow> int" where
  "bucketOf t = Unix (Truncate t Hour_ns)"

definition isTerminalStatus :: "Status \<Rightarrow> bool" where
  "isTerminalStatus st \<longleftrightarrow> st = StatusSuccess \<or> st = StatusFailed \<or> st = StatusCancelled"

text \<open>\<^verbatim>\<open>if x == "" { x = d }\<close>, for a string-typed field.\<close>

definition or_default :: "'a \<Rightarrow> 'a \<Rightarrow> 'a \<Rightarrow> 'a" where
  "or_default z x d = (if x = z then d else x)"

definition NewJob ::
  "tz_database \<Rightarrow> time \<Rightarrow> JobID \<Rightarrow> TenantID \<Rightarrow> UserID \<Rightarrow> string \<Rightarrow> ScheduleSpec \<Rightarrow> Job result" where
  "NewJob db now newID tenantID userID description sched =
     (let timezoneID = or_default '''' (ss_TimezoneID sched) ''UTC'';
          idempotencyScope = or_default '''' (ss_IdempotencyScope sched) ''job_run'';
          jobType = or_default (JobTypeOther '''') (ss_JobType sched) JobTypeGenericLLM
      in if id_IsZero tenantID \<or> id_IsZero userID then Inl ErrInvalidOwner
         else if TrimSpace description = '''' then Inl ErrInvalidDescription
         else if ss_Type sched \<noteq> KindOneOff \<and> ss_Type sched \<noteq> KindRecurring
         then Inl ErrInvalidSchedule
         else if LoadLocation db timezoneID = None then Inl ErrInvalidTimezone
         else
           case (if ss_Type sched = KindRecurring
                 then (case ParseRule (ss_RecurrenceRule sched) of
                         Inl e \<Rightarrow> Inl e
                       | Inr _ \<Rightarrow>
                           (case parseLocalTime (ss_LocalTime sched) of
                              Inl e \<Rightarrow> Inl e
                            | Inr _ \<Rightarrow> Inr ()))
                 else Inr ()) of
             Inl e \<Rightarrow> Inl e
           | Inr _ \<Rightarrow>
               if ss_ParentJobID sched \<noteq> None \<and> \<not> isTerminalStatus (ss_TriggerOnParentStatus sched)
               then Inl ErrInvalidSchedule
               else if ss_ParentJobID sched = None \<and> ss_TriggerOnParentStatus sched \<noteq> StatusOther ''''
               then Inl ErrInvalidSchedule
               else if jobType \<noteq> JobTypeGenericLLM then Inl ErrInvalidJobType
               else Inr \<lparr>
                 job_id = newID,
                 job_tenantID = tenantID,
                 job_userID = userID,
                 job_kind = ss_Type sched,
                 job_description = description,
                 job_interval = ss_LegacyInterval sched,
                 job_scheduleType = ss_Type sched,
                 job_scheduledAtUTC = ss_ScheduledAtUTC sched,
                 job_recurrenceRule = ss_RecurrenceRule sched,
                 job_localTime = ss_LocalTime sched,
                 job_timezoneID = timezoneID,
                 job_originalUserText = ss_OriginalUserText sched,
                 job_sideEffecting = ss_SideEffecting sched,
                 job_idempotencyScope = idempotencyScope,
                 job_parentJobID = ss_ParentJobID sched,
                 job_triggerOnParentStatus = ss_TriggerOnParentStatus sched,
                 job_jobType = jobType,
                 job_createdAt = now,
                 job_updatedAt = now\<rparr>)"

definition idempotency_key :: "uuid_pkg \<Rightarrow> JobID \<Rightarrow> int \<Rightarrow> string" where
  "idempotency_key U jobID sequence = uuid_String U jobID @ '':'' @ Itoa sequence"

definition NewJobRun ::
  "uuid_pkg \<Rightarrow> time \<Rightarrow> JobRunID \<Rightarrow> TenantID \<Rightarrow> JobID \<Rightarrow> int \<Rightarrow> time \<Rightarrow> JobRun result" where
  "NewJobRun U now newID tenantID jobID sequence scheduledAt =
     (if id_IsZero tenantID \<or> id_IsZero jobID \<or> sequence < 1 \<or> IsZero scheduledAt
      then Inl ErrInvalidSchedule
      else Inr \<lparr>
        run_id = newID,
        run_tenantID = tenantID,
        run_jobID = jobID,
        run_sequence = sequence,
        run_status = StatusPending,
        run_scheduledAt = scheduledAt,
        run_timeBucket = bucketOf scheduledAt,
        run_attempts = 0,
        run_errorCode = '''',
        run_errorMsg = '''',
        run_startedAt = zero_time,
        run_completedAt = zero_time,
        run_failedAt = zero_time,
        run_createdAt = now,
        run_updatedAt = now,
        run_scheduleType = KindOther '''',
        run_recurrenceRule = '''',
        run_localTime = '''',
        run_timezoneID = '''',
        run_idempotencyKey = idempotency_key U jobID sequence,
        run_parentJobID = None,
        run_childJobIDs = []\<rparr>)"

definition NewRunEvent ::
  "time \<Rightarrow> RunEventID \<Rightarrow> TenantID \<Rightarrow> JobID \<Rightarrow> JobRunID \<Rightarrow> Status \<Rightarrow> EventType \<Rightarrow> payload \<Rightarrow> RunEvent" where
  "NewRunEvent now newID tenantID jobID runID s eventType payload = \<lparr>
     ev_id = newID,
     ev_tenantID = tenantID,
     ev_jobID = jobID,
     ev_jobRunID = runID,
     ev_status = s,
     ev_eventType = eventType,
     ev_payload = payload,
     ev_createdAt = now\<rparr>"

section \<open>Status transitions\<close>

text \<open>
  Each method of \<^verbatim>\<open>*JobRun\<close> that changes the status returns the changed run, or the
  error and leaves the run as it is. \<open>now\<close> is what \<^verbatim>\<open>time.Now().UTC()\<close> returned.
\<close>

definition IsTerminal :: "JobRun \<Rightarrow> bool" where
  "IsTerminal r \<longleftrightarrow>
     run_status r = StatusSuccess \<or> run_status r = StatusFailed \<or> run_status r = StatusCancelled"

definition MarkQueued :: "time \<Rightarrow> JobRun \<Rightarrow> JobRun result" where
  "MarkQueued now r =
     (if run_status r \<noteq> StatusPending \<and> run_status r \<noteq> StatusRetry
      then Inl ErrInvalidStatusTransition
      else Inr (r\<lparr>run_status := StatusQueued, run_updatedAt := now\<rparr>))"

definition MarkPending :: "time \<Rightarrow> JobRun \<Rightarrow> JobRun result" where
  "MarkPending now r =
     (if run_status r \<noteq> StatusQueued then Inl ErrInvalidStatusTransition
      else Inr (r\<lparr>run_status := StatusPending, run_updatedAt := now\<rparr>))"

definition MarkRunning :: "time \<Rightarrow> JobRun \<Rightarrow> JobRun result" where
  "MarkRunning now r =
     (if run_status r \<noteq> StatusQueued \<and> run_status r \<noteq> StatusRetry
      then Inl ErrInvalidStatusTransition
      else Inr (r\<lparr>run_status := StatusRunning, run_startedAt := now, run_updatedAt := now\<rparr>))"

definition MarkSuccess :: "time \<Rightarrow> JobRun \<Rightarrow> JobRun result" where
  "MarkSuccess now r =
     (if run_status r \<noteq> StatusRunning then Inl ErrInvalidStatusTransition
      else Inr (r\<lparr>run_status := StatusSuccess, run_completedAt := now, run_updatedAt := now\<rparr>))"

definition MarkRetry :: "time \<Rightarrow> JobRun \<Rightarrow> JobRun result" where
  "MarkRetry now r =
     (if run_status r \<noteq> StatusRunning then Inl ErrInvalidStatusTransition
      else Inr (r\<lparr>run_status := StatusRetry, run_attempts := wrap64 (run_attempts r + 1),
                  run_failedAt := now, run_updatedAt := now\<rparr>))"

definition MarkFailed :: "time \<Rightarrow> JobRun \<Rightarrow> JobRun result" where
  "MarkFailed now r =
     (if run_status r \<noteq> StatusRunning \<and> run_status r \<noteq> StatusRetry
      then Inl ErrInvalidStatusTransition
      else Inr (r\<lparr>run_status := StatusFailed, run_failedAt := now, run_updatedAt := now\<rparr>))"

definition Cancel_run :: "time \<Rightarrow> JobRun \<Rightarrow> JobRun result" where
  "Cancel_run now r =
     (if IsTerminal r then Inl ErrInvalidStatusTransition
      else Inr (r\<lparr>run_status := StatusCancelled, run_completedAt := now, run_updatedAt := now\<rparr>))"

definition setError :: "string \<Rightarrow> string \<Rightarrow> JobRun \<Rightarrow> JobRun" where
  "setError code msg r = r\<lparr>run_errorCode := code, run_errorMsg := msg\<rparr>"

definition setSchedule :: "Job \<Rightarrow> JobRun \<Rightarrow> JobRun" where
  "setSchedule j r = r\<lparr>
     run_scheduleType := job_scheduleType j,
     run_recurrenceRule := job_recurrenceRule j,
     run_localTime := job_localTime j,
     run_timezoneID := job_timezoneID j,
     run_parentJobID := job_parentJobID j\<rparr>"

definition setChildren :: "Job list \<Rightarrow> JobRun \<Rightarrow> JobRun" where
  "setChildren children r = r\<lparr>run_childJobIDs := map job_id children\<rparr>"

section \<open>The lifecycle of a run\<close>

text \<open>The status machine the transition methods are meant to implement.\<close>

inductive lifecycle :: "Status \<Rightarrow> Status \<Rightarrow> bool" where
  dispatch: "lifecycle StatusPending StatusQueued"
| redispatch: "lifecycle StatusRetry StatusQueued"
| revert: "lifecycle StatusQueued StatusPending"
| start: "lifecycle StatusQueued StatusRunning"
| restart: "lifecycle StatusRetry StatusRunning"
| succeed: "lifecycle StatusRunning StatusSuccess"
| try_again: "lifecycle StatusRunning StatusRetry"
| fail: "lifecycle StatusRunning StatusFailed"
| give_up: "lifecycle StatusRetry StatusFailed"
| cancel: "\<not> isTerminalStatus s \<Longrightarrow> lifecycle s StatusCancelled"

inductive_simps lifecycle_iff: "lifecycle s t"

text \<open>The calls of the transition methods, and a sequence of them on one run.\<close>

datatype run_op = OpQueued | OpPending | OpRunning | OpSuccess | OpRetry | OpFailed | OpCancel

fun apply_op :: "run_op \<Rightarrow> time \<Rightarrow> JobRun \<Rightarrow> JobRun result" where
  "apply_op OpQueued = MarkQueued"
| "apply_op OpPending = MarkPending"
| "apply_op OpRunning = MarkRunning"
| "apply_op OpSuccess = MarkSuccess"
| "apply_op OpRetry = MarkRetry"
| "apply_op OpFailed = MarkFailed"
| "apply_op OpCancel = Cancel_run"

fun apply_ops :: "(run_op \<times> time) list \<Rightarrow> JobRun \<Rightarrow> JobRun result" where
  "apply_ops [] r = Inr r"
| "apply_ops ((op, now) # ops) r =
     (case apply_op op now r of Inl e \<Rightarrow> Inl e | Inr r' \<Rightarrow> apply_ops ops r')"

text \<open>Only \<^const>\<open>MarkRunning\<close> makes a run running.\<close>

lemma not_running:
  "NewJobRun U now i t j n due = Inr r \<Longrightarrow> run_status r \<noteq> StatusRunning"
  "MarkQueued now r0 = Inr r \<Longrightarrow> run_status r \<noteq> StatusRunning"
  "MarkPending now r0 = Inr r \<Longrightarrow> run_status r \<noteq> StatusRunning"
  "MarkSuccess now r0 = Inr r \<Longrightarrow> run_status r \<noteq> StatusRunning"
  "MarkRetry now r0 = Inr r \<Longrightarrow> run_status r \<noteq> StatusRunning"
  "MarkFailed now r0 = Inr r \<Longrightarrow> run_status r \<noteq> StatusRunning"
  by (auto simp: NewJobRun_def MarkQueued_def MarkPending_def MarkSuccess_def MarkRetry_def MarkFailed_def
      split: if_splits)

lemmas transition_defs =
  MarkQueued_def MarkPending_def MarkRunning_def MarkSuccess_def MarkRetry_def MarkFailed_def
  Cancel_run_def IsTerminal_def isTerminalStatus_def

lemma IsTerminal_status: "IsTerminal r \<longleftrightarrow> isTerminalStatus (run_status r)"
  by (simp add: IsTerminal_def isTerminalStatus_def)

lemma apply_op_lifecycle: "apply_op op now r = Inr r' \<Longrightarrow> lifecycle (run_status r) (run_status r')"
  by (cases op) (auto simp: transition_defs lifecycle.cancel [unfolded isTerminalStatus_def]
      intro: lifecycle.intros split: if_splits)

lemma apply_op_error: "apply_op op now r = Inl e \<Longrightarrow> e = ErrInvalidStatusTransition"
  by (cases op) (auto simp: transition_defs split: if_splits)

lemma apply_op_terminal: "IsTerminal r \<Longrightarrow> apply_op op now r = Inl ErrInvalidStatusTransition"
  by (cases op) (auto simp: transition_defs)

definition run_identity :: "JobRun \<Rightarrow> JobRunID \<times> TenantID \<times> JobID \<times> int \<times> time \<times> int \<times> string" where
  "run_identity r = (run_id r, run_tenantID r, run_jobID r, run_sequence r, run_scheduledAt r,
     run_timeBucket r, run_idempotencyKey r)"

lemma apply_op_identity: "apply_op op now r = Inr r' \<Longrightarrow> run_identity r' = run_identity r"
  by (cases op) (auto simp: transition_defs run_identity_def split: if_splits)

text \<open>
  What a history of calls leaves in the timestamps: a running or finished execution has a start
  time from the history, a finished run ends with the call that finished it.
\<close>

definition times_ok :: "time set \<Rightarrow> JobRun \<Rightarrow> bool" where
  "times_ok T r \<longleftrightarrow>
     (run_status r \<in> {StatusRunning, StatusSuccess, StatusRetry, StatusFailed} \<longrightarrow> run_startedAt r \<in> T) \<and>
     (run_status r \<in> {StatusSuccess, StatusCancelled} \<longrightarrow> run_completedAt r \<in> T) \<and>
     (run_status r \<in> {StatusRetry, StatusFailed} \<longrightarrow> run_failedAt r \<in> T)"

lemma times_ok_mono: "times_ok T r \<Longrightarrow> T \<subseteq> T' \<Longrightarrow> times_ok T' r"
  by (auto simp: times_ok_def)

lemma apply_op_times: "times_ok T r \<Longrightarrow> apply_op op now r = Inr r' \<Longrightarrow> times_ok (insert now T) r'"
  by (cases op; cases "run_status r"; clarsimp simp: transition_defs times_ok_def)

lemma apply_op_attempts:
  "apply_op op now r = Inr r' \<Longrightarrow>
   run_attempts r' = (if op = OpRetry then wrap64 (run_attempts r + 1) else run_attempts r)"
  by (cases op) (auto simp: transition_defs split: if_splits)

lemma apply_ops_history:
  assumes "apply_ops ops r = Inr r'" "times_ok T r" "0 \<le> run_attempts r"
    and "run_attempts r + int (length ops) < 2 ^ 63"
  shows "times_ok (T \<union> snd ` set ops) r' \<and> run_identity r' = run_identity r \<and>
    run_attempts r' = run_attempts r + int (length (filter (\<lambda>p. fst p = OpRetry) ops))"
  using assms
proof (induction ops arbitrary: r T)
  case (Cons p ops)
  obtain op now where p: "p = (op, now)" by fastforce
  obtain r1 where r1: "apply_op op now r = Inr r1" "apply_ops ops r1 = Inr r'"
    using Cons.prems(1) p by (auto split: sum.splits)
  have w: "wrap64 (run_attempts r + 1) = run_attempts r + 1"
    using Cons.prems(3,4) by (intro wrap64_id) (simp add: in_int64_def)
  then have a: "run_attempts r1 = run_attempts r + (if op = OpRetry then 1 else 0)"
    using apply_op_attempts [OF r1(1)] by simp
  have "times_ok (insert now T \<union> snd ` set ops) r' \<and> run_identity r' = run_identity r1 \<and>
    run_attempts r' = run_attempts r1 + int (length (filter (\<lambda>p. fst p = OpRetry) ops))"
    using Cons.prems a by (intro Cons.IH [OF r1(2) apply_op_times [OF _ r1(1)]]) (auto split: if_splits)
  then show ?case
    using a p apply_op_identity [OF r1(1)] by (auto simp: Un_commute)
qed simp

section \<open>New jobs and runs\<close>

lemma NewJobRun_ok:
  assumes "NewJobRun U now i t j s due = Inr r"
  shows "run_id r = i" "run_tenantID r = t" "run_jobID r = j" "run_sequence r = s" "1 \<le> s"
    "run_status r = StatusPending" "run_scheduledAt r = due" "run_timeBucket r = bucketOf due"
    "run_attempts r = 0" "run_idempotencyKey r = idempotency_key U j s" "\<not> IsZero due"
    "\<not> id_IsZero t" "\<not> id_IsZero j" "run_createdAt r = now" "run_updatedAt r = now"
    "run_startedAt r = zero_time" "run_completedAt r = zero_time" "run_failedAt r = zero_time"
    "run_errorCode r = ''''" "run_errorMsg r = ''''"
  using assms by (auto simp: NewJobRun_def split: if_splits)

lemma bucketOf_hours: "bucketOf t = Unix t div 3600 * 3600"
proof -
  have "t div Hour_ns = Unix t div 3600"
    by (simp add: Hour_ns_def Unix_def div_mult2_eq [symmetric] mult.commute Second_def)
  then have "Truncate t Hour_ns = (Unix t div 3600 * 3600) * Second"
    unfolding Truncate_hour by (simp add: Hour_ns_def)
  then show ?thesis by (simp add: bucketOf_def)
qed

lemma bucketOf_bounds: "bucketOf t \<le> Unix t \<and> Unix t < bucketOf t + 3600 \<and> bucketOf t mod 3600 = 0"
  unfolding bucketOf_hours
  using div_mult_mod_eq [of "Unix t" 3600] pos_mod_bound [of 3600 "Unix t"] pos_mod_sign [of 3600 "Unix t"]
  by auto

lemma append_sep_eq:
  "c \<notin> set u \<Longrightarrow> c \<notin> set v \<Longrightarrow> xs @ c # u = ys @ c # v \<longleftrightarrow> xs = ys \<and> u = v"
proof -
  assume c: "c \<notin> set u" "c \<notin> set v"
  have "takeWhile (\<lambda>x. x \<noteq> c) (rev w @ c # rev z) = rev w" if "c \<notin> set w" for w z :: "'a list"
    using that by (subst takeWhile_append2) auto
  moreover have "rev (xs @ c # u) = rev u @ c # rev xs" "rev (ys @ c # v) = rev v @ c # rev ys"
    by simp_all
  ultimately have "xs @ c # u = ys @ c # v \<Longrightarrow> u = v" using c by (metis rev_rev_ident)
  then show ?thesis by auto
qed

lemma colon_not_in_Itoa: "CHR '':'' \<notin> set (Itoa n)"
  using Itoa_digits [of "CHR '':''" n] by (auto simp: is_digit_def byte_def)

lemma idempotency_key_eq_iff:
  "uuid_ok U \<Longrightarrow> idempotency_key U i s = idempotency_key U j t \<longleftrightarrow> i = j \<and> s = t"
  unfolding idempotency_key_def
  using append_sep_eq [OF colon_not_in_Itoa colon_not_in_Itoa, of "uuid_String U i" s "uuid_String U j" t]
  by (auto dest: uuid_String_inj Itoa_inj)

definition job_ok :: "tz_database \<Rightarrow> Job \<Rightarrow> bool" where
  "job_ok db j \<longleftrightarrow>
     \<not> id_IsZero (job_tenantID j) \<and> \<not> id_IsZero (job_userID j) \<and>
     TrimSpace (job_description j) \<noteq> '''' \<and>
     job_kind j = job_scheduleType j \<and> job_kind j \<in> {KindOneOff, KindRecurring} \<and>
     job_jobType j = JobTypeGenericLLM \<and> job_idempotencyScope j \<noteq> '''' \<and>
     LoadLocation db (job_timezoneID j) \<noteq> None \<and>
     (job_kind j = KindRecurring \<longrightarrow>
        (\<exists>rule hm. ParseRule (job_recurrenceRule j) = Inr rule \<and> parseLocalTime (job_localTime j) = Inr hm)) \<and>
     (if job_parentJobID j = None then job_triggerOnParentStatus j = StatusOther ''''
      else isTerminalStatus (job_triggerOnParentStatus j))"

lemma NewJob_ok: "NewJob db now i t u d sched = Inr j \<Longrightarrow> job_ok db j"
  by (auto simp: NewJob_def Let_def job_ok_def or_default_def [of _ "ss_IdempotencyScope sched"]
      split: if_splits sum.splits)

lemma NewJob_fields:
  assumes "NewJob db now i t u d sched = Inr j"
  shows "job_id j = i" "job_tenantID j = t" "job_userID j = u" "job_description j = d"
    "job_kind j = ss_Type sched" "job_parentJobID j = ss_ParentJobID sched"
    "job_interval j = ss_LegacyInterval sched" "job_createdAt j = now"
  using assms by (auto simp: NewJob_def Let_def split: if_splits sum.splits)

lemma NextOccurrence_total:
  assumes "ParseRule s = Inr rule" "parseLocalTime lt = Inr hm"
  shows "\<exists>t note. NextOccurrence rule lt (Some tz) after = Inr (t, note)"
  using ParseRule_valid [OF assms(1)] assms(2)
  by (cases hm) (auto simp: NextOccurrence_def valid_rule_def Let_def)

text \<open>A zone database without entries, and a weekly schedule in UTC, for the examples.\<close>

definition utc_zones :: tz_database where
  "utc_zones = \<lparr>tz_local = UTC, tz_zones = (\<lambda>_. None)\<rparr>"

definition weekly_report :: ScheduleSpec where
  "weekly_report = \<lparr>ss_Type = KindRecurring, ss_ScheduledAtUTC = zero_time,
     ss_RecurrenceRule = ''freq=weekly'', ss_LocalTime = ''08:30'', ss_TimezoneID = '''',
     ss_OriginalUserText = '''', ss_LegacyInterval = 0, ss_SideEffecting = False,
     ss_IdempotencyScope = '''', ss_ParentJobID = None, ss_TriggerOnParentStatus = StatusOther '''',
     ss_JobType = JobTypeOther ''''\<rparr>"

section \<open>Properties\<close>

text \<open>
  C3 (refinement): the transition methods of a run implement exactly the status machine
  \<^const>\<open>lifecycle\<close>: for a run in status s some method brings it to status t if and only if
  the machine has the edge from s to t; whatever a method refuses, it refuses with
  \<^verbatim>\<open>ErrInvalidStatusTransition\<close>, and a method that succeeds keeps the identity, schedule
  and idempotency key of the run and counts an attempt only for a retry.
\<close>

theorem transitions_implement_lifecycle:
  "(lifecycle (run_status r) t \<longleftrightarrow> (\<exists>op r'. apply_op op now r = Inr r' \<and> run_status r' = t)) \<and>
   (case apply_op op now r of
      Inl e \<Rightarrow> e = ErrInvalidStatusTransition
    | Inr r' \<Rightarrow> run_identity r' = run_identity r \<and>
        run_attempts r' = (if op = OpRetry then wrap64 (run_attempts r + 1) else run_attempts r))"
proof
  have "\<exists>op r'. apply_op op now r = Inr r' \<and> run_status r' = t" if "lifecycle (run_status r) t"
    using that
  proof cases
    case dispatch then show ?thesis by (intro exI [of _ OpQueued]) (simp add: transition_defs)
  next
    case redispatch then show ?thesis by (intro exI [of _ OpQueued]) (simp add: transition_defs)
  next
    case revert then show ?thesis by (intro exI [of _ OpPending]) (simp add: transition_defs)
  next
    case start then show ?thesis by (intro exI [of _ OpRunning]) (simp add: transition_defs)
  next
    case restart then show ?thesis by (intro exI [of _ OpRunning]) (simp add: transition_defs)
  next
    case succeed then show ?thesis by (intro exI [of _ OpSuccess]) (simp add: transition_defs)
  next
    case try_again then show ?thesis by (intro exI [of _ OpRetry]) (simp add: transition_defs)
  next
    case fail then show ?thesis by (intro exI [of _ OpFailed]) (simp add: transition_defs)
  next
    case give_up then show ?thesis by (intro exI [of _ OpFailed]) (simp add: transition_defs)
  next
    case cancel then show ?thesis by (intro exI [of _ OpCancel]) (simp add: transition_defs)
  qed
  then show "lifecycle (run_status r) t \<longleftrightarrow> (\<exists>op r'. apply_op op now r = Inr r' \<and> run_status r' = t)"
    using apply_op_lifecycle by blast
  show "case apply_op op now r of
      Inl e \<Rightarrow> e = ErrInvalidStatusTransition
    | Inr r' \<Rightarrow> run_identity r' = run_identity r \<and>
        run_attempts r' = (if op = OpRetry then wrap64 (run_attempts r + 1) else run_attempts r)"
    using apply_op_error [of op now r] apply_op_identity [of op now r] apply_op_attempts [of op now r]
    by (simp split: sum.split)
qed

text \<open>
  C17 (invariant): along every sequence of accepted transitions of a new run, the run keeps its
  identity, its attempt counter is the number of retries, and its timestamps come from the
  calls: an execution that is running or over has a start time, a finished run its end time.
  Once the run is terminal no further transition is accepted.
\<close>

theorem run_history:
  assumes "NewJobRun U now0 i t j s due = Inr r0" "apply_ops ops r0 = Inr r"
    and "int (length ops) < 2 ^ 63"
  shows "run_identity r = run_identity r0 \<and>
    run_attempts r = int (length (filter (\<lambda>p. fst p = OpRetry) ops)) \<and>
    times_ok (snd ` set ops) r \<and>
    (IsTerminal r \<longrightarrow> apply_op op now r = Inl ErrInvalidStatusTransition)"
  using apply_ops_history [OF assms(2), of "{}"] NewJobRun_ok [OF assms(1)] assms(3) apply_op_terminal
  by (simp add: times_ok_def [of "{}"])

theorem run_history_witness:
  "\<exists>r0 r. NewJobRun canonical_uuid 10 7 1 2 1 100 = Inr r0 \<and>
     apply_ops [(OpQueued, 11), (OpRunning, 12), (OpRetry, 13), (OpRunning, 14), (OpSuccess, 15)] r0 = Inr r \<and>
     run_identity r = run_identity r0 \<and> run_attempts r = 1 \<and> times_ok {11, 12, 13, 14, 15} r \<and>
     (IsTerminal r \<longrightarrow> apply_op OpCancel 16 r = Inl ErrInvalidStatusTransition)"
proof -
  let ?ops = "[(OpQueued, 11), (OpRunning, 12), (OpRetry, 13), (OpRunning, 14), (OpSuccess, 15)]"
  obtain r0 where r0: "NewJobRun canonical_uuid 10 7 1 2 1 100 = Inr r0"
    by (simp add: NewJobRun_def id_IsZero_def IsZero_def time_defs)
  then obtain r where r: "apply_ops ?ops r0 = Inr r"
    using NewJobRun_ok(6) [OF r0] by (simp add: transition_defs)
  have "snd ` set ?ops = {11, 12, 13, 14, 15}" by auto
  with run_history [OF r0 r, of OpCancel 16] r0 r show ?thesis by auto
qed

text \<open>
  The idempotency key that \<^verbatim>\<open>NewJobRun\<close> derives identifies the run
  within the system: two keys are equal only for the same job and the same sequence number.
\<close>

theorem idempotency_key_injective:
  assumes "uuid_ok U" "NewJobRun U now i t j s due = Inr r" "NewJobRun U now' i' t' j' s' due' = Inr r'"
  shows "run_idempotencyKey r = run_idempotencyKey r' \<longleftrightarrow> run_jobID r = run_jobID r' \<and> run_sequence r = run_sequence r'"
  using idempotency_key_eq_iff [OF assms(1)] NewJobRun_ok [OF assms(2)] NewJobRun_ok [OF assms(3)]
  by simp

theorem idempotency_key_injective_witness:
  "\<exists>r r'. NewJobRun canonical_uuid 10 7 1 2 1 100 = Inr r \<and> NewJobRun canonical_uuid 20 8 1 2 11 200 = Inr r' \<and>
     (run_idempotencyKey r = run_idempotencyKey r' \<longleftrightarrow>
        run_jobID r = run_jobID r' \<and> run_sequence r = run_sequence r')"
proof -
  obtain r where r: "NewJobRun canonical_uuid 10 7 1 2 1 100 = Inr r"
    by (simp add: NewJobRun_def id_IsZero_def IsZero_def time_defs)
  obtain r' where r': "NewJobRun canonical_uuid 20 8 1 2 11 200 = Inr r'"
    by (simp add: NewJobRun_def id_IsZero_def IsZero_def time_defs)
  from idempotency_key_injective [OF canonical_uuid_ok r r'] r r' show ?thesis
    by (intro exI conjI)
qed

text \<open>
  A new run is filed under the hour its scheduled time lies in: the bucket is a
  multiple of 3600 seconds, not after the scheduled second and less than an hour before it.
\<close>

theorem NewJobRun_bucket:
  assumes "NewJobRun U now i t j s due = Inr r"
  shows "run_timeBucket r mod 3600 = 0 \<and> run_timeBucket r \<le> Unix (run_scheduledAt r) \<and>
    Unix (run_scheduledAt r) < run_timeBucket r + 3600 \<and> run_status r = StatusPending \<and>
    run_attempts r = 0 \<and> 1 \<le> run_sequence r"
  using NewJobRun_ok [OF assms] bucketOf_bounds [of due] by simp

theorem NewJobRun_bucket_witness:
  "\<exists>r. NewJobRun canonical_uuid 10 7 1 2 1 (5400 * Second) = Inr r \<and>
     run_timeBucket r mod 3600 = 0 \<and> run_timeBucket r \<le> Unix (run_scheduledAt r) \<and>
     Unix (run_scheduledAt r) < run_timeBucket r + 3600 \<and> run_status r = StatusPending \<and>
     run_attempts r = 0 \<and> 1 \<le> run_sequence r"
proof -
  obtain r where r: "NewJobRun canonical_uuid 10 7 1 2 1 (5400 * Second) = Inr r"
    by (simp add: NewJobRun_def id_IsZero_def IsZero_def time_defs)
  from conjI [OF r NewJobRun_bucket [OF r]] show ?thesis by (rule exI)
qed

text \<open>
  C24 (safety): a job that \<^verbatim>\<open>NewJob\<close> accepts is well formed, and if it is recurring its
  stored rule, local time and zone can be evaluated again for every later instant: the recurring
  watcher never has to skip an accepted job because of its own schedule.
\<close>

theorem NewJob_recurrence_defined:
  assumes "NewJob db now i t u d sched = Inr j"
  shows "job_ok db j \<and>
    (job_kind j = KindRecurring \<longrightarrow>
       (\<exists>rule tz. ParseRule (job_recurrenceRule j) = Inr rule \<and> LoadLocation db (job_timezoneID j) = Some tz \<and>
          (\<forall>after. \<exists>next note. NextOccurrence rule (job_localTime j) (Some tz) after = Inr (next, note))))"
proof
  show ok: "job_ok db j" by (rule NewJob_ok [OF assms])
  show "job_kind j = KindRecurring \<longrightarrow>
       (\<exists>rule tz. ParseRule (job_recurrenceRule j) = Inr rule \<and> LoadLocation db (job_timezoneID j) = Some tz \<and>
          (\<forall>after. \<exists>next note. NextOccurrence rule (job_localTime j) (Some tz) after = Inr (next, note)))"
  proof
    assume "job_kind j = KindRecurring"
    then obtain rule hm tz where "ParseRule (job_recurrenceRule j) = Inr rule"
      "parseLocalTime (job_localTime j) = Inr hm" "LoadLocation db (job_timezoneID j) = Some tz"
      using ok unfolding job_ok_def by blast
    with NextOccurrence_total show "\<exists>rule tz. ParseRule (job_recurrenceRule j) = Inr rule \<and>
        LoadLocation db (job_timezoneID j) = Some tz \<and>
        (\<forall>after. \<exists>next note. NextOccurrence rule (job_localTime j) (Some tz) after = Inr (next, note))"
      by blast
  qed
qed

theorem NewJob_recurrence_defined_witness:
  "\<exists>j. NewJob utc_zones 5 7 1 2 ''report'' weekly_report = Inr j \<and> job_ok utc_zones j \<and>
    (job_kind j = KindRecurring \<longrightarrow>
       (\<exists>rule tz. ParseRule (job_recurrenceRule j) = Inr rule \<and> LoadLocation utc_zones (job_timezoneID j) = Some tz \<and>
          (\<forall>after. \<exists>next note. NextOccurrence rule (job_localTime j) (Some tz) after = Inr (next, note))))"
proof -
  have "ParseRule ''freq=weekly'' = Inr \<lparr>Freq = ''WEEKLY'', Interval = 1\<rparr>" by code_simp
  moreover have "parseLocalTime ''08:30'' = Inr (8, 30)" by code_simp
  moreover have "TrimSpace ''report'' \<noteq> ''''" by code_simp
  ultimately obtain j where j: "NewJob utc_zones 5 7 1 2 ''report'' weekly_report = Inr j"
    by (simp add: NewJob_def weekly_report_def Let_def or_default_def id_IsZero_def LoadLocation_def)
  from conjI [OF j NewJob_recurrence_defined [OF j]] show ?thesis by (rule exI)
qed

end
