(* ===== verification/World.thy ===== *)
theory World
  imports TaskDomain
begin

text \<open>
  What the components share: the database, the Redis server, the metrics, and the calls that
  leave the process. The database is the tables of \<^verbatim>\<open>migrations/\<close> with their rows; the
  Redis server is a state of any type \<^typ>\<open>'r\<close> changed only through the five stream commands
  of the parameter \<open>redis_api\<close>. Every call that leaves the process takes the next tick of
  \<open>w_tick\<close>, and the environment says by tick what \<^verbatim>\<open>time.Now\<close> and
  \<^verbatim>\<open>uuid.NewV7\<close> return and whether a database call fails: before its effect
  (\<open>Undone\<close>) or, with the reply lost, after it (\<open>Lost\<close>). A deadline of a context that
  passes shows as such a failure. Log lines are left out.
\<close>

section \<open>Rows\<close>

record JobRow =
  jr_id :: JobID
  jr_tenant_id :: TenantID
  jr_user_id :: UserID
  jr_kind :: Kind
  jr_description :: string
  jr_interval_seconds :: int
  jr_schedule_type :: Kind
  jr_scheduled_at_utc :: "time option"
  jr_recurrence_rule :: "string option"
  jr_local_time :: "string option"
  jr_timezone_id :: string
  jr_original_user_text :: "string option"
  jr_side_effecting :: bool
  jr_idempotency_scope :: string
  jr_parent_job_id :: "JobID option"
  jr_trigger_on_parent_status :: "Status option"
  jr_job_type :: JobType
  jr_created_at :: time
  jr_updated_at :: time

record RunRow =
  rr_id :: JobRunID
  rr_tenant_id :: TenantID
  rr_job_id :: JobID
  rr_sequence :: int
  rr_status :: Status
  rr_scheduled_at :: time
  rr_time_bucket :: int
  rr_attempts :: int
  rr_idempotency_key :: string
  rr_error_code :: "string option"
  rr_error_message :: "string option"
  rr_started_at :: "time option"
  rr_completed_at :: "time option"
  rr_failed_at :: "time option"
  rr_created_at :: time
  rr_updated_at :: time

record EventRow =
  er_id :: RunEventID
  er_tenant_id :: TenantID
  er_job_id :: JobID
  er_job_run_id :: JobRunID
  er_status :: Status
  er_event_type :: EventType
  er_event_payload :: "json option"
  er_created_at :: time

record QuotaRow =
  qr_tenant_id :: TenantID
  qr_max_jobs_per_hour :: int
  qr_max_active_recurring_jobs :: int
  qr_max_concurrent_runs :: int
  qr_max_daily_llm_cost_cents :: int

record CostRow =
  cr_tenant_id :: TenantID
  cr_cost_date :: string
  cr_cost_cents :: int

record IdempotencyRow =
  ir_idempotency_key :: string
  ir_job_run_id :: JobRunID
  ir_handler_name :: string
  ir_status :: string
  ir_response_hash :: "string option"
  ir_created_at :: time
  ir_updated_at :: time

record UserRow =
  ur_id :: UserID
  ur_email :: string
  ur_password_hash :: string
  ur_display_name :: string
  ur_created_at :: time
  ur_updated_at :: time

record database =
  d_jobs :: "JobRow list"
  d_runs :: "RunRow list"
  d_events :: "EventRow list"
  d_quotas :: "QuotaRow list"
  d_costs :: "CostRow list"
  d_idempotency :: "IdempotencyRow list"
  d_users :: "UserRow list"

section \<open>The environment\<close>

text \<open>The value of a stream entry's field: a string, bytes, or a value of another type.\<close>

datatype redis_value = RString string | RBytes string | ROther string

datatype fault = NoFault | Undone error | Lost error

text \<open>A stream entry: its identifier and its \<^verbatim>\<open>data\<close> field.\<close>

type_synonym xmessage = "string \<times> redis_value"

text \<open>
  The Redis commands of \<^verbatim>\<open>queue_redis.go\<close>; the tick stands for everything the reply
  may depend on besides the server's state. A \<^verbatim>\<open>redis.Nil\<close> reply is \<^term>\<open>None\<close>.
\<close>

record 'r redis_api =
  r_XAdd :: "nat \<Rightarrow> string \<Rightarrow> string \<Rightarrow> 'r \<Rightarrow> unit result \<times> 'r"
  r_XGroupCreateMkStream :: "nat \<Rightarrow> string \<Rightarrow> string \<Rightarrow> 'r \<Rightarrow> unit result \<times> 'r"
  r_XReadGroup :: "nat \<Rightarrow> string \<Rightarrow> string \<Rightarrow> string \<Rightarrow> int \<Rightarrow> duration \<Rightarrow> 'r \<Rightarrow>
    (string \<times> xmessage list) list option result \<times> 'r"
  r_XAutoClaim :: "nat \<Rightarrow> string \<Rightarrow> string \<Rightarrow> string \<Rightarrow> duration \<Rightarrow> int \<Rightarrow> 'r \<Rightarrow>
    xmessage list option result \<times> 'r"
  r_XAck :: "nat \<Rightarrow> string \<Rightarrow> string \<Rightarrow> string \<Rightarrow> 'r \<Rightarrow> unit result \<times> 'r"

text \<open>The message of a queue entry and its JSON codec (\<^verbatim>\<open>encoding/json\<close>).\<close>

record JobRunMsg =
  msg_JobRunID :: string
  msg_TenantID :: string
  msg_IdempotencyKey :: string
  msg_Attempts :: int

record msg_codec =
  msg_Marshal :: "JobRunMsg \<Rightarrow> string"
  msg_Unmarshal :: "string \<Rightarrow> JobRunMsg option"

text \<open>
  \<open>e_llm\<close> is what the model client answers at a tick under a timeout, and whether the
  deadline of the call's context had passed when it did; \<open>e_ctx_err\<close> is
  \<^verbatim>\<open>ctx.Err()\<close>; \<open>e_sha256_hex\<close> is the hex text of the SHA-256 sum.
\<close>

record 'r env =
  e_now :: "nat \<Rightarrow> time"
  e_NewV7 :: "nat \<Rightarrow> uuid"
  e_fault :: "nat \<Rightarrow> fault"
  e_tz :: tz_database
  e_uuid :: uuid_pkg
  e_json :: json_pkg
  e_msg :: msg_codec
  e_redis :: "'r redis_api"
  e_llm :: "nat \<Rightarrow> duration \<Rightarrow> LLMRequest \<Rightarrow> LLMResponse result \<times> bool"
  e_ctx_err :: "nat \<Rightarrow> error option"
  e_sha256_hex :: "string \<Rightarrow> string"
  e_quota_defaults :: Quota

datatype metric = MRuns Status | MDuration duration | MDLQ | MQuotaRejection string
  | MRunDeferred string | MLLMLatency duration | MLLMTimeout | MLLMValidationFailure
  | MLLMCostCents int

record 'r world =
  w_db :: database
  w_redis :: 'r
  w_metrics :: "metric list"
  w_tick :: nat

type_synonym ('r, 'a) app = "('r world, 'a) state"

section \<open>Calls that leave the process\<close>

definition tick :: "('r, nat) app" where
  "tick = do {
     w \<leftarrow> State_Monad.get;
     State_Monad.set (w\<lparr>w_tick := Suc (w_tick w)\<rparr>);
     State_Monad.return (w_tick w)
   }"

definition time_Now :: "'r env \<Rightarrow> ('r, time) app" where
  "time_Now E = do { n \<leftarrow> tick; State_Monad.return (e_now E n) }"

definition uuid_NewV7 :: "'r env \<Rightarrow> ('r, uuid) app" where
  "uuid_NewV7 E = do { n \<leftarrow> tick; State_Monad.return (e_NewV7 E n) }"

definition put_db :: "database \<Rightarrow> ('r, unit) app" where
  "put_db d = do { w \<leftarrow> State_Monad.get; State_Monad.set (w\<lparr>w_db := d\<rparr>) }"

definition get_db :: "('r, database) app" where
  "get_db = do { w \<leftarrow> State_Monad.get; State_Monad.return (w_db w) }"

definition observe :: "metric \<Rightarrow> ('r, unit) app" where
  "observe x = do {
     w \<leftarrow> State_Monad.get;
     State_Monad.set (w\<lparr>w_metrics := w_metrics w @ [x]\<rparr>)
   }"

text \<open>
  A statement is a function on the database; \<open>db_exec\<close> runs one outside a transaction, where
  it commits by itself, \<open>tx_exec\<close> inside one.
\<close>

type_synonym 'a statement = "database \<Rightarrow> 'a result \<times> database"

definition db_exec :: "'r env \<Rightarrow> 'a statement \<Rightarrow> ('r, 'a result) app" where
  "db_exec E f = do {
     n \<leftarrow> tick;
     d \<leftarrow> get_db;
     case e_fault E n of
       NoFault \<Rightarrow> do { put_db (snd (f d)); State_Monad.return (fst (f d)) }
     | Undone e \<Rightarrow> State_Monad.return (Inl e)
     | Lost e \<Rightarrow> do { put_db (snd (f d)); State_Monad.return (Inl e) }
   }"

datatype 'a tx_end = TxCommit 'a | TxReturn 'a

text \<open>
  \<^verbatim>\<open>pool.Begin\<close>, the body, \<^verbatim>\<open>tx.Commit\<close>, with \<^verbatim>\<open>tx.Rollback\<close>
  deferred: a body that returns without committing leaves the database as it was at
  \<^verbatim>\<open>Begin\<close>.
\<close>

definition db_transaction ::
  "'r env \<Rightarrow> string \<Rightarrow> string \<Rightarrow> ('r, 'a tx_end result) app \<Rightarrow> ('r, 'a result) app" where
  "db_transaction E begin_msg commit_msg body = do {
     n \<leftarrow> tick;
     case e_fault E n of
       Undone e \<Rightarrow> State_Monad.return (Inl (Errorf begin_msg e))
     | Lost e \<Rightarrow> State_Monad.return (Inl (Errorf begin_msg e))
     | NoFault \<Rightarrow> do {
         d0 \<leftarrow> get_db;
         r \<leftarrow> body;
         case r of
           Inl e \<Rightarrow> do { put_db d0; State_Monad.return (Inl e) }
         | Inr (TxReturn v) \<Rightarrow> do { put_db d0; State_Monad.return (Inr v) }
         | Inr (TxCommit v) \<Rightarrow> do {
             n \<leftarrow> tick;
             case e_fault E n of
               NoFault \<Rightarrow> State_Monad.return (Inr v)
             | Undone e \<Rightarrow> do { put_db d0; State_Monad.return (Inl (Errorf commit_msg e)) }
             | Lost e \<Rightarrow> State_Monad.return (Inl (Errorf commit_msg e))
           }
       }
   }"

definition redis_call :: "('r \<Rightarrow> nat \<Rightarrow> 'a \<times> 'r) \<Rightarrow> ('r, 'a) app" where
  "redis_call f = do {
     n \<leftarrow> tick;
     w \<leftarrow> State_Monad.get;
     State_Monad.set (w\<lparr>w_redis := snd (f (w_redis w) n)\<rparr>);
     State_Monad.return (fst (f (w_redis w) n))
   }"

section \<open>Reasoning about the database\<close>

text \<open>
  A preorder on databases that every statement of a program respects is respected by the whole
  program: the other calls leave the database alone, and a transaction that does not commit
  restores it.
\<close>

definition on_db :: "(database \<Rightarrow> database \<Rightarrow> bool) \<Rightarrow> 'r world \<Rightarrow> 'r world \<Rightarrow> bool" where
  "on_db R w w' \<longleftrightarrow> R (w_db w) (w_db w')"

lemma run_tick: "run_state tick w = (w_tick w, w\<lparr>w_tick := Suc (w_tick w)\<rparr>)"
  by (simp add: tick_def)

lemma run_put_db: "run_state (put_db d) w = ((), w\<lparr>w_db := d\<rparr>)"
  by (simp add: put_db_def)

lemma run_get_db: "run_state get_db w = (w_db w, w)"
  by (simp add: get_db_def)

lemma run_observe: "run_state (observe x) w = ((), w\<lparr>w_metrics := w_metrics w @ [x]\<rparr>)"
  by (simp add: observe_def)

lemma run_time_Now: "run_state (time_Now E) w = (e_now E (w_tick w), w\<lparr>w_tick := Suc (w_tick w)\<rparr>)"
  by (simp add: time_Now_def run_tick)

lemma run_uuid_NewV7: "run_state (uuid_NewV7 E) w = (e_NewV7 E (w_tick w), w\<lparr>w_tick := Suc (w_tick w)\<rparr>)"
  by (simp add: uuid_NewV7_def run_tick)

lemma run_db_exec:
  "run_state (db_exec E f) w =
     (case e_fault E (w_tick w) of
        NoFault \<Rightarrow> (fst (f (w_db w)), w\<lparr>w_tick := Suc (w_tick w), w_db := snd (f (w_db w))\<rparr>)
      | Undone e \<Rightarrow> (Inl e, w\<lparr>w_tick := Suc (w_tick w)\<rparr>)
      | Lost e \<Rightarrow> (Inl e, w\<lparr>w_tick := Suc (w_tick w), w_db := snd (f (w_db w))\<rparr>))"
  by (simp add: db_exec_def run_tick run_get_db run_put_db split: fault.split)

lemma run_redis_call:
  "run_state (redis_call f) w =
     (fst (f (w_redis w) (w_tick w)),
      w\<lparr>w_tick := Suc (w_tick w), w_redis := snd (f (w_redis w) (w_tick w))\<rparr>)"
  by (simp add: redis_call_def run_tick)

lemmas run_prims =
  run_tick run_put_db run_get_db run_observe run_time_Now run_uuid_NewV7 run_db_exec run_redis_call

locale db_evolution =
  fixes R :: "database \<Rightarrow> database \<Rightarrow> bool"
  assumes db_refl: "R d d"
    and db_trans: "R d d' \<Longrightarrow> R d' d'' \<Longrightarrow> R d d''"
begin

sublocale world: evolution "on_db R"
  by unfold_locales (auto simp: on_db_def intro: db_refl db_trans)

lemma io_same_db:
  "(\<And>w. w_db (snd (run_state m w)) = w_db w) \<Longrightarrow> state_io_rel (on_db R) m"
  by (simp add: state_io_rel_def on_db_def db_refl)

lemma io_tick: "state_io_rel (on_db R) tick"
  and io_time_Now: "state_io_rel (on_db R) (time_Now E)"
  and io_uuid_NewV7: "state_io_rel (on_db R) (uuid_NewV7 E)"
  and io_observe: "state_io_rel (on_db R) (observe x)"
  and io_redis_call: "state_io_rel (on_db R) (redis_call f)"
  by (simp_all add: io_same_db run_prims)

lemma io_db_exec: "(\<And>d. R d (snd (f d))) \<Longrightarrow> state_io_rel (on_db R) (db_exec E f)"
  by (auto simp: state_io_rel_def on_db_def run_db_exec db_refl split: fault.split)

lemma io_db_transaction:
  assumes "state_io_rel (on_db R) body"
  shows "state_io_rel (on_db R) (db_transaction E b c body)"
proof -
  have body: "R (w_db w) (w_db (snd (run_state body w)))" for w
    using assms by (simp add: state_io_rel_def on_db_def)
  show ?thesis
    unfolding state_io_rel_def on_db_def
  proof
    fix w
    show "R (w_db w) (w_db (snd (run_state (db_transaction E b c body) w)))"
      using body [of "w\<lparr>w_tick := Suc (w_tick w)\<rparr>"]
      by (auto simp: db_transaction_def run_prims db_refl
          split: fault.split sum.split tx_end.split prod.split)
  qed
qed

lemmas db_intros =
  io_tick io_time_Now io_uuid_NewV7 io_observe io_redis_call io_db_exec io_db_transaction
  world.io_intros

end

text \<open>The strictest relation: what only reads leaves the database as it was.\<close>

interpretation untouched: db_evolution "(=)"
  by unfold_locales auto

lemma untouched_run: "state_io_rel (on_db (=)) m \<Longrightarrow> run_state m w = (r, w') \<Longrightarrow> w_db w' = w_db w"
  unfolding state_io_rel_def on_db_def by (metis snd_conv)

text \<open>Assertions about the database only.\<close>

definition dbp :: "(database \<Rightarrow> bool) \<Rightarrow> 'r world \<Rightarrow> bool" where
  "dbp P w \<longleftrightarrow> P (w_db w)"

lemma triple_same_db:
  "(\<And>w. w_db (snd (run_state m w)) = w_db w) \<Longrightarrow> triple (dbp P) m (\<lambda>_. dbp P)"
  by (simp add: triple_def dbp_def)

lemma triple_prims [wp_rules]:
  "triple (dbp P) tick (\<lambda>_. dbp P)"
  "triple (dbp P) (time_Now E) (\<lambda>_. dbp P)"
  "triple (dbp P) (uuid_NewV7 E) (\<lambda>_. dbp P)"
  "triple (dbp P) (observe x) (\<lambda>_. dbp P)"
  "triple (dbp P) (redis_call f) (\<lambda>_. dbp P)"
  by (rule triple_same_db, simp add: run_prims)+

lemma triple_db_exec:
  "(\<And>d. P d \<Longrightarrow> Q (fst (f d)) (snd (f d))) \<Longrightarrow>
   (\<And>d e. P d \<Longrightarrow> Q (Inl e) d \<and> Q (Inl e) (snd (f d))) \<Longrightarrow>
   triple (dbp P) (db_exec E f) (\<lambda>r. dbp (Q r))"
  by (auto simp: triple_def dbp_def run_db_exec split: fault.split)

text \<open>
  What a transaction ends with: the rolled-back database with an error or an early return, or what
  the body left, with the result or (a lost commit) with an error.
\<close>

lemma triple_db_transaction:
  assumes body: "\<And>d0. P d0 \<Longrightarrow> triple (dbp (\<lambda>d. d = d0)) body (\<lambda>r. dbp (\<lambda>d.
      (case r of Inl e \<Rightarrow> True | Inr (TxReturn v) \<Rightarrow> Q (Inr v) d0
       | Inr (TxCommit v) \<Rightarrow> Q (Inr v) d \<and> (\<forall>e. Q (Inl e) d))))"
    and err: "\<And>d e. P d \<Longrightarrow> Q (Inl e) d"
  shows "triple (dbp P) (db_transaction E b c body) (\<lambda>r. dbp (Q r))"
  unfolding triple_def
proof (intro allI impI)
  fix w :: "'a world"
  assume "dbp P w"
  then have P: "P (w_db w)" by (simp add: dbp_def)
  let ?w = "w\<lparr>w_tick := Suc (w_tick w)\<rparr>"
  obtain r w1 where r: "run_state body ?w = (r, w1)" by fastforce
  have "case r of Inl e \<Rightarrow> True | Inr (TxReturn v) \<Rightarrow> Q (Inr v) (w_db w)
       | Inr (TxCommit v) \<Rightarrow> Q (Inr v) (w_db w1) \<and> (\<forall>e. Q (Inl e) (w_db w1))"
    using tripleD [OF body [OF P] _ r] by (simp add: dbp_def)
  then show "dbp (Q (fst (run_state (db_transaction E b c body) w)))
      (snd (run_state (db_transaction E b c body) w))"
    using P err r
    by (auto simp: db_transaction_def run_prims dbp_def split: fault.split sum.splits tx_end.splits)
qed

end
