(* ===== verification/Sqlc.thy ===== *)
theory Sqlc
  imports World
begin

text \<open>
  \<^verbatim>\<open>internal/platform/postgres/sqlc/task.sql.go\<close> and \<^verbatim>\<open>user.sql.go\<close>: the
  queries, each with the meaning of its SQL text on the tables of \<^verbatim>\<open>migrations/\<close>, constraints
  included. A table is the list of its rows in insertion order; ORDER BY sorts stably, so rows with
  equal keys keep that order. An INTEGER column holds a value of 32 bits and arithmetic on it
  fails on overflow. A \<^verbatim>\<open>:one\<close> query without a row returns \<^const>\<open>ErrNoRows\<close>, an
  \<^verbatim>\<open>:execrows\<close> query the number of rows. Text columns keep every string and timestamps
  their full precision; how the driver encodes them is not modelled.
\<close>

section \<open>Constraints\<close>

definition status_check :: "Status \<Rightarrow> bool" where
  "status_check s \<longleftrightarrow> s \<in> {StatusPending, StatusQueued, StatusRunning, StatusSuccess, StatusRetry,
     StatusFailed, StatusCancelled}"

definition kind_check :: "Kind \<Rightarrow> bool" where
  "kind_check k \<longleftrightarrow> k \<in> {KindOneOff, KindRecurring}"

definition unique_violation :: error where
  "unique_violation = PgError ''23505'' ''duplicate key value violates unique constraint''"
definition fk_violation :: error where
  "fk_violation = PgError ''23503'' ''violates foreign key constraint''"
definition check_violation :: error where
  "check_violation = PgError ''23514'' ''violates check constraint''"
definition int_out_of_range :: error where
  "int_out_of_range = PgError ''22003'' ''integer out of range''"
definition bad_page :: error where
  "bad_page = ErrText ''LIMIT or OFFSET must not be negative''"

text \<open>\<^verbatim>\<open>LIMIT l OFFSET k\<close>.\<close>

definition sql_page :: "int \<Rightarrow> int \<Rightarrow> 'a list \<Rightarrow> 'a list result" where
  "sql_page l k xs = (if l < 0 \<or> k < 0 then Inl bad_page else Inr (take (nat l) (drop (nat k) xs)))"

section \<open>Jobs\<close>

definition InsertJob :: "JobRow \<Rightarrow> unit statement" where
  "InsertJob r d =
     (if \<not> kind_check (jr_kind r) \<or> jr_interval_seconds r < 0 then (Inl check_violation, d)
      else if jr_id r \<in> jr_id ` set (d_jobs d) then (Inl unique_violation, d)
      else if (case jr_parent_job_id r of None \<Rightarrow> False
               | Some p \<Rightarrow> p \<noteq> jr_id r \<and> p \<notin> jr_id ` set (d_jobs d)) then (Inl fk_violation, d)
      else (Inr (), d\<lparr>d_jobs := d_jobs d @ [r]\<rparr>))"

definition GetJobByID :: "JobID \<Rightarrow> JobRow statement" where
  "GetJobByID i d = (case find (\<lambda>r. jr_id r = i) (d_jobs d) of
     None \<Rightarrow> (Inl ErrNoRows, d) | Some r \<Rightarrow> (Inr r, d))"

definition FindChildJobs :: "JobID \<Rightarrow> Status option \<Rightarrow> JobRow list statement" where
  "FindChildJobs p trigger d =
     (Inr (sort_key jr_created_at
        (filter (\<lambda>r. jr_parent_job_id r = Some p \<and> trigger \<noteq> None \<and>
                     jr_trigger_on_parent_status r = trigger) (d_jobs d))), d)"

definition CountJobsCreatedSince :: "TenantID \<Rightarrow> time \<Rightarrow> int statement" where
  "CountJobsCreatedSince t since d =
     (Inr (int (length (filter (\<lambda>r. jr_tenant_id r = t \<and> since \<le> jr_created_at r) (d_jobs d)))), d)"

definition CountActiveRecurringJobs :: "TenantID \<Rightarrow> int statement" where
  "CountActiveRecurringJobs t d =
     (Inr (int (length (filter (\<lambda>j. jr_tenant_id j = t \<and> jr_kind j = KindRecurring \<and>
        (\<exists>r\<in>set (d_runs d). rr_job_id r = jr_id j \<and> \<not> isTerminalStatus (rr_status r))) (d_jobs d)))), d)"

section \<open>Runs\<close>

definition run_constraints :: "RunRow \<Rightarrow> database \<Rightarrow> error option" where
  "run_constraints r d =
     (if \<not> status_check (rr_status r) then Some check_violation
      else if rr_id r \<in> rr_id ` set (d_runs d) then Some unique_violation
      else if (rr_job_id r, rr_sequence r) \<in> (\<lambda>x. (rr_job_id x, rr_sequence x)) ` set (d_runs d)
      then Some unique_violation
      else if rr_job_id r \<notin> jr_id ` set (d_jobs d) then Some fk_violation
      else None)"

definition InsertJobRun :: "RunRow \<Rightarrow> unit statement" where
  "InsertJobRun r d = (case run_constraints r d of
     Some e \<Rightarrow> (Inl e, d) | None \<Rightarrow> (Inr (), d\<lparr>d_runs := d_runs d @ [r]\<rparr>))"

record InsertJobRunIfAbsentParams =
  ia_ID :: JobRunID
  ia_TenantID :: TenantID
  ia_JobID :: JobID
  ia_Sequence :: int
  ia_ScheduledAt :: time
  ia_TimeBucket :: int
  ia_IdempotencyKey :: string
  ia_CreatedAt :: time
  ia_UpdatedAt :: time

definition InsertJobRunIfAbsent :: "InsertJobRunIfAbsentParams \<Rightarrow> int statement" where
  "InsertJobRunIfAbsent a d =
     (if (ia_JobID a, ia_Sequence a) \<in> (\<lambda>x. (rr_job_id x, rr_sequence x)) ` set (d_runs d)
      then (Inr 0, d)
      else
        let r = \<lparr>rr_id = ia_ID a, rr_tenant_id = ia_TenantID a, rr_job_id = ia_JobID a,
                 rr_sequence = ia_Sequence a, rr_status = StatusPending,
                 rr_scheduled_at = ia_ScheduledAt a, rr_time_bucket = ia_TimeBucket a,
                 rr_attempts = 0, rr_idempotency_key = ia_IdempotencyKey a,
                 rr_error_code = None, rr_error_message = None, rr_started_at = None,
                 rr_completed_at = None, rr_failed_at = None,
                 rr_created_at = ia_CreatedAt a, rr_updated_at = ia_UpdatedAt a\<rparr>
        in case run_constraints r d of
             Some e \<Rightarrow> (Inl e, d) | None \<Rightarrow> (Inr 1, d\<lparr>d_runs := d_runs d @ [r]\<rparr>))"

record UpdateJobRunStatusParams =
  us_Status :: Status
  us_Attempts :: int
  us_ErrorCode :: "string option"
  us_ErrorMessage :: "string option"
  us_StartedAt :: "time option"
  us_CompletedAt :: "time option"
  us_FailedAt :: "time option"
  us_UpdatedAt :: time
  us_ID :: JobRunID

definition set_run_status :: "UpdateJobRunStatusParams \<Rightarrow> RunRow \<Rightarrow> RunRow" where
  "set_run_status a r = r\<lparr>
     rr_status := us_Status a,
     rr_attempts := us_Attempts a,
     rr_error_code := us_ErrorCode a,
     rr_error_message := us_ErrorMessage a,
     rr_started_at := us_StartedAt a,
     rr_completed_at := us_CompletedAt a,
     rr_failed_at := us_FailedAt a,
     rr_updated_at := us_UpdatedAt a\<rparr>"

definition UpdateJobRunStatus :: "UpdateJobRunStatusParams \<Rightarrow> int statement" where
  "UpdateJobRunStatus a d =
     (let n = length (filter (\<lambda>r. rr_id r = us_ID a) (d_runs d))
      in if n > 0 \<and> \<not> status_check (us_Status a) then (Inl check_violation, d)
         else (Inr (int n),
               d\<lparr>d_runs := update_where (\<lambda>r. rr_id r = us_ID a) (set_run_status a) (d_runs d)\<rparr>))"

definition running_runs :: "TenantID \<Rightarrow> database \<Rightarrow> RunRow list" where
  "running_runs t d = filter (\<lambda>r. rr_tenant_id r = t \<and> rr_status r = StatusRunning) (d_runs d)"

record TryMarkJobRunRunningParams =
  tm_TenantID :: TenantID
  tm_StartedAt :: time
  tm_UpdatedAt :: time
  tm_ID :: JobRunID
  tm_RunLimit :: int

text \<open>
  The rows of the WITH query that are updated: the count is taken on the tables as the statement
  finds them.
\<close>

definition TryMarkJobRunRunning :: "TryMarkJobRunRunningParams \<Rightarrow> bool statement" where
  "TryMarkJobRunRunning a d =
     (let hit = (\<lambda>r. rr_id r = tm_ID a \<and> (rr_status r = StatusQueued \<or> rr_status r = StatusRetry) \<and>
                     int (length (running_runs (tm_TenantID a) d)) < tm_RunLimit a)
      in (Inr (\<exists>r\<in>set (d_runs d). hit r),
          d\<lparr>d_runs := update_where hit
              (\<lambda>r. r\<lparr>rr_status := StatusRunning, rr_started_at := Some (tm_StartedAt a),
                     rr_updated_at := tm_UpdatedAt a\<rparr>) (d_runs d)\<rparr>))"

definition GetJobRunByID :: "JobRunID \<Rightarrow> RunRow statement" where
  "GetJobRunByID i d = (case find (\<lambda>r. rr_id r = i) (d_runs d) of
     None \<Rightarrow> (Inl ErrNoRows, d) | Some r \<Rightarrow> (Inr r, d))"

definition ListJobRuns :: "TenantID \<Rightarrow> int \<Rightarrow> int \<Rightarrow> RunRow list statement" where
  "ListJobRuns t offset limit d =
     (sql_page limit offset
        (sort_key (\<lambda>r. - rr_created_at r) (filter (\<lambda>r. rr_tenant_id r = t) (d_runs d))), d)"

definition CountJobRuns :: "TenantID \<Rightarrow> int statement" where
  "CountJobRuns t d = (Inr (int (length (filter (\<lambda>r. rr_tenant_id r = t) (d_runs d)))), d)"

definition ListJobRunsByJob :: "TenantID \<Rightarrow> JobID \<Rightarrow> int \<Rightarrow> int \<Rightarrow> RunRow list statement" where
  "ListJobRunsByJob t j offset limit d =
     (sql_page limit offset
        (sort_key (\<lambda>r. - rr_sequence r)
           (filter (\<lambda>r. rr_tenant_id r = t \<and> rr_job_id r = j) (d_runs d))), d)"

definition CountJobRunsByJob :: "TenantID \<Rightarrow> JobID \<Rightarrow> int statement" where
  "CountJobRunsByJob t j d =
     (Inr (int (length (filter (\<lambda>r. rr_tenant_id r = t \<and> rr_job_id r = j) (d_runs d)))), d)"

definition CountActiveRuns :: "TenantID \<Rightarrow> int statement" where
  "CountActiveRuns t d =
     (Inr (int (length (filter (\<lambda>r. rr_tenant_id r = t \<and>
        (rr_status r = StatusQueued \<or> rr_status r = StatusRunning \<or> rr_status r = StatusRetry))
        (d_runs d)))), d)"

definition FindDueJobRuns :: "int \<Rightarrow> time \<Rightarrow> int \<Rightarrow> RunRow list statement" where
  "FindDueJobRuns bucket due cap d =
     (sql_page cap 0
        (sort_key rr_scheduled_at
           (filter (\<lambda>r. rr_time_bucket r \<le> bucket \<and> rr_status r = StatusPending \<and>
                        rr_scheduled_at r \<le> due) (d_runs d))), d)"

definition cancellable :: "TenantID \<Rightarrow> JobID \<Rightarrow> RunRow \<Rightarrow> bool" where
  "cancellable t j r \<longleftrightarrow> rr_tenant_id r = t \<and> rr_job_id r = j \<and>
     (rr_status r = StatusPending \<or> rr_status r = StatusQueued \<or> rr_status r = StatusRetry)"

definition CancelPendingJobRuns :: "time \<Rightarrow> time \<Rightarrow> TenantID \<Rightarrow> JobID \<Rightarrow> RunRow list statement" where
  "CancelPendingJobRuns completedAt updatedAt t j d =
     (let cancel = (\<lambda>r. r\<lparr>rr_status := StatusCancelled, rr_completed_at := Some completedAt,
                          rr_updated_at := updatedAt\<rparr>)
      in (Inr (map cancel (filter (cancellable t j) (d_runs d))),
          d\<lparr>d_runs := update_where (cancellable t j) cancel (d_runs d)\<rparr>))"

section \<open>Events\<close>

definition InsertRunEvent :: "EventRow \<Rightarrow> unit statement" where
  "InsertRunEvent r d =
     (if er_id r \<in> er_id ` set (d_events d) then (Inl unique_violation, d)
      else if er_job_run_id r \<notin> rr_id ` set (d_runs d) then (Inl fk_violation, d)
      else (Inr (), d\<lparr>d_events := d_events d @ [r]\<rparr>))"

definition ListRunEventsByRun :: "TenantID \<Rightarrow> JobRunID \<Rightarrow> EventRow list statement" where
  "ListRunEventsByRun t i d =
     (Inr (sort_key er_created_at
        (filter (\<lambda>e. er_tenant_id e = t \<and> er_job_run_id e = i) (d_events d))), d)"

record TerminalRow =
  tr_tenant_id :: TenantID
  tr_job_id :: JobID
  tr_sequence :: int
  tr_scheduled_at :: time
  tr_timezone_id :: string
  tr_recurrence_rule :: "string option"
  tr_local_time :: "string option"

definition ListTerminalRecurringRuns :: "time \<Rightarrow> int \<Rightarrow> TerminalRow list statement" where
  "ListTerminalRecurringRuns since cap d =
     (sql_page cap 0
        [\<lparr>tr_tenant_id = rr_tenant_id r, tr_job_id = rr_job_id r, tr_sequence = rr_sequence r,
          tr_scheduled_at = rr_scheduled_at r, tr_timezone_id = jr_timezone_id j,
          tr_recurrence_rule = jr_recurrence_rule j, tr_local_time = jr_local_time j\<rparr>.
          e \<leftarrow> sort_key er_created_at
                (filter (\<lambda>e. (er_status e = StatusSuccess \<or> er_status e = StatusFailed) \<and>
                             since \<le> er_created_at e) (d_events d)),
          r \<leftarrow> filter (\<lambda>r. rr_id r = er_job_run_id e \<and>
                 \<not> (\<exists>n\<in>set (d_runs d). rr_job_id n = rr_job_id r \<and> rr_sequence n = rr_sequence r + 1))
                (d_runs d),
          j \<leftarrow> filter (\<lambda>j. jr_id j = rr_job_id r \<and> jr_kind j = KindRecurring) (d_jobs d)], d)"

section \<open>Quotas, daily cost and idempotency records\<close>

definition GetTenantQuota :: "TenantID \<Rightarrow> QuotaRow statement" where
  "GetTenantQuota t d = (case find (\<lambda>r. qr_tenant_id r = t) (d_quotas d) of
     None \<Rightarrow> (Inl ErrNoRows, d) | Some r \<Rightarrow> (Inr r, d))"

definition cost_key :: "TenantID \<Rightarrow> string \<Rightarrow> CostRow \<Rightarrow> bool" where
  "cost_key t date r \<longleftrightarrow> cr_tenant_id r = t \<and> cr_cost_date r = date"

definition ReserveDailyLLMCost :: "TenantID \<Rightarrow> string \<Rightarrow> int \<Rightarrow> int \<Rightarrow> int statement" where
  "ReserveDailyLLMCost t date cost limit d =
     (case find (cost_key t date) (d_costs d) of
        None \<Rightarrow> (Inr cost,
          d\<lparr>d_costs := d_costs d @ [\<lparr>cr_tenant_id = t, cr_cost_date = date, cr_cost_cents = cost\<rparr>]\<rparr>)
      | Some r \<Rightarrow>
          let total = cr_cost_cents r + cost
          in if \<not> in_int32 total then (Inl int_out_of_range, d)
             else if total \<le> limit
             then (Inr total, d\<lparr>d_costs := update_where (cost_key t date)
                                 (\<lambda>r. r\<lparr>cr_cost_cents := total\<rparr>) (d_costs d)\<rparr>)
             else (Inl ErrNoRows, d))"

definition AdjustDailyLLMCost :: "int \<Rightarrow> TenantID \<Rightarrow> string \<Rightarrow> unit statement" where
  "AdjustDailyLLMCost delta t date d =
     (if \<exists>r\<in>set (d_costs d). cost_key t date r \<and> \<not> in_int32 (cr_cost_cents r + delta)
      then (Inl int_out_of_range, d)
      else (Inr (), d\<lparr>d_costs := update_where (cost_key t date)
                       (\<lambda>r. r\<lparr>cr_cost_cents := cr_cost_cents r + delta\<rparr>) (d_costs d)\<rparr>))"

definition BeginIdempotency :: "string \<Rightarrow> JobRunID \<Rightarrow> string \<Rightarrow> time \<Rightarrow> time \<Rightarrow> int statement" where
  "BeginIdempotency key i handler createdAt updatedAt d =
     (if key \<in> ir_idempotency_key ` set (d_idempotency d) then (Inr 0, d)
      else (Inr 1, d\<lparr>d_idempotency := d_idempotency d @
             [\<lparr>ir_idempotency_key = key, ir_job_run_id = i, ir_handler_name = handler,
               ir_status = ''in_progress'', ir_response_hash = None,
               ir_created_at = createdAt, ir_updated_at = updatedAt\<rparr>]\<rparr>))"

definition CompleteIdempotency :: "string option \<Rightarrow> time \<Rightarrow> string \<Rightarrow> int statement" where
  "CompleteIdempotency hash updatedAt key d =
     (Inr (int (length (filter (\<lambda>r. ir_idempotency_key r = key) (d_idempotency d)))),
      d\<lparr>d_idempotency := update_where (\<lambda>r. ir_idempotency_key r = key)
          (\<lambda>r. r\<lparr>ir_status := ''completed'', ir_response_hash := hash, ir_updated_at := updatedAt\<rparr>)
          (d_idempotency d)\<rparr>)"

definition GetIdempotency :: "string \<Rightarrow> IdempotencyRow statement" where
  "GetIdempotency key d = (case find (\<lambda>r. ir_idempotency_key r = key) (d_idempotency d) of
     None \<Rightarrow> (Inl ErrNoRows, d) | Some r \<Rightarrow> (Inr r, d))"

section \<open>Users (user.sql.go)\<close>

definition GetUserByEmail :: "string \<Rightarrow> UserRow statement" where
  "GetUserByEmail email d = (case find (\<lambda>r. ur_email r = email) (d_users d) of
     None \<Rightarrow> (Inl ErrNoRows, d) | Some r \<Rightarrow> (Inr r, d))"

definition GetUserByID :: "UserID \<Rightarrow> UserRow statement" where
  "GetUserByID i d = (case find (\<lambda>r. ur_id r = i) (d_users d) of
     None \<Rightarrow> (Inl ErrNoRows, d) | Some r \<Rightarrow> (Inr r, d))"

definition InsertUser :: "UserRow \<Rightarrow> unit statement" where
  "InsertUser r d =
     (if ur_id r \<in> ur_id ` set (d_users d) \<or> ur_email r \<in> ur_email ` set (d_users d)
      then (Inl unique_violation, d)
      else (Inr (), d\<lparr>d_users := d_users d @ [r]\<rparr>))"

definition UpdateUserDisplayName :: "string \<Rightarrow> time \<Rightarrow> UserID \<Rightarrow> unit statement" where
  "UpdateUserDisplayName displayName updatedAt i d =
     (Inr (), d\<lparr>d_users := update_where (\<lambda>r. ur_id r = i)
        (\<lambda>r. r\<lparr>ur_display_name := displayName, ur_updated_at := updatedAt\<rparr>) (d_users d)\<rparr>)"

section \<open>What the constraints keep\<close>

text \<open>The integrity of the tables: primary keys, unique and foreign keys, checks.\<close>

definition run_key :: "RunRow \<Rightarrow> JobID \<times> int" where
  "run_key r = (rr_job_id r, rr_sequence r)"

definition db_wf :: "database \<Rightarrow> bool" where
  "db_wf d \<longleftrightarrow>
     distinct (map jr_id (d_jobs d)) \<and>
     distinct (map rr_id (d_runs d)) \<and>
     distinct (map run_key (d_runs d)) \<and>
     distinct (map er_id (d_events d)) \<and>
     distinct (map (\<lambda>r. (cr_tenant_id r, cr_cost_date r)) (d_costs d)) \<and>
     distinct (map ir_idempotency_key (d_idempotency d)) \<and>
     distinct (map ur_id (d_users d)) \<and>
     distinct (map ur_email (d_users d)) \<and>
     rr_job_id ` set (d_runs d) \<subseteq> jr_id ` set (d_jobs d) \<and>
     er_job_run_id ` set (d_events d) \<subseteq> rr_id ` set (d_runs d) \<and>
     (\<forall>r\<in>set (d_runs d). status_check (rr_status r)) \<and>
     (\<forall>j\<in>set (d_jobs d). kind_check (jr_kind j) \<and> 0 \<le> jr_interval_seconds j)"

text \<open>
  How the tables may grow: jobs and events are only appended, quota rows are left alone, a run
  keeps its identity, owner, schedule and idempotency key, an idempotency record its key, run and
  handler, and a completed one stays completed; a user keeps the identifier, the email address and
  the password hash.
\<close>

definition run_keeps :: "RunRow \<Rightarrow> RunRow \<Rightarrow> bool" where
  "run_keeps r r' \<longleftrightarrow> rr_id r' = rr_id r \<and> rr_tenant_id r' = rr_tenant_id r \<and> rr_job_id r' = rr_job_id r \<and>
     rr_sequence r' = rr_sequence r \<and> rr_scheduled_at r' = rr_scheduled_at r \<and>
     rr_time_bucket r' = rr_time_bucket r \<and> rr_idempotency_key r' = rr_idempotency_key r \<and>
     rr_created_at r' = rr_created_at r"

definition record_keeps :: "IdempotencyRow \<Rightarrow> IdempotencyRow \<Rightarrow> bool" where
  "record_keeps r r' \<longleftrightarrow> ir_idempotency_key r' = ir_idempotency_key r \<and> ir_job_run_id r' = ir_job_run_id r \<and>
     ir_handler_name r' = ir_handler_name r \<and> (ir_status r = ''completed'' \<longrightarrow> ir_status r' = ''completed'')"

definition user_keeps :: "UserRow \<Rightarrow> UserRow \<Rightarrow> bool" where
  "user_keeps r r' \<longleftrightarrow> ur_id r' = ur_id r \<and> ur_email r' = ur_email r \<and>
     ur_password_hash r' = ur_password_hash r \<and> ur_created_at r' = ur_created_at r"

definition extends :: "('a \<Rightarrow> 'a \<Rightarrow> bool) \<Rightarrow> 'a list \<Rightarrow> 'a list \<Rightarrow> bool" where
  "extends K xs ys \<longleftrightarrow> (\<exists>ys1 ys2. ys = ys1 @ ys2 \<and> list_all2 K xs ys1)"

definition db_le :: "database \<Rightarrow> database \<Rightarrow> bool" where
  "db_le d d' \<longleftrightarrow> extends (=) (d_jobs d) (d_jobs d') \<and> extends (=) (d_events d) (d_events d') \<and>
     extends run_keeps (d_runs d) (d_runs d') \<and> d_quotas d' = d_quotas d \<and>
     extends record_keeps (d_idempotency d) (d_idempotency d') \<and>
     extends user_keeps (d_users d) (d_users d')"

lemma extends_refl: "(\<And>x. K x x) \<Longrightarrow> extends K xs xs"
  unfolding extends_def by (metis append_Nil2 list_all2_refl)

lemma extends_append: "(\<And>x. K x x) \<Longrightarrow> extends K xs (xs @ ys)"
  unfolding extends_def by (metis list_all2_refl)

lemma extends_update_where: "(\<And>x. K x x) \<Longrightarrow> (\<And>x. P x \<Longrightarrow> K x (f x)) \<Longrightarrow> extends K xs (update_where P f xs)"
  unfolding extends_def
  by (intro exI [of _ "update_where P f xs"] exI [of _ "[]"])
    (auto simp: update_where_def list_all2_map2 intro: list.rel_refl_strong)

lemma extends_trans:
  assumes K: "\<And>x y z. K x y \<Longrightarrow> K y z \<Longrightarrow> K x z" and xy: "extends K xs ys" and yz: "extends K ys zs"
  shows "extends K xs zs"
proof -
  obtain a b where ys: "ys = a @ b" "list_all2 K xs a" using xy by (auto simp: extends_def)
  obtain c e where zs: "zs = c @ e" "list_all2 K ys c" using yz by (auto simp: extends_def)
  obtain c1 c2 where c: "c = c1 @ c2" "list_all2 K a c1"
    using zs(2) unfolding ys by (auto simp: list_all2_append1)
  have "list_all2 K xs c1" using list_all2_trans [of K K K xs a c1] K ys(2) c(2) by blast
  then show ?thesis unfolding extends_def zs(1) c(1) append_assoc by blast
qed

lemma extends_memD: "extends K xs ys \<Longrightarrow> x \<in> set xs \<Longrightarrow> \<exists>y\<in>set ys. K x y"
  by (fastforce simp: extends_def list_all2_conv_all_nth in_set_conv_nth)

lemma keeps_refl [simp]: "run_keeps r r" "record_keeps q q" "user_keeps u u"
  by (simp_all add: run_keeps_def record_keeps_def user_keeps_def)

lemma keeps_trans:
  "run_keeps r r' \<Longrightarrow> run_keeps r' r'' \<Longrightarrow> run_keeps r r''"
  "record_keeps q q' \<Longrightarrow> record_keeps q' q'' \<Longrightarrow> record_keeps q q''"
  "user_keeps u u' \<Longrightarrow> user_keeps u' u'' \<Longrightarrow> user_keeps u u''"
  by (auto simp: run_keeps_def record_keeps_def user_keeps_def)

lemma db_le_refl [simp]: "db_le d d"
  by (simp add: db_le_def extends_refl)

lemma db_le_trans: "db_le d d' \<Longrightarrow> db_le d' d'' \<Longrightarrow> db_le d d''"
  unfolding db_le_def
  by (auto intro: extends_trans [where K = "(=)"] extends_trans [where K = run_keeps]
      extends_trans [where K = record_keeps] extends_trans [where K = user_keeps] keeps_trans)

text \<open>One step: the tables grow as allowed and stay well formed.\<close>

definition db_step :: "database \<Rightarrow> database \<Rightarrow> bool" where
  "db_step d d' \<longleftrightarrow> db_le d d' \<and> (db_wf d \<longrightarrow> db_wf d')"

lemma db_step_refl [simp]: "db_step d d"
  by (simp add: db_step_def)

named_theorems statement_reads \<open>statements that only read\<close>

lemma reads [statement_reads]:
  "snd (GetJobByID i d) = d" "snd (FindChildJobs i s d) = d" "snd (CountJobsCreatedSince t at' d) = d"
  "snd (CountActiveRecurringJobs t d) = d" "snd (GetJobRunByID i d) = d" "snd (ListJobRuns t k l d) = d"
  "snd (CountJobRuns t d) = d" "snd (ListJobRunsByJob t i k l d) = d" "snd (CountJobRunsByJob t i d) = d"
  "snd (CountActiveRuns t d) = d" "snd (FindDueJobRuns b due l d) = d" "snd (ListRunEventsByRun t i d) = d"
  "snd (ListTerminalRecurringRuns since l d) = d" "snd (GetTenantQuota t d) = d"
  "snd (GetIdempotency key d) = d" "snd (GetUserByEmail email d) = d" "snd (GetUserByID u d) = d"
  by (simp_all add: GetJobByID_def FindChildJobs_def CountJobsCreatedSince_def CountActiveRecurringJobs_def
      GetJobRunByID_def ListJobRuns_def CountJobRuns_def ListJobRunsByJob_def CountJobRunsByJob_def
      CountActiveRuns_def FindDueJobRuns_def ListRunEventsByRun_def ListTerminalRecurringRuns_def
      GetTenantQuota_def GetIdempotency_def GetUserByEmail_def GetUserByID_def split: option.split)

lemma db_step_InsertJob: "db_step d (snd (InsertJob r d))"
  by (auto simp: InsertJob_def db_step_def db_le_def db_wf_def extends_refl extends_append)

lemma run_constraints_None:
  "run_constraints r d = None \<longleftrightarrow> status_check (rr_status r) \<and> rr_id r \<notin> rr_id ` set (d_runs d) \<and>
   run_key r \<notin> run_key ` set (d_runs d) \<and> rr_job_id r \<in> jr_id ` set (d_jobs d)"
  by (auto simp: run_constraints_def run_key_def [abs_def])

lemma db_step_append_run: "run_constraints r d = None \<Longrightarrow> db_step d (d\<lparr>d_runs := d_runs d @ [r]\<rparr>)"
  unfolding run_constraints_None
  by (auto simp: db_step_def db_le_def db_wf_def extends_refl extends_append)

lemma db_step_InsertJobRun: "db_step d (snd (InsertJobRun r d))"
  by (simp add: InsertJobRun_def db_step_append_run split: option.split)

lemma db_step_InsertJobRunIfAbsent: "db_step d (snd (InsertJobRunIfAbsent a d))"
  by (simp add: InsertJobRunIfAbsent_def db_step_append_run Let_def split: option.split)

lemma db_step_update_runs:
  assumes "\<And>r. P r \<Longrightarrow> run_keeps r (f r)" "\<And>r. P r \<Longrightarrow> r \<in> set (d_runs d) \<Longrightarrow> status_check (rr_status (f r))"
  shows "db_step d (d\<lparr>d_runs := update_where P f (d_runs d)\<rparr>)"
proof -
  let ?rs = "update_where P f (d_runs d)"
  have keys: "map rr_id ?rs = map rr_id (d_runs d)" "map run_key ?rs = map run_key (d_runs d)"
    "map rr_job_id ?rs = map rr_job_id (d_runs d)"
    using assms(1) by (auto intro!: map_update_where simp: run_keeps_def run_key_def)
  then have "rr_id ` set ?rs = rr_id ` set (d_runs d)" "rr_job_id ` set ?rs = rr_job_id ` set (d_runs d)"
    by (metis set_map)+
  moreover have "\<forall>r\<in>set ?rs. status_check (rr_status r)" if "\<forall>r\<in>set (d_runs d). status_check (rr_status r)"
    using that assms(2) by (auto simp: in_update_where)
  ultimately have "db_wf d \<Longrightarrow> db_wf (d\<lparr>d_runs := ?rs\<rparr>)"
    by (simp add: db_wf_def keys)
  then show ?thesis
    using assms(1) by (simp add: db_step_def db_le_def extends_refl extends_update_where)
qed

lemma status_check_set [simp]:
  "status_check StatusRunning" "status_check StatusCancelled" "status_check StatusPending"
  "status_check StatusQueued" "status_check StatusSuccess" "status_check StatusRetry"
  "status_check StatusFailed"
  by (simp_all add: status_check_def)

lemma db_step_UpdateJobRunStatus: "db_step d (snd (UpdateJobRunStatus a d))"
proof (cases "filter (\<lambda>r. rr_id r = us_ID a) (d_runs d) = [] \<or> status_check (us_Status a)")
  case True
  then have "\<not> (length (filter (\<lambda>r. rr_id r = us_ID a) (d_runs d)) > 0 \<and> \<not> status_check (us_Status a))"
    by auto
  moreover have "db_step d (d\<lparr>d_runs := update_where (\<lambda>r. rr_id r = us_ID a) (set_run_status a) (d_runs d)\<rparr>)"
    using True by (intro db_step_update_runs) (auto simp: run_keeps_def set_run_status_def filter_empty_conv)
  ultimately show ?thesis by (simp add: UpdateJobRunStatus_def Let_def)
qed (simp add: UpdateJobRunStatus_def db_step_def Let_def)

lemma db_step_TryMarkJobRunRunning: "db_step d (snd (TryMarkJobRunRunning a d))"
  unfolding TryMarkJobRunRunning_def Let_def snd_conv
  by (rule db_step_update_runs) (simp_all add: run_keeps_def)

lemma db_step_CancelPendingJobRuns: "db_step d (snd (CancelPendingJobRuns c u t j d))"
  unfolding CancelPendingJobRuns_def Let_def snd_conv
  by (rule db_step_update_runs) (simp_all add: run_keeps_def)

lemma db_step_InsertRunEvent: "db_step d (snd (InsertRunEvent r d))"
  by (auto simp: InsertRunEvent_def db_step_def db_le_def db_wf_def extends_refl extends_append)

lemma db_step_costs:
  "distinct (map (\<lambda>r. (cr_tenant_id r, cr_cost_date r)) cs) \<or>
     map (\<lambda>r. (cr_tenant_id r, cr_cost_date r)) cs = map (\<lambda>r. (cr_tenant_id r, cr_cost_date r)) (d_costs d) \<Longrightarrow>
   db_step d (d\<lparr>d_costs := cs\<rparr>)"
  by (auto simp: db_step_def db_le_def db_wf_def extends_refl)

lemma find_cost_None:
  "find (cost_key t date) cs = None \<longleftrightarrow> (t, date) \<notin> (\<lambda>r. (cr_tenant_id r, cr_cost_date r)) ` set cs"
  by (auto simp: find_None_iff cost_key_def)

lemma db_step_ReserveDailyLLMCost: "db_step d (snd (ReserveDailyLLMCost t date c l d))"
proof (cases "find (cost_key t date) (d_costs d)")
  case None
  then show ?thesis
    using find_cost_None [of t date "d_costs d"]
    by (auto simp: ReserveDailyLLMCost_def db_step_def db_le_def db_wf_def extends_refl)
next
  case (Some r)
  have "db_step d (d\<lparr>d_costs := update_where (cost_key t date) (\<lambda>r. r\<lparr>cr_cost_cents := v\<rparr>) (d_costs d)\<rparr>)" for v
    by (rule db_step_costs) (simp add: map_update_where)
  with Some show ?thesis by (simp add: ReserveDailyLLMCost_def Let_def db_step_def)
qed

lemma db_step_AdjustDailyLLMCost: "db_step d (snd (AdjustDailyLLMCost delta t date d))"
proof -
  have "db_step d (d\<lparr>d_costs := update_where (cost_key t date)
      (\<lambda>r. r\<lparr>cr_cost_cents := cr_cost_cents r + delta\<rparr>) (d_costs d)\<rparr>)"
    by (rule db_step_costs) (simp add: map_update_where)
  then show ?thesis by (simp add: AdjustDailyLLMCost_def db_step_def)
qed

lemma db_step_BeginIdempotency: "db_step d (snd (BeginIdempotency k i h c u d))"
  by (auto simp: BeginIdempotency_def db_step_def db_le_def db_wf_def extends_refl extends_append)

lemma db_step_CompleteIdempotency: "db_step d (snd (CompleteIdempotency h u k d))"
proof -
  let ?ir = "update_where (\<lambda>r. ir_idempotency_key r = k)
    (\<lambda>r. r\<lparr>ir_status := ''completed'', ir_response_hash := h, ir_updated_at := u\<rparr>) (d_idempotency d)"
  have "map ir_idempotency_key ?ir = map ir_idempotency_key (d_idempotency d)"
    by (simp add: map_update_where)
  moreover have "extends record_keeps (d_idempotency d) ?ir"
    by (rule extends_update_where) (simp_all add: record_keeps_def)
  ultimately show ?thesis
    by (simp add: CompleteIdempotency_def db_step_def db_le_def db_wf_def extends_refl)
qed

lemma db_step_InsertUser: "db_step d (snd (InsertUser r d))"
  by (auto simp: InsertUser_def db_step_def db_le_def db_wf_def extends_refl extends_append)

lemma db_step_UpdateUserDisplayName: "db_step d (snd (UpdateUserDisplayName n u i d))"
proof -
  let ?us = "update_where (\<lambda>r. ur_id r = i) (\<lambda>r. r\<lparr>ur_display_name := n, ur_updated_at := u\<rparr>) (d_users d)"
  have "map ur_id ?us = map ur_id (d_users d)" "map ur_email ?us = map ur_email (d_users d)"
    by (simp_all add: map_update_where)
  moreover have "extends user_keeps (d_users d) ?us"
    by (rule extends_update_where) (simp_all add: user_keeps_def)
  ultimately show ?thesis
    by (simp add: UpdateUserDisplayName_def db_step_def db_le_def db_wf_def extends_refl)
qed

section \<open>Relations every statement respects\<close>

text \<open>
  The contract between the tables and the code above them: a preorder on databases that the
  writing statements respect. What is proved in these locales about a repository operation or a
  handler holds for every such relation. The first has the statement that appends an event; the
  next ones add the insertion of a run that is not running, the claim of a slot, the statements of the
  LLM executor and those of all executors; then come every statement but the claim and the unconditional
  update of a run's status, those on the users, and the two together, which are those of the API. The
  watchers and the rest of the worker add the update to a status other than running, and the last
  locale has every statement.
\<close>

locale event_statements = db_evolution +
  assumes InsertRunEvent: "R d (snd (InsertRunEvent e d))"

locale child_statements = event_statements +
  assumes InsertJobRun: "rr_status r \<noteq> StatusRunning \<Longrightarrow> R d (snd (InsertJobRun r d))"

locale claiming_statements = event_statements +
  assumes TryMarkJobRunRunning: "R d (snd (TryMarkJobRunRunning m d))"

locale llm_statements = event_statements +
  assumes ReserveDailyLLMCost: "R d (snd (ReserveDailyLLMCost t date cost limit d))"
    and AdjustDailyLLMCost: "R d (snd (AdjustDailyLLMCost delta t date d))"

locale side_statements = llm_statements +
  assumes BeginIdempotency: "R d (snd (BeginIdempotency key i h c' u' d))"
    and CompleteIdempotency: "R d (snd (CompleteIdempotency hash u' key d))"
begin

lemmas side_writes = InsertRunEvent ReserveDailyLLMCost AdjustDailyLLMCost BeginIdempotency
  CompleteIdempotency

end

locale guarded_statements = side_statements R + child_statements R for R +
  assumes InsertJob: "R d (snd (InsertJob j d))"
    and InsertJobRunIfAbsent: "R d (snd (InsertJobRunIfAbsent a d))"
    and CancelPendingJobRuns: "R d (snd (CancelPendingJobRuns c u' t i d))"
begin

lemmas guarded_writes = InsertJob InsertJobRun InsertJobRunIfAbsent CancelPendingJobRuns side_writes

end

locale user_statements = db_evolution +
  assumes InsertUser: "R d (snd (InsertUser ur d))"
    and UpdateUserDisplayName: "R d (snd (UpdateUserDisplayName n u' i d))"

locale api_statements = guarded_statements R + user_statements R for R

locale status_statements = api_statements R for R +
  assumes UpdateJobRunStatus: "us_Status u \<noteq> StatusRunning \<Longrightarrow> R d (snd (UpdateJobRunStatus u d))"

locale statements = status_statements R + claiming_statements R for R +
  assumes UpdateJobRunRunning: "us_Status u = StatusRunning \<Longrightarrow> R d (snd (UpdateJobRunStatus u d))"
begin

lemma UpdateJobRunAny: "R d (snd (UpdateJobRunStatus u d))"
  by (cases "us_Status u = StatusRunning") (simp_all add: UpdateJobRunStatus UpdateJobRunRunning)

lemmas writes = UpdateJobRunAny TryMarkJobRunRunning InsertUser UpdateUserDisplayName guarded_writes

end

text \<open>The tables of jobs and runs are left alone.\<close>

definition same_runs :: "database \<Rightarrow> database \<Rightarrow> bool" where
  "same_runs d d' \<longleftrightarrow> d_runs d' = d_runs d \<and> d_jobs d' = d_jobs d"

interpretation frame: side_statements same_runs
  by unfold_locales
    (auto simp: same_runs_def InsertRunEvent_def ReserveDailyLLMCost_def AdjustDailyLLMCost_def
      BeginIdempotency_def CompleteIdempotency_def Let_def split: option.split)

text \<open>The idempotency records and the jobs are left alone.\<close>

definition same_records :: "database \<Rightarrow> database \<Rightarrow> bool" where
  "same_records d d' \<longleftrightarrow> d_idempotency d' = d_idempotency d \<and> d_jobs d' = d_jobs d"

interpretation records: llm_statements same_records
  by unfold_locales
    (auto simp: same_records_def InsertRunEvent_def ReserveDailyLLMCost_def AdjustDailyLLMCost_def
      Let_def split: option.split)

lemma db_step_trans: "db_step d d' \<Longrightarrow> db_step d' d'' \<Longrightarrow> db_step d d''"
  by (auto simp: db_step_def intro: db_le_trans)

interpretation step: statements db_step
  by unfold_locales
    (auto simp: db_step_InsertJob db_step_InsertJobRun db_step_InsertJobRunIfAbsent
      db_step_UpdateJobRunStatus db_step_TryMarkJobRunRunning db_step_CancelPendingJobRuns
      db_step_InsertRunEvent db_step_ReserveDailyLLMCost db_step_AdjustDailyLLMCost
      db_step_BeginIdempotency db_step_CompleteIdempotency db_step_InsertUser
      db_step_UpdateUserDisplayName intro: db_step_trans)

lemma step_wf: "state_io_rel (on_db db_step) m \<Longrightarrow> db_wf (w_db w) \<Longrightarrow> db_wf (w_db (snd (run_state m w)))"
  by (simp add: state_io_rel_def on_db_def db_step_def)

lemma step_le: "state_io_rel (on_db db_step) m \<Longrightarrow> db_le (w_db w) (w_db (snd (run_state m w)))"
  by (simp add: state_io_rel_def on_db_def db_step_def)

end
