(* ===== verification/Sample.thy ===== *)
theory Sample
  imports World
begin

text \<open>
  One concrete environment, for the examples that show the hypotheses of the theorems can hold:
  a clock that advances by a second, fresh identifiers, no failing database call, a stream server
  in memory with consumer-group delivery, the JSON text of queue messages, and a model that
  answers every prompt.
\<close>

section \<open>Streams in memory\<close>

record mem_redis =
  mr_main :: "(string \<times> string) list"
  mr_dlq :: "(string \<times> string) list"
  mr_delivered :: nat
  mr_acked :: "string list"

definition mem_entries :: "(string \<times> string) list \<Rightarrow> xmessage list" where
  "mem_entries = map (\<lambda>(i, data). (i, RString data))"

definition mem_api :: "mem_redis redis_api" where
  "mem_api = \<lparr>
     r_XAdd = (\<lambda>n stream data s.
       (Inr (), if stream = ''task:runs'' then s\<lparr>mr_main := mr_main s @ [(Itoa (int n), data)]\<rparr>
                else s\<lparr>mr_dlq := mr_dlq s @ [(Itoa (int n), data)]\<rparr>)),
     r_XGroupCreateMkStream = (\<lambda>n stream group s. (Inr (), s)),
     r_XReadGroup = (\<lambda>n group consumer stream count block s.
       let new = take (nat count) (drop (mr_delivered s) (mr_main s))
       in (Inr (if new = [] then None else Some [(stream, mem_entries new)]),
           s\<lparr>mr_delivered := mr_delivered s + length new\<rparr>)),
     r_XAutoClaim = (\<lambda>n stream group consumer idle count s.
       (Inr (Some (mem_entries (take (nat count)
          (filter (\<lambda>(i, _). i \<notin> set (mr_acked s)) (take (mr_delivered s) (mr_main s)))))), s)),
     r_XAck = (\<lambda>n stream group i s. (Inr (), s\<lparr>mr_acked := mr_acked s @ [i]\<rparr>))\<rparr>"

section \<open>The JSON text of a message\<close>

definition quoted :: "string \<Rightarrow> string" where
  "quoted s = [CHR 0x22] @ s @ [CHR 0x22]"

definition sample_Marshal :: "JobRunMsg \<Rightarrow> string" where
  "sample_Marshal m = ''{'' @ quoted ''job_run_id'' @ '':'' @ quoted (msg_JobRunID m) @ '','' @
     quoted ''tenant_id'' @ '':'' @ quoted (msg_TenantID m) @ '','' @
     quoted ''idempotency_key'' @ '':'' @ quoted (msg_IdempotencyKey m) @ '','' @
     quoted ''attempts'' @ '':'' @ Itoa (msg_Attempts m) @ ''}''"

definition sample_Unmarshal :: "string \<Rightarrow> JobRunMsg option" where
  "sample_Unmarshal s =
     (case Split s (CHR 0x22) of
        [_, _, _, i, _, _, _, t, _, _, _, k, _, _, n] \<Rightarrow>
          map_option (\<lambda>a. \<lparr>msg_JobRunID = i, msg_TenantID = t, msg_IdempotencyKey = k, msg_Attempts = a\<rparr>)
            (Atoi (butlast (tl n)))
      | _ \<Rightarrow> None)"

lemma Split_quoted:
  "CHR 0x22 \<notin> set a \<Longrightarrow> CHR 0x22 \<notin> set b \<Longrightarrow>
   Split (a @ quoted b @ s) (CHR 0x22) = a # b # Split s (CHR 0x22)"
  by (simp add: quoted_def Split_append)

lemma sample_codec:
  assumes "CHR 0x22 \<notin> set (msg_JobRunID m)" "CHR 0x22 \<notin> set (msg_TenantID m)"
    "CHR 0x22 \<notin> set (msg_IdempotencyKey m)" "in_int64 (msg_Attempts m)"
  shows "sample_Unmarshal (sample_Marshal m) = Some m"
proof -
  have n: "CHR 0x22 \<notin> set ('':'' @ Itoa (msg_Attempts m) @ ''}'')"
    using Itoa_digits [of "CHR 0x22" "msg_Attempts m"] by (auto simp: is_digit_def byte_def)
  have "Split (sample_Marshal m) (CHR 0x22) =
      [''{'', ''job_run_id'', '':'', msg_JobRunID m, '','', ''tenant_id'', '':'', msg_TenantID m, '','',
       ''idempotency_key'', '':'', msg_IdempotencyKey m, '','', ''attempts'', '':'' @ Itoa (msg_Attempts m) @ ''}'']"
    unfolding sample_Marshal_def
    by (subst Split_quoted, simp, use assms in simp)+ (simp only: Split_no_sep [OF n])
  then show ?thesis
    using assms(4) by (simp add: sample_Unmarshal_def Atoi_Itoa butlast_append)
qed

section \<open>The environment\<close>

definition sample_quota :: Quota where
  "sample_quota = \<lparr>MaxJobsPerHour = 10, MaxActiveRecurring = 5, MaxConcurrentRuns = 2,
     MaxDailyLLMCostCents = 100\<rparr>"

definition sample_env :: "mem_redis env" where
  "sample_env = \<lparr>
     e_now = (\<lambda>n. (1767225600 + int n) * Second),
     e_NewV7 = (\<lambda>n. of_nat n + 1000),
     e_fault = (\<lambda>n. NoFault),
     e_tz = utc_zones,
     e_uuid = canonical_uuid,
     e_json = \<lparr>json_Unmarshal = (\<lambda>s. if s = ''{}'' then Some (JObj []) else None), fmt_q = quoted\<rparr>,
     e_msg = \<lparr>msg_Marshal = sample_Marshal, msg_Unmarshal = sample_Unmarshal\<rparr>,
     e_redis = mem_api,
     e_llm = (\<lambda>n timeout req. (Inr \<lparr>resp_Content = ''ok'', resp_InputTokens = 400, resp_OutputTokens = 300\<rparr>, False)),
     e_ctx_err = (\<lambda>n. None),
     e_sha256_hex = (\<lambda>s. ''e3b0c442''),
     e_quota_defaults = sample_quota\<rparr>"

lemma sample_env_sel:
  "e_now sample_env n = (1767225600 + int n) * Second" "e_NewV7 sample_env n = of_nat n + 1000"
  "e_fault sample_env n = NoFault" "e_tz sample_env = utc_zones" "e_uuid sample_env = canonical_uuid"
  "e_llm sample_env n timeout req =
     (Inr \<lparr>resp_Content = ''ok'', resp_InputTokens = 400, resp_OutputTokens = 300\<rparr>, False)"
  "e_redis sample_env = mem_api" "e_msg sample_env = \<lparr>msg_Marshal = sample_Marshal, msg_Unmarshal = sample_Unmarshal\<rparr>"
  "e_ctx_err sample_env n = None" "e_quota_defaults sample_env = sample_quota"
  by (simp_all add: sample_env_def)

definition empty_db :: database where
  "empty_db = \<lparr>d_jobs = [], d_runs = [], d_events = [], d_quotas = [], d_costs = [], d_idempotency = [],
     d_users = []\<rparr>"

definition start_world :: "database \<Rightarrow> mem_redis world" where
  "start_world d = \<lparr>w_db = d, w_redis = \<lparr>mr_main = [], mr_dlq = [], mr_delivered = 0, mr_acked = []\<rparr>,
     w_metrics = [], w_tick = 0\<rparr>"

definition sample_job :: "JobID \<Rightarrow> TenantID \<Rightarrow> JobRow" where
  "sample_job i t = \<lparr>jr_id = i, jr_tenant_id = t, jr_user_id = 7, jr_kind = KindOneOff,
     jr_description = ''report'', jr_interval_seconds = 0, jr_schedule_type = KindOneOff,
     jr_scheduled_at_utc = Some (1767225600 * Second), jr_recurrence_rule = None, jr_local_time = None,
     jr_timezone_id = ''UTC'', jr_original_user_text = None, jr_side_effecting = False,
     jr_idempotency_scope = ''job_run'', jr_parent_job_id = None, jr_trigger_on_parent_status = None,
     jr_job_type = JobTypeGenericLLM, jr_created_at = 1767225000 * Second,
     jr_updated_at = 1767225000 * Second\<rparr>"

definition sample_run :: "JobRunID \<Rightarrow> TenantID \<Rightarrow> JobID \<Rightarrow> int \<Rightarrow> Status \<Rightarrow> int \<Rightarrow> RunRow" where
  "sample_run i t j s st n = \<lparr>rr_id = i, rr_tenant_id = t, rr_job_id = j, rr_sequence = s, rr_status = st,
     rr_scheduled_at = 1767225600 * Second, rr_time_bucket = 1767225600, rr_attempts = n,
     rr_idempotency_key = idempotency_key canonical_uuid j s, rr_error_code = None, rr_error_message = None,
     rr_started_at = None, rr_completed_at = None, rr_failed_at = None,
     rr_created_at = 1767225000 * Second, rr_updated_at = 1767225000 * Second\<rparr>"

definition sample_db :: "Status \<Rightarrow> int \<Rightarrow> database" where
  "sample_db st n = empty_db\<lparr>d_jobs := [sample_job 11 1], d_runs := [sample_run 21 1 11 1 st n]\<rparr>"

end
