(* ===== verification/TaskStore.thy ===== *)
theory TaskStore
  imports Sqlc Sample
begin

text \<open>
  \<^verbatim>\<open>dto_internal.go\<close>, \<^verbatim>\<open>repo_postgres.go\<close>,
  \<^verbatim>\<open>repo_quota_postgres.go\<close> and \<^verbatim>\<open>idempotency_postgres.go\<close> of
  \<^verbatim>\<open>internal/task\<close>: the conversions between entities and rows and the repositories.
  A \<^verbatim>\<open>pgtype\<close> value is an \<^typ>\<open>'a option\<close>; \<^verbatim>\<open>Status(r.Status)\<close> and the
  like only change the Go type of a string, so a row holds the same value as the entity. An
  event payload is stored as the JSON value its bytes denote.
\<close>

section \<open>Rows and entities (dto_internal.go)\<close>

definition stringValue :: "string option \<Rightarrow> string" where
  "stringValue s = (case s of None \<Rightarrow> '''' | Some v \<Rightarrow> v)"

definition stringPtr :: "string \<Rightarrow> string option" where
  "stringPtr s = (if s = '''' then None else Some s)"

text \<open>The same two functions at the string type \<^verbatim>\<open>Status\<close>.\<close>

definition statusValue :: "Status option \<Rightarrow> Status" where
  "statusValue s = (case s of None \<Rightarrow> StatusOther '''' | Some v \<Rightarrow> v)"

definition statusPtr :: "Status \<Rightarrow> Status option" where
  "statusPtr s = (if s = StatusOther '''' then None else Some s)"

definition nullableTimeToPg :: "time \<Rightarrow> time option" where
  "nullableTimeToPg t = (if IsZero t then None else Some t)"

definition PgToTime :: "time option \<Rightarrow> time" where
  "PgToTime p = (case p of None \<Rightarrow> zero_time | Some t \<Rightarrow> t)"

definition rehydrateJob where
  "rehydrateJob i tenantID userID kind description interval scheduleType scheduledAtUTC
     recurrenceRule localTime timezoneID originalUserText sideEffecting idempotencyScope
     parentJobID triggerOnParentStatus jobType createdAt updatedAt = \<lparr>
     job_id = i,
     job_tenantID = tenantID,
     job_userID = userID,
     job_kind = kind,
     job_description = description,
     job_interval = interval,
     job_scheduleType = scheduleType,
     job_scheduledAtUTC = scheduledAtUTC,
     job_recurrenceRule = recurrenceRule,
     job_localTime = localTime,
     job_timezoneID = timezoneID,
     job_originalUserText = originalUserText,
     job_sideEffecting = sideEffecting,
     job_idempotencyScope = idempotencyScope,
     job_parentJobID = parentJobID,
     job_triggerOnParentStatus = triggerOnParentStatus,
     job_jobType = jobType,
     job_createdAt = createdAt,
     job_updatedAt = updatedAt\<rparr>"

definition jobFromSqlc :: "JobRow \<Rightarrow> Job" where
  "jobFromSqlc r = rehydrateJob (jr_id r) (jr_tenant_id r) (jr_user_id r) (jr_kind r)
     (jr_description r) (wrap64 (jr_interval_seconds r * Second)) (jr_schedule_type r)
     (PgToTime (jr_scheduled_at_utc r)) (stringValue (jr_recurrence_rule r))
     (stringValue (jr_local_time r)) (jr_timezone_id r) (stringValue (jr_original_user_text r))
     (jr_side_effecting r) (jr_idempotency_scope r) (jr_parent_job_id r)
     (statusValue (jr_trigger_on_parent_status r)) (jr_job_type r) (jr_created_at r) (jr_updated_at r)"

definition jobFromChildRow :: "JobRow \<Rightarrow> Job" where
  "jobFromChildRow r = rehydrateJob (jr_id r) (jr_tenant_id r) (jr_user_id r) (jr_kind r)
     (jr_description r) (wrap64 (jr_interval_seconds r * Second)) (jr_schedule_type r)
     (PgToTime (jr_scheduled_at_utc r)) (stringValue (jr_recurrence_rule r))
     (stringValue (jr_local_time r)) (jr_timezone_id r) (stringValue (jr_original_user_text r))
     (jr_side_effecting r) (jr_idempotency_scope r) (jr_parent_job_id r)
     (statusValue (jr_trigger_on_parent_status r)) (jr_job_type r) (jr_created_at r) (jr_updated_at r)"

definition jobToInsertParams :: "Job \<Rightarrow> JobRow" where
  "jobToInsertParams j = \<lparr>
     jr_id = job_id j,
     jr_tenant_id = job_tenantID j,
     jr_user_id = job_userID j,
     jr_kind = job_kind j,
     jr_description = job_description j,
     jr_interval_seconds = job_interval j sdiv Second,
     jr_schedule_type = job_scheduleType j,
     jr_scheduled_at_utc = nullableTimeToPg (job_scheduledAtUTC j),
     jr_recurrence_rule = stringPtr (job_recurrenceRule j),
     jr_local_time = stringPtr (job_localTime j),
     jr_timezone_id = job_timezoneID j,
     jr_original_user_text = stringPtr (job_originalUserText j),
     jr_side_effecting = job_sideEffecting j,
     jr_idempotency_scope = job_idempotencyScope j,
     jr_parent_job_id = job_parentJobID j,
     jr_trigger_on_parent_status = statusPtr (job_triggerOnParentStatus j),
     jr_job_type = job_jobType j,
     jr_created_at = job_createdAt j,
     jr_updated_at = job_updatedAt j\<rparr>"

definition rehydrateJobRun where
  "rehydrateJobRun i tenantID jobID sequence status scheduledAt timeBucket attempts idempotencyKey
     errorCode errorMsg startedAt completedAt failedAt createdAt updatedAt = \<lparr>
     run_id = i,
     run_tenantID = tenantID,
     run_jobID = jobID,
     run_sequence = sequence,
     run_status = status,
     run_scheduledAt = scheduledAt,
     run_timeBucket = timeBucket,
     run_attempts = attempts,
     run_errorCode = errorCode,
     run_errorMsg = errorMsg,
     run_startedAt = startedAt,
     run_completedAt = completedAt,
     run_failedAt = failedAt,
     run_createdAt = createdAt,
     run_updatedAt = updatedAt,
     run_scheduleType = KindOther '''',
     run_recurrenceRule = '''',
     run_localTime = '''',
     run_timezoneID = '''',
     run_idempotencyKey = idempotencyKey,
     run_parentJobID = None,
     run_childJobIDs = []\<rparr>"

text \<open>
  The five conversions of a run row differ only in the generated row type, which has the same
  columns for all of them.
\<close>

definition jobRunFromGetByIDRow :: "RunRow \<Rightarrow> JobRun" where
  "jobRunFromGetByIDRow r = rehydrateJobRun (rr_id r) (rr_tenant_id r) (rr_job_id r) (rr_sequence r)
     (rr_status r) (rr_scheduled_at r) (rr_time_bucket r) (rr_attempts r) (rr_idempotency_key r)
     (stringValue (rr_error_code r)) (stringValue (rr_error_message r)) (PgToTime (rr_started_at r))
     (PgToTime (rr_completed_at r)) (PgToTime (rr_failed_at r)) (rr_created_at r) (rr_updated_at r)"

definition jobRunFromListRow :: "RunRow \<Rightarrow> JobRun" where
  "jobRunFromListRow = jobRunFromGetByIDRow"

definition jobRunFromDueRow :: "RunRow \<Rightarrow> JobRun" where
  "jobRunFromDueRow = jobRunFromGetByIDRow"

definition jobRunFromCancelPendingRow :: "RunRow \<Rightarrow> JobRun" where
  "jobRunFromCancelPendingRow = jobRunFromGetByIDRow"

definition jobRunFromJobRow :: "RunRow \<Rightarrow> JobRun" where
  "jobRunFromJobRow = jobRunFromGetByIDRow"

definition jobRunToInsertParams :: "JobRun \<Rightarrow> RunRow" where
  "jobRunToInsertParams r = \<lparr>
     rr_id = run_id r,
     rr_tenant_id = run_tenantID r,
     rr_job_id = run_jobID r,
     rr_sequence = wrap32 (run_sequence r),
     rr_status = run_status r,
     rr_scheduled_at = run_scheduledAt r,
     rr_time_bucket = run_timeBucket r,
     rr_attempts = wrap32 (run_attempts r),
     rr_idempotency_key = run_idempotencyKey r,
     rr_error_code = stringPtr (run_errorCode r),
     rr_error_message = stringPtr (run_errorMsg r),
     rr_started_at = nullableTimeToPg (run_startedAt r),
     rr_completed_at = nullableTimeToPg (run_completedAt r),
     rr_failed_at = nullableTimeToPg (run_failedAt r),
     rr_created_at = run_createdAt r,
     rr_updated_at = run_updatedAt r\<rparr>"

definition jobRunToUpdateStatusParams :: "JobRun \<Rightarrow> UpdateJobRunStatusParams" where
  "jobRunToUpdateStatusParams r = \<lparr>
     us_Status = run_status r,
     us_Attempts = wrap32 (run_attempts r),
     us_ErrorCode = stringPtr (run_errorCode r),
     us_ErrorMessage = stringPtr (run_errorMsg r),
     us_StartedAt = nullableTimeToPg (run_startedAt r),
     us_CompletedAt = nullableTimeToPg (run_completedAt r),
     us_FailedAt = nullableTimeToPg (run_failedAt r),
     us_UpdatedAt = run_updatedAt r,
     us_ID = run_id r\<rparr>"

definition jobRunToInsertIfAbsentParams :: "JobRun \<Rightarrow> InsertJobRunIfAbsentParams" where
  "jobRunToInsertIfAbsentParams r = \<lparr>
     ia_ID = run_id r,
     ia_TenantID = run_tenantID r,
     ia_JobID = run_jobID r,
     ia_Sequence = wrap32 (run_sequence r),
     ia_ScheduledAt = run_scheduledAt r,
     ia_TimeBucket = run_timeBucket r,
     ia_IdempotencyKey = run_idempotencyKey r,
     ia_CreatedAt = run_createdAt r,
     ia_UpdatedAt = run_updatedAt r\<rparr>"

text \<open>
  \<^verbatim>\<open>payloadToJSON\<close> cannot fail on the strings and integers the program puts in a payload.
\<close>

definition payloadToJSON :: "payload \<Rightarrow> json" where
  "payloadToJSON p = (case p of None \<Rightarrow> JObj [] | Some ms \<Rightarrow> JObj ms)"

definition payloadFromJSON :: "json option \<Rightarrow> payload result" where
  "payloadFromJSON b = (case b of
       None \<Rightarrow> Inr None
     | Some (JObj ms) \<Rightarrow> Inr (Some ms)
     | Some JNull \<Rightarrow> Inr None
     | Some _ \<Rightarrow> Inl (Errorf ''decode event payload'' (ErrText ''json: cannot unmarshal'')))"

definition runEventToInsertParams :: "RunEvent \<Rightarrow> EventRow" where
  "runEventToInsertParams e = \<lparr>
     er_id = ev_id e,
     er_tenant_id = ev_tenantID e,
     er_job_id = ev_jobID e,
     er_job_run_id = ev_jobRunID e,
     er_status = ev_status e,
     er_event_type = ev_eventType e,
     er_event_payload = Some (payloadToJSON (ev_payload e)),
     er_created_at = ev_createdAt e\<rparr>"

definition runEventFromSqlc :: "EventRow \<Rightarrow> RunEvent result" where
  "runEventFromSqlc r = (case payloadFromJSON (er_event_payload r) of
       Inl e \<Rightarrow> Inl e
     | Inr p \<Rightarrow> Inr \<lparr>
         ev_id = er_id r,
         ev_tenantID = er_tenant_id r,
         ev_jobID = er_job_id r,
         ev_jobRunID = er_job_run_id r,
         ev_status = er_status r,
         ev_eventType = er_event_type r,
         ev_payload = p,
         ev_createdAt = er_created_at r\<rparr>)"

record NextRunSpec =
  ns_TenantID :: TenantID
  ns_JobID :: JobID
  ns_Sequence :: int
  ns_ScheduledAt :: time
  ns_TimezoneID :: string
  ns_RecurrenceRule :: string
  ns_LocalTime :: string

definition nextRunSpecFromSqlc :: "TerminalRow \<Rightarrow> NextRunSpec" where
  "nextRunSpecFromSqlc r = \<lparr>
     ns_TenantID = tr_tenant_id r,
     ns_JobID = tr_job_id r,
     ns_Sequence = tr_sequence r,
     ns_ScheduledAt = tr_scheduled_at r,
     ns_TimezoneID = tr_timezone_id r,
     ns_RecurrenceRule = stringValue (tr_recurrence_rule r),
     ns_LocalTime = stringValue (tr_local_time r)\<rparr>"

record IdempotencyRecord =
  rec_Key :: string
  rec_Handler :: string
  rec_Status :: string
  rec_ResponseHash :: string

section \<open>The run repository (repo_postgres.go)\<close>

definition map_result :: "('a \<Rightarrow> 'b) \<Rightarrow> 'a result \<Rightarrow> 'b result" where
  "map_result f r = (case r of Inl e \<Rightarrow> Inl e | Inr a \<Rightarrow> Inr (f a))"

definition SaveJob :: "'r env \<Rightarrow> Job \<Rightarrow> ('r, unit result) app" where
  "SaveJob E j = do {
     r \<leftarrow> db_exec E (InsertJob (jobToInsertParams j));
     State_Monad.return (wrap_err ''insert job'' r)
   }"

definition SaveRun :: "'r env \<Rightarrow> JobRun \<Rightarrow> ('r, unit result) app" where
  "SaveRun E run = do {
     r \<leftarrow> db_exec E (InsertJobRun (jobRunToInsertParams run));
     State_Monad.return (wrap_err ''insert job run'' r)
   }"

text \<open>Inside a transaction a lost reply is an error like any other.\<close>

definition CreateJobWithRun ::
  "'r env \<Rightarrow> Job \<Rightarrow> JobRun \<Rightarrow> RunEvent list \<Rightarrow> ('r, unit result) app" where
  "CreateJobWithRun E j run events =
     db_transaction E ''begin create job'' ''commit create job'' (do {
       r \<leftarrow> db_exec E (InsertJob (jobToInsertParams j));
       case r of
         Inl e \<Rightarrow> State_Monad.return (Inl (Errorf ''insert job'' e))
       | Inr _ \<Rightarrow> do {
           r \<leftarrow> db_exec E (InsertJobRun (jobRunToInsertParams run));
           case r of
             Inl e \<Rightarrow> State_Monad.return (Inl (Errorf ''insert job run'' e))
           | Inr _ \<Rightarrow> do {
               r \<leftarrow> for_each_err events (\<lambda>event. do {
                 r \<leftarrow> db_exec E (InsertRunEvent (runEventToInsertParams event));
                 State_Monad.return (wrap_err ''insert run event'' r)
               });
               case r of
                 Inl e \<Rightarrow> State_Monad.return (Inl e)
               | Inr _ \<Rightarrow> State_Monad.return (Inr (TxCommit ()))
             }
         }
     })"

definition UpdateRunStatus :: "'r env \<Rightarrow> JobRun \<Rightarrow> ('r, unit result) app" where
  "UpdateRunStatus E run = do {
     r \<leftarrow> db_exec E (UpdateJobRunStatus (jobRunToUpdateStatusParams run));
     case r of
       Inl e \<Rightarrow> State_Monad.return (Inl (Errorf ''update job run'' e))
     | Inr rows \<Rightarrow>
         State_Monad.return (if rows = 0 then Inl ErrJobRunNotFound else Inr ())
   }"

definition PersistRunTransition :: "'r env \<Rightarrow> JobRun \<Rightarrow> RunEvent \<Rightarrow> ('r, unit result) app" where
  "PersistRunTransition E run event =
     db_transaction E ''begin run transition'' ''commit run transition'' (do {
       r \<leftarrow> db_exec E (UpdateJobRunStatus (jobRunToUpdateStatusParams run));
       case r of
         Inl e \<Rightarrow> State_Monad.return (Inl (Errorf ''update job run transition'' e))
       | Inr rows \<Rightarrow>
           if rows = 0 then State_Monad.return (Inl ErrJobRunNotFound)
           else do {
             r \<leftarrow> db_exec E (InsertRunEvent (runEventToInsertParams event));
             case r of
               Inl e \<Rightarrow> State_Monad.return (Inl (Errorf ''insert run transition event'' e))
             | Inr _ \<Rightarrow> State_Monad.return (Inr (TxCommit ()))
           }
     })"

definition TryMarkRunRunning ::
  "'r env \<Rightarrow> JobRun \<Rightarrow> RunEvent \<Rightarrow> int \<Rightarrow> ('r, bool result) app" where
  "TryMarkRunRunning E run event limit =
     db_transaction E ''begin run slot claim'' ''commit run slot claim'' (do {
       r \<leftarrow> db_exec E (TryMarkJobRunRunning \<lparr>
         tm_TenantID = run_tenantID run,
         tm_StartedAt = run_startedAt run,
         tm_UpdatedAt = run_updatedAt run,
         tm_ID = run_id run,
         tm_RunLimit = limit\<rparr>);
       case r of
         Inl e \<Rightarrow> State_Monad.return (Inl (Errorf ''try mark job run running'' e))
       | Inr acquired \<Rightarrow>
           if \<not> acquired then State_Monad.return (Inr (TxReturn False))
           else do {
             r \<leftarrow> db_exec E (InsertRunEvent (runEventToInsertParams event));
             case r of
               Inl e \<Rightarrow> State_Monad.return (Inl (Errorf ''insert job run started event'' e))
             | Inr _ \<Rightarrow> State_Monad.return (Inr (TxCommit acquired))
           }
     })"

definition FindRunByID :: "'r env \<Rightarrow> JobRunID \<Rightarrow> ('r, JobRun result) app" where
  "FindRunByID E i = do {
     r \<leftarrow> db_exec E (GetJobRunByID i);
     State_Monad.return (case r of
         Inl e \<Rightarrow> if err_is e ErrNoRows then Inl ErrJobRunNotFound else Inl (Errorf ''query job run'' e)
       | Inr row \<Rightarrow> Inr (jobRunFromGetByIDRow row))
   }"

definition ListRuns :: "'r env \<Rightarrow> TenantID \<Rightarrow> Pagination \<Rightarrow> ('r, (JobRun list \<times> int) result) app" where
  "ListRuns E tenantID p = do {
     r \<leftarrow> db_exec E (ListJobRuns tenantID (wrap32 (p_Offset p)) (wrap32 (p_Limit p)));
     case r of
       Inl e \<Rightarrow> State_Monad.return (Inl (Errorf ''list job runs'' e))
     | Inr rows \<Rightarrow> do {
         r \<leftarrow> db_exec E (CountJobRuns tenantID);
         State_Monad.return (case r of
             Inl e \<Rightarrow> Inl (Errorf ''count job runs'' e)
           | Inr cnt \<Rightarrow> Inr (map jobRunFromListRow rows, cnt))
       }
   }"

definition ListRunsByJob ::
  "'r env \<Rightarrow> TenantID \<Rightarrow> JobID \<Rightarrow> Pagination \<Rightarrow> ('r, (JobRun list \<times> int) result) app" where
  "ListRunsByJob E tenantID jobID p = do {
     r \<leftarrow> db_exec E (ListJobRunsByJob tenantID jobID (wrap32 (p_Offset p)) (wrap32 (p_Limit p)));
     case r of
       Inl e \<Rightarrow> State_Monad.return (Inl (Errorf ''list job runs by job'' e))
     | Inr rows \<Rightarrow> do {
         r \<leftarrow> db_exec E (CountJobRunsByJob tenantID jobID);
         State_Monad.return (case r of
             Inl e \<Rightarrow> Inl (Errorf ''count job runs by job'' e)
           | Inr cnt \<Rightarrow> Inr (map jobRunFromJobRow rows, cnt))
       }
   }"

definition AppendEvent :: "'r env \<Rightarrow> RunEvent \<Rightarrow> ('r, unit result) app" where
  "AppendEvent E e = do {
     r \<leftarrow> db_exec E (InsertRunEvent (runEventToInsertParams e));
     State_Monad.return (wrap_err ''insert run event'' r)
   }"

fun events_from_rows :: "EventRow list \<Rightarrow> RunEvent list result" where
  "events_from_rows [] = Inr []"
| "events_from_rows (row # rows) = (case runEventFromSqlc row of
       Inl e \<Rightarrow> Inl e
     | Inr event \<Rightarrow> (case events_from_rows rows of Inl e \<Rightarrow> Inl e | Inr out \<Rightarrow> Inr (event # out)))"

definition ListEvents :: "'r env \<Rightarrow> TenantID \<Rightarrow> JobRunID \<Rightarrow> ('r, RunEvent list result) app" where
  "ListEvents E tenantID runID = do {
     r \<leftarrow> db_exec E (ListRunEventsByRun tenantID runID);
     State_Monad.return (case r of
         Inl e \<Rightarrow> Inl (Errorf ''list run events'' e)
       | Inr rows \<Rightarrow> events_from_rows rows)
   }"

definition FindDueRuns :: "'r env \<Rightarrow> int \<Rightarrow> time \<Rightarrow> int \<Rightarrow> ('r, JobRun list result) app" where
  "FindDueRuns E bucket before limit = do {
     r \<leftarrow> db_exec E (FindDueJobRuns bucket before limit);
     State_Monad.return (wrap_err ''find due job runs'' (map_result (map jobRunFromDueRow) r))
   }"

definition FindJob :: "'r env \<Rightarrow> JobID \<Rightarrow> ('r, Job result) app" where
  "FindJob E i = do {
     r \<leftarrow> db_exec E (GetJobByID i);
     State_Monad.return (case r of
         Inl e \<Rightarrow> if err_is e ErrNoRows then Inl ErrJobNotFound else Inl (Errorf ''query job'' e)
       | Inr row \<Rightarrow> Inr (jobFromSqlc row))
   }"

definition CancelPendingRunsByJob ::
  "'r env \<Rightarrow> TenantID \<Rightarrow> JobID \<Rightarrow> ('r, JobRun list result) app" where
  "CancelPendingRunsByJob E tenantID jobID = do {
     now \<leftarrow> time_Now E;
     r \<leftarrow> db_exec E (CancelPendingJobRuns now now tenantID jobID);
     State_Monad.return
       (wrap_err ''cancel pending job runs'' (map_result (map jobRunFromCancelPendingRow) r))
   }"

definition FindChildren :: "'r env \<Rightarrow> JobID \<Rightarrow> Status \<Rightarrow> ('r, Job list result) app" where
  "FindChildren E jobID status = do {
     r \<leftarrow> db_exec E (FindChildJobs jobID (statusPtr status));
     State_Monad.return (wrap_err ''find child jobs'' (map_result (map jobFromChildRow) r))
   }"

definition InsertRunIfAbsent :: "'r env \<Rightarrow> JobRun \<Rightarrow> ('r, bool result) app" where
  "InsertRunIfAbsent E run = do {
     r \<leftarrow> db_exec E (InsertJobRunIfAbsent (jobRunToInsertIfAbsentParams run));
     State_Monad.return (wrap_err ''insert job run if absent'' (map_result (\<lambda>rows. rows > 0) r))
   }"

definition FindTerminalRecurringRuns ::
  "'r env \<Rightarrow> time \<Rightarrow> int \<Rightarrow> ('r, NextRunSpec list result) app" where
  "FindTerminalRecurringRuns E since limit = do {
     r \<leftarrow> db_exec E (ListTerminalRecurringRuns since limit);
     State_Monad.return
       (wrap_err ''list terminal recurring runs'' (map_result (map nextRunSpecFromSqlc) r))
   }"

section \<open>The quota repository (repo_quota_postgres.go)\<close>

definition quota_Get :: "'r env \<Rightarrow> TenantID \<Rightarrow> ('r, Quota result) app" where
  "quota_Get E tenantID = do {
     r \<leftarrow> db_exec E (GetTenantQuota tenantID);
     State_Monad.return (case r of
         Inl e \<Rightarrow> if err_is e ErrNoRows then Inr (e_quota_defaults E)
                  else Inl (Errorf ''get tenant quota'' e)
       | Inr row \<Rightarrow> Inr \<lparr>
           MaxJobsPerHour = qr_max_jobs_per_hour row,
           MaxActiveRecurring = qr_max_active_recurring_jobs row,
           MaxConcurrentRuns = qr_max_concurrent_runs row,
           MaxDailyLLMCostCents = qr_max_daily_llm_cost_cents row\<rparr>)
   }"

definition quota_CountJobsSince :: "'r env \<Rightarrow> TenantID \<Rightarrow> time \<Rightarrow> ('r, int result) app" where
  "quota_CountJobsSince E tenantID since = do {
     r \<leftarrow> db_exec E (CountJobsCreatedSince tenantID since);
     State_Monad.return (wrap_err ''count jobs created since'' r)
   }"

definition quota_CountActiveRecurring :: "'r env \<Rightarrow> TenantID \<Rightarrow> ('r, int result) app" where
  "quota_CountActiveRecurring E tenantID = do {
     r \<leftarrow> db_exec E (CountActiveRecurringJobs tenantID);
     State_Monad.return (wrap_err ''count active recurring jobs'' r)
   }"

definition quota_CountActiveRuns :: "'r env \<Rightarrow> TenantID \<Rightarrow> ('r, int result) app" where
  "quota_CountActiveRuns E tenantID = do {
     r \<leftarrow> db_exec E (CountActiveRuns tenantID);
     State_Monad.return (wrap_err ''count active runs'' r)
   }"

text \<open>\<^verbatim>\<open>Format(time.DateOnly)\<close> of a UTC time.\<close>

definition Format_DateOnly :: "time \<Rightarrow> string" where
  "Format_DateOnly t =
     (let l = Unix t; y = Year l
      in (if 0 \<le> y \<and> y < 10000 then two_digits (y div 100) @ two_digits (y mod 100) else Itoa y) @
         ''-'' @ two_digits (Month l) @ ''-'' @ two_digits (Day l))"

definition ReserveDailyCost :: "'r env \<Rightarrow> TenantID \<Rightarrow> int \<Rightarrow> int \<Rightarrow> ('r, bool result) app" where
  "ReserveDailyCost E tenantID costCents limitCents =
     (if costCents > limitCents then State_Monad.return (Inr False)
      else do {
        now \<leftarrow> time_Now E;
        r \<leftarrow> db_exec E (ReserveDailyLLMCost tenantID (Format_DateOnly now) (wrap32 costCents)
                          (wrap32 limitCents));
        State_Monad.return (case r of
            Inl e \<Rightarrow> if err_is e ErrNoRows then Inr False
                     else Inl (Errorf ''reserve daily llm cost'' e)
          | Inr _ \<Rightarrow> Inr True)
      })"

definition AdjustDailyCost :: "'r env \<Rightarrow> TenantID \<Rightarrow> int \<Rightarrow> ('r, unit result) app" where
  "AdjustDailyCost E tenantID deltaCents =
     (if deltaCents = 0 then State_Monad.return (Inr ())
      else do {
        now \<leftarrow> time_Now E;
        r \<leftarrow> db_exec E (AdjustDailyLLMCost (wrap32 deltaCents) tenantID (Format_DateOnly now));
        State_Monad.return (wrap_err ''adjust daily llm cost'' r)
      })"

section \<open>The idempotency store (idempotency_postgres.go)\<close>

definition idem_Lookup :: "'r env \<Rightarrow> string \<Rightarrow> ('r, IdempotencyRecord option result) app" where
  "idem_Lookup E key = do {
     r \<leftarrow> db_exec E (GetIdempotency key);
     State_Monad.return (case r of
         Inl e \<Rightarrow> if err_is e ErrNoRows then Inr None
                  else Inl (Errorf ''get idempotency record'' e)
       | Inr row \<Rightarrow> Inr (Some \<lparr>
           rec_Key = ir_idempotency_key row,
           rec_Handler = ir_handler_name row,
           rec_Status = ir_status row,
           rec_ResponseHash = stringValue (ir_response_hash row)\<rparr>))
   }"

definition idem_Begin :: "'r env \<Rightarrow> string \<Rightarrow> string \<Rightarrow> JobRunID \<Rightarrow> ('r, bool result) app" where
  "idem_Begin E key handler runID = do {
     now \<leftarrow> time_Now E;
     r \<leftarrow> db_exec E (BeginIdempotency key runID handler now now);
     State_Monad.return (wrap_err ''begin idempotency'' (map_result (\<lambda>rows. rows = 1) r))
   }"

definition idem_Complete :: "'r env \<Rightarrow> string \<Rightarrow> string \<Rightarrow> ('r, unit result) app" where
  "idem_Complete E key responseHash = do {
     now \<leftarrow> time_Now E;
     r \<leftarrow> db_exec E (CompleteIdempotency (stringPtr responseHash) now key);
     State_Monad.return (case r of
         Inl e \<Rightarrow> Inl (Errorf ''complete idempotency'' e)
       | Inr rows \<Rightarrow>
           if rows = 0 then Inl (ErrText ''complete idempotency: record not found'') else Inr ())
   }"

section \<open>Relations kept by the repositories\<close>

lemmas repo_defs =
  SaveJob_def SaveRun_def CreateJobWithRun_def UpdateRunStatus_def PersistRunTransition_def
  TryMarkRunRunning_def FindRunByID_def ListRuns_def ListRunsByJob_def AppendEvent_def ListEvents_def
  FindDueRuns_def FindJob_def CancelPendingRunsByJob_def FindChildren_def InsertRunIfAbsent_def
  FindTerminalRecurringRuns_def
  quota_Get_def quota_CountJobsSince_def quota_CountActiveRecurring_def quota_CountActiveRuns_def
  ReserveDailyCost_def AdjustDailyCost_def idem_Lookup_def idem_Begin_def idem_Complete_def

text \<open>Operations that only read respect every relation.\<close>

context db_evolution
begin

lemma reading:
  "state_io_rel (on_db R) (FindRunByID E i)"
  "state_io_rel (on_db R) (ListRuns E t p)"
  "state_io_rel (on_db R) (ListRunsByJob E t j p)"
  "state_io_rel (on_db R) (ListEvents E t i)"
  "state_io_rel (on_db R) (FindDueRuns E b due l)"
  "state_io_rel (on_db R) (FindJob E i)"
  "state_io_rel (on_db R) (FindChildren E i s)"
  "state_io_rel (on_db R) (FindTerminalRecurringRuns E since l)"
  "state_io_rel (on_db R) (quota_Get E t)"
  "state_io_rel (on_db R) (quota_CountJobsSince E t since)"
  "state_io_rel (on_db R) (quota_CountActiveRecurring E t)"
  "state_io_rel (on_db R) (quota_CountActiveRuns E t)"
  "state_io_rel (on_db R) (idem_Lookup E key)"
  unfolding repo_defs by (intro db_intros; simp add: statement_reads db_refl)+

end

context event_statements
begin

lemma appending: "state_io_rel (on_db R) (AppendEvent E ev)"
  unfolding repo_defs by (intro db_intros; simp add: InsertRunEvent)

lemmas event_intros = reading appending db_intros

end

context child_statements
begin

lemma saving: "run_status run \<noteq> StatusRunning \<Longrightarrow> state_io_rel (on_db R) (SaveRun E run)"
  unfolding repo_defs by (intro db_intros; simp add: InsertJobRun jobRunToInsertParams_def)

lemmas child_intros = saving event_intros

end

context claiming_statements
begin

lemma claiming: "state_io_rel (on_db R) (TryMarkRunRunning E run ev limit)"
  unfolding repo_defs by (intro db_intros; simp add: InsertRunEvent TryMarkJobRunRunning)

end

context llm_statements
begin

lemma llm_writing:
  "state_io_rel (on_db R) (AppendEvent E ev)"
  "state_io_rel (on_db R) (ReserveDailyCost E t cost limit)"
  "state_io_rel (on_db R) (AdjustDailyCost E t delta)"
  unfolding repo_defs
  by (intro db_intros; simp add: InsertRunEvent ReserveDailyLLMCost AdjustDailyLLMCost)+

lemmas llm_intros = reading llm_writing db_intros

end

context side_statements
begin

lemma side_writing:
  "state_io_rel (on_db R) (idem_Begin E key h i)"
  "state_io_rel (on_db R) (idem_Complete E key hash)"
  unfolding repo_defs by (intro db_intros; simp add: side_writes)+

lemmas side_intros = side_writing llm_intros

end

context guarded_statements
begin

lemma guarded_writing:
  "state_io_rel (on_db R) (SaveJob E j)"
  "run_status run \<noteq> StatusRunning \<Longrightarrow> state_io_rel (on_db R) (CreateJobWithRun E j run events)"
  "state_io_rel (on_db R) (CancelPendingRunsByJob E t i)"
  "state_io_rel (on_db R) (InsertRunIfAbsent E run)"
  unfolding repo_defs by (intro db_intros; simp add: guarded_writes jobRunToInsertParams_def)+

lemmas guarded_intros = guarded_writing saving side_intros

end

context status_statements
begin

lemma writing:
  "run_status run \<noteq> StatusRunning \<Longrightarrow> state_io_rel (on_db R) (UpdateRunStatus E run)"
  "run_status run \<noteq> StatusRunning \<Longrightarrow> state_io_rel (on_db R) (PersistRunTransition E run ev)"
  unfolding repo_defs
  by (intro db_intros; simp add: UpdateJobRunStatus InsertRunEvent jobRunToUpdateStatusParams_def)+

lemmas store_intros = writing guarded_intros

end

context statements
begin

lemma writing_any:
  "state_io_rel (on_db R) (UpdateRunStatus E run)"
  "state_io_rel (on_db R) (PersistRunTransition E run ev)"
  unfolding repo_defs by (intro db_intros; simp add: writes)+

end

section \<open>Rows carry the whole entity\<close>

lemma value_ptr [simp]: "stringValue (stringPtr s) = s" "statusValue (statusPtr st) = st"
  "PgToTime (nullableTimeToPg t) = t"
  by (simp_all add: stringValue_def stringPtr_def statusValue_def statusPtr_def PgToTime_def
      nullableTimeToPg_def IsZero_def)

text \<open>A run as the repository returns it: without the schedule and children of its job.\<close>

definition bare_run :: "JobRun \<Rightarrow> bool" where
  "bare_run r \<longleftrightarrow> run_scheduleType r = KindOther '''' \<and> run_recurrenceRule r = '''' \<and> run_localTime r = '''' \<and>
     run_timezoneID r = '''' \<and> run_parentJobID r = None \<and> run_childJobIDs r = [] \<and>
     in_int32 (run_sequence r) \<and> in_int32 (run_attempts r)"

lemma run_row_roundtrip: "bare_run r \<Longrightarrow> jobRunFromGetByIDRow (jobRunToInsertParams r) = r"
  by (cases r) (simp add: jobRunFromGetByIDRow_def rehydrateJobRun_def jobRunToInsertParams_def bare_run_def)

lemma run_row_fields [simp]:
  "run_id (jobRunFromGetByIDRow r) = rr_id r" "run_tenantID (jobRunFromGetByIDRow r) = rr_tenant_id r"
  "run_jobID (jobRunFromGetByIDRow r) = rr_job_id r" "run_sequence (jobRunFromGetByIDRow r) = rr_sequence r"
  "run_status (jobRunFromGetByIDRow r) = rr_status r" "run_attempts (jobRunFromGetByIDRow r) = rr_attempts r"
  "run_idempotencyKey (jobRunFromGetByIDRow r) = rr_idempotency_key r"
  "run_scheduledAt (jobRunFromGetByIDRow r) = rr_scheduled_at r"
  "run_timeBucket (jobRunFromGetByIDRow r) = rr_time_bucket r"
  by (simp_all add: jobRunFromGetByIDRow_def rehydrateJobRun_def)

lemma insert_params_fields [simp]:
  "rr_id (jobRunToInsertParams r) = run_id r" "rr_tenant_id (jobRunToInsertParams r) = run_tenantID r"
  "rr_job_id (jobRunToInsertParams r) = run_jobID r" "rr_sequence (jobRunToInsertParams r) = wrap32 (run_sequence r)"
  "rr_status (jobRunToInsertParams r) = run_status r" "rr_attempts (jobRunToInsertParams r) = wrap32 (run_attempts r)"
  "rr_idempotency_key (jobRunToInsertParams r) = run_idempotencyKey r"
  "rr_scheduled_at (jobRunToInsertParams r) = run_scheduledAt r"
  "rr_time_bucket (jobRunToInsertParams r) = run_timeBucket r"
  by (simp_all add: jobRunToInsertParams_def)

lemma update_params_fields [simp]:
  "us_ID (jobRunToUpdateStatusParams r) = run_id r" "us_Status (jobRunToUpdateStatusParams r) = run_status r"
  "us_Attempts (jobRunToUpdateStatusParams r) = wrap32 (run_attempts r)"
  by (simp_all add: jobRunToUpdateStatusParams_def)

lemma NewJobRun_bare: "NewJobRun U now i t j s due = Inr r \<Longrightarrow> in_int32 s \<Longrightarrow> bare_run r"
  by (auto simp: NewJobRun_def bare_run_def in_int32_def split: if_splits)

lemma interval_roundtrip:
  "0 \<le> k \<Longrightarrow> in_int64 (k * Second) \<Longrightarrow> wrap64 ((k * Second) sdiv Second * Second) = k * Second"
  by (cases "k = 0") (simp_all add: signed_divide_int_def Second_def)

lemma job_row_roundtrip:
  assumes "job_interval j = k * Second" "0 \<le> k" "in_int64 (job_interval j)"
  shows "jobFromSqlc (jobToInsertParams j) = j"
  using assms interval_roundtrip [of k]
  by (cases j) (simp add: jobFromSqlc_def rehydrateJob_def jobToInsertParams_def)

lemma event_row_roundtrip:
  "runEventFromSqlc (runEventToInsertParams e) =
     Inr (e\<lparr>ev_payload := Some (case ev_payload e of None \<Rightarrow> [] | Some ms \<Rightarrow> ms)\<rparr>)"
  by (cases e) (simp add: runEventFromSqlc_def runEventToInsertParams_def payloadFromJSON_def
      payloadToJSON_def split: option.split)

section \<open>Lookups and updates of one run\<close>

definition find_run :: "database \<Rightarrow> JobRunID \<Rightarrow> RunRow option" where
  "find_run d i = find (\<lambda>r. rr_id r = i) (d_runs d)"

definition reliable :: "'r env \<Rightarrow> bool" where
  "reliable E \<longleftrightarrow> (\<forall>n. e_fault E n = NoFault)"

lemma reliableD [simp]: "reliable E \<Longrightarrow> e_fault E n = NoFault"
  by (simp add: reliable_def)

lemma find_run_id: "find_run d i = Some r \<Longrightarrow> rr_id r = i \<and> r \<in> set (d_runs d)"
  unfolding find_run_def by (drule find_SomeD) simp

lemma find_run_count:
  "(find_run d i = None) = (filter (\<lambda>r. rr_id r = i) (d_runs d) = [])"
  by (auto simp: find_run_def find_None_iff filter_empty_conv)

lemma run_FindRunByID:
  "reliable E \<Longrightarrow> run_state (FindRunByID E i) w =
     ((case find_run (w_db w) i of None \<Rightarrow> Inl ErrJobRunNotFound | Some r \<Rightarrow> Inr (jobRunFromGetByIDRow r)),
      w\<lparr>w_tick := Suc (w_tick w)\<rparr>)"
  by (auto simp: FindRunByID_def run_db_exec GetJobRunByID_def find_run_def split: option.split)

lemma FindRunByID_id: "results (FindRunByID E i) (\<lambda>r. \<forall>run. r = Inr run \<longrightarrow> run_id run = i)"
  by (auto simp: results_def FindRunByID_def run_db_exec GetJobRunByID_def
      dest!: find_SomeD split: fault.split option.split)

lemma find_run_update:
  "find_run (snd (UpdateJobRunStatus a d)) i =
     (if i = us_ID a \<and> (find_run d i = None \<or> status_check (us_Status a))
      then map_option (set_run_status a) (find_run d i) else find_run d i)"
proof -
  have k: "rr_id (set_run_status a r) = rr_id r" for r by (simp add: set_run_status_def)
  have u: "find (\<lambda>r. rr_id r = i) (update_where (\<lambda>r. rr_id r = us_ID a) (set_run_status a) xs) =
      map_option (\<lambda>r. if rr_id r = us_ID a then set_run_status a r else r) (find (\<lambda>r. rr_id r = i) xs)" for xs
    by (rule find_update_where_key) (rule k)
  show ?thesis
  proof (cases "find_run d i")
    case None
    then show ?thesis using u by (auto simp: UpdateJobRunStatus_def Let_def find_run_def)
  next
    case (Some r)
    then have i: "rr_id r = i" "r \<in> set (d_runs d)" using find_run_id by auto
    then have "i = us_ID a \<Longrightarrow> filter (\<lambda>r. rr_id r = us_ID a) (d_runs d) \<noteq> []"
      by (auto simp: filter_empty_conv)
    then show ?thesis
      using u Some i by (auto simp: UpdateJobRunStatus_def Let_def find_run_def)
  qed
qed

section \<open>Transactions\<close>

text \<open>The database after both statements of a transition.\<close>

definition transition_db :: "JobRun \<Rightarrow> RunEvent \<Rightarrow> database \<Rightarrow> database" where
  "transition_db run ev d =
     snd (InsertRunEvent (runEventToInsertParams ev) (snd (UpdateJobRunStatus (jobRunToUpdateStatusParams run) d)))"

lemma InsertRunEvent_Inr:
  "fst (InsertRunEvent r d) = Inr () \<Longrightarrow> snd (InsertRunEvent r d) = d\<lparr>d_events := d_events d @ [r]\<rparr>"
  by (auto simp: InsertRunEvent_def split: if_splits)

lemma find_run_event [simp]: "find_run (snd (InsertRunEvent e d)) i = find_run d i"
  by (simp add: find_run_def InsertRunEvent_def)

definition transition_ok :: "JobRun \<Rightarrow> RunEvent \<Rightarrow> database \<Rightarrow> bool" where
  "transition_ok run ev d \<longleftrightarrow>
     (\<exists>n. fst (UpdateJobRunStatus (jobRunToUpdateStatusParams run) d) = Inr n \<and> n \<noteq> 0) \<and>
     fst (InsertRunEvent (runEventToInsertParams ev)
       (snd (UpdateJobRunStatus (jobRunToUpdateStatusParams run) d))) = Inr ()"

lemma run_PersistRunTransition:
  assumes "run_state (PersistRunTransition E run ev) w = (r, w')"
  shows "(w_db w' = w_db w \<and> (\<exists>e. r = Inl e)) \<or>
    (w_db w' = transition_db run ev (w_db w) \<and> transition_ok run ev (w_db w))"
  using assms
  by (auto simp: PersistRunTransition_def db_transaction_def run_prims transition_db_def transition_ok_def
      split: fault.splits sum.splits if_splits)

lemma filter_update_other:
  "(\<And>x. P x \<Longrightarrow> \<not> Q x \<and> \<not> Q (f x)) \<Longrightarrow> filter Q (update_where P f xs) = filter Q xs"
  by (induction xs) (auto simp: update_where_def)

lemma transition_effect:
  assumes "transition_ok run ev d"
  shows "\<exists>row. find_run d (run_id run) = Some row \<and>
      find_run (transition_db run ev d) (run_id run) =
        Some (set_run_status (jobRunToUpdateStatusParams run) row)"
    and "d_events (transition_db run ev d) = d_events d @ [runEventToInsertParams ev]"
    and "i \<noteq> run_id run \<Longrightarrow> find_run (transition_db run ev d) i = find_run d i"
    and "filter (\<lambda>r. rr_id r \<noteq> run_id run) (d_runs (transition_db run ev d)) =
      filter (\<lambda>r. rr_id r \<noteq> run_id run) (d_runs d)"
    and "d_jobs (transition_db run ev d) = d_jobs d"
proof -
  let ?u = "UpdateJobRunStatus (jobRunToUpdateStatusParams run)"
  let ?n = "length (filter (\<lambda>r. rr_id r = run_id run) (d_runs d))"
  obtain n where n: "fst (?u d) = Inr n" "n \<noteq> 0"
    and ev: "fst (InsertRunEvent (runEventToInsertParams ev) (snd (?u d))) = Inr ()"
    using assms by (auto simp: transition_ok_def)
  have found: "find_run d (run_id run) \<noteq> None" and st: "status_check (run_status run)"
    using n by (auto simp: UpdateJobRunStatus_def Let_def find_run_count split: if_splits)
  show "\<exists>row. find_run d (run_id run) = Some row \<and>
      find_run (transition_db run ev d) (run_id run) =
        Some (set_run_status (jobRunToUpdateStatusParams run) row)"
    using found st by (auto simp: transition_db_def find_run_update)
  have "d_events (snd (?u d)) = d_events d" "d_jobs (snd (?u d)) = d_jobs d"
    by (simp_all add: UpdateJobRunStatus_def Let_def)
  then show "d_events (transition_db run ev d) = d_events d @ [runEventToInsertParams ev]"
    "d_jobs (transition_db run ev d) = d_jobs d"
    using InsertRunEvent_Inr [OF ev] by (simp_all add: transition_db_def)
  show "find_run (transition_db run ev d) i = find_run d i" if "i \<noteq> run_id run"
    using that by (simp add: transition_db_def find_run_update)
  have "filter (\<lambda>r. rr_id r \<noteq> run_id run) (d_runs (snd (?u d))) = filter (\<lambda>r. rr_id r \<noteq> run_id run) (d_runs d)"
    by (simp add: UpdateJobRunStatus_def Let_def filter_update_other set_run_status_def)
  then show "filter (\<lambda>r. rr_id r \<noteq> run_id run) (d_runs (transition_db run ev d)) =
      filter (\<lambda>r. rr_id r \<noteq> run_id run) (d_runs d)"
    by (simp add: transition_db_def InsertRunEvent_def)
qed

text \<open>The statement that claims a slot for a run, and the database after the claim.\<close>

definition claim_params :: "JobRun \<Rightarrow> int \<Rightarrow> TryMarkJobRunRunningParams" where
  "claim_params run limit = \<lparr>tm_TenantID = run_tenantID run, tm_StartedAt = run_startedAt run,
     tm_UpdatedAt = run_updatedAt run, tm_ID = run_id run, tm_RunLimit = limit\<rparr>"

definition claim_db :: "JobRun \<Rightarrow> RunEvent \<Rightarrow> int \<Rightarrow> database \<Rightarrow> database" where
  "claim_db run ev limit d =
     snd (InsertRunEvent (runEventToInsertParams ev) (snd (TryMarkJobRunRunning (claim_params run limit) d)))"

lemma run_TryMarkRunRunning:
  assumes "run_state (TryMarkRunRunning E run ev limit) w = (r, w')"
  shows "case r of
      Inr True \<Rightarrow> w_db w' = claim_db run ev limit (w_db w) \<and>
        fst (TryMarkJobRunRunning (claim_params run limit) (w_db w)) = Inr True \<and>
        fst (InsertRunEvent (runEventToInsertParams ev)
          (snd (TryMarkJobRunRunning (claim_params run limit) (w_db w)))) = Inr ()
    | Inr False \<Rightarrow> w_db w' = w_db w
    | Inl _ \<Rightarrow> w_db w' = w_db w \<or> w_db w' = claim_db run ev limit (w_db w) \<and>
        fst (TryMarkJobRunRunning (claim_params run limit) (w_db w)) = Inr True"
  using assms
  by (auto simp: TryMarkRunRunning_def db_transaction_def run_prims claim_db_def claim_params_def
      split: fault.splits sum.splits if_splits bool.splits)

definition create_db :: "Job \<Rightarrow> JobRun \<Rightarrow> RunEvent list \<Rightarrow> database \<Rightarrow> database" where
  "create_db j run evs d =
     d\<lparr>d_jobs := d_jobs d @ [jobToInsertParams j], d_runs := d_runs d @ [jobRunToInsertParams run],
       d_events := d_events d @ map runEventToInsertParams evs\<rparr>"

lemma InsertJob_Inr: "fst (InsertJob r d) = Inr () \<Longrightarrow> snd (InsertJob r d) = d\<lparr>d_jobs := d_jobs d @ [r]\<rparr>"
  by (auto simp: InsertJob_def split: if_splits option.splits)

lemma InsertJobRun_Inr:
  "fst (InsertJobRun r d) = Inr () \<Longrightarrow> snd (InsertJobRun r d) = d\<lparr>d_runs := d_runs d @ [r]\<rparr>"
  by (auto simp: InsertJobRun_def split: option.splits)

lemma run_insert_events:
  assumes "run_state (for_each_err evs (\<lambda>event. do {
      r \<leftarrow> db_exec E (InsertRunEvent (runEventToInsertParams event));
      State_Monad.return (wrap_err ''insert run event'' r) })) w = (Inr (), w')"
  shows "w_db w' = (w_db w)\<lparr>d_events := d_events (w_db w) @ map runEventToInsertParams evs\<rparr>"
  using assms
proof (induction evs arbitrary: w)
  case (Cons ev evs)
  let ?s = "InsertRunEvent (runEventToInsertParams ev)"
  have "fst (?s (w_db w)) = Inr () \<and> e_fault E (w_tick w) = NoFault"
    using Cons.prems by (auto simp: run_db_exec split: fault.splits sum.splits)
  moreover from this have
    "run_state (for_each_err evs (\<lambda>event. do {
      r \<leftarrow> db_exec E (InsertRunEvent (runEventToInsertParams event));
      State_Monad.return (wrap_err ''insert run event'' r) }))
      (w\<lparr>w_tick := Suc (w_tick w), w_db := snd (?s (w_db w))\<rparr>) = (Inr (), w')"
    using Cons.prems by (auto simp: run_db_exec split: fault.splits sum.splits)
  ultimately show ?case
    using Cons.IH [of "w\<lparr>w_tick := Suc (w_tick w), w_db := snd (?s (w_db w))\<rparr>"]
      InsertRunEvent_Inr [of "runEventToInsertParams ev" "w_db w"] by simp
qed simp

lemma run_CreateJobWithRun:
  assumes "run_state (CreateJobWithRun E j run evs) w = (r, w')"
  shows "case r of Inr _ \<Rightarrow> w_db w' = create_db j run evs (w_db w)
    | Inl _ \<Rightarrow> w_db w' = w_db w \<or> w_db w' = create_db j run evs (w_db w)"
proof -
  let ?j = "InsertJob (jobToInsertParams j)" and ?r = "InsertJobRun (jobRunToInsertParams run)"
  let ?loop = "for_each_err evs (\<lambda>event. do {
      r \<leftarrow> db_exec E (InsertRunEvent (runEventToInsertParams event));
      State_Monad.return (wrap_err ''insert run event'' r) })"
  have all: "w_db w2 = create_db j run evs (w_db w)"
    if "fst (?j (w_db w)) = Inr ()" "fst (?r (snd (?j (w_db w)))) = Inr ()"
      "run_state ?loop w1 = (Inr (), w2)" "w_db w1 = snd (?r (snd (?j (w_db w))))" for w1 w2 :: "'a world"
    using that run_insert_events [OF that(3)] InsertJob_Inr [OF that(1)] InsertJobRun_Inr [OF that(2)]
    by (simp add: create_db_def)
  show ?thesis
    using assms all
    by (fastforce simp: CreateJobWithRun_def db_transaction_def run_prims
        split: fault.splits sum.splits prod.splits)
qed

lemma CreateJobWithRun_reliable:
  "reliable E \<Longrightarrow> run_state (CreateJobWithRun E j run evs) w = (Inl e, w') \<Longrightarrow> w_db w' = w_db w"
  by (auto simp: CreateJobWithRun_def db_transaction_def run_prims split: sum.splits prod.splits)

section \<open>Concurrency slots and daily cost\<close>

lemma length_filter_update_one:
  assumes "distinct (map k xs)" "x \<in> set xs" "\<And>y. P y \<Longrightarrow> k y = k x" "P x" "\<not> Q x"
  shows "length (filter Q (update_where P f xs)) = length (filter Q xs) + (if Q (f x) then 1 else 0)"
  using assms(1,2)
proof (induction xs)
  case (Cons y ys)
  show ?case
  proof (cases "x = y")
    case True
    then have "k x \<notin> k ` set ys" using Cons.prems by simp
    then have "\<not> P z" if "z \<in> set ys" for z using assms(3) [of z] that by (metis image_eqI)
    then have "update_where P f ys = ys" by (auto simp: update_where_def intro: map_idI)
    then show ?thesis using True assms(4,5) by (simp add: update_where_def)
  next
    case False
    with Cons.prems have "k y \<noteq> k x" by (auto simp: image_iff)
    then have "\<not> P y" using assms(3) [of y] by auto
    then show ?thesis using False Cons by (simp add: update_where_def)
  qed
qed simp

lemma length_filter_update_same:
  "(\<And>x. P x \<Longrightarrow> Q (f x) = Q x) \<Longrightarrow> length (filter Q (update_where P f xs)) = length (filter Q xs)"
  by (induction xs) (auto simp: update_where_def)

definition running_count :: "database \<Rightarrow> TenantID \<Rightarrow> nat" where
  "running_count d t = length (running_runs t d)"

lemma running_count_event [simp]:
  "running_count (snd (InsertRunEvent e d)) t = running_count d t"
  by (simp add: running_count_def running_runs_def InsertRunEvent_def)

lemma claim_counts:
  assumes wf: "db_wf d" and row: "find_run d (tm_ID a) = Some row" "rr_tenant_id row = tm_TenantID a"
    and ok: "fst (TryMarkJobRunRunning a d) = Inr True"
  shows "int (running_count (snd (TryMarkJobRunRunning a d)) t) =
      int (running_count d t) + (if t = tm_TenantID a then 1 else 0)"
    and "int (running_count d (tm_TenantID a)) < tm_RunLimit a"
    and "rr_status row = StatusQueued \<or> rr_status row = StatusRetry"
proof -
  have dist: "distinct (map rr_id (d_runs d))" using wf by (simp add: db_wf_def)
  have row': "row \<in> set (d_runs d)" "rr_id row = tm_ID a" using find_run_id [OF row(1)] by auto
  obtain r where r: "r \<in> set (d_runs d)" "rr_id r = tm_ID a"
    "rr_status r = StatusQueued \<or> rr_status r = StatusRetry"
    and lim: "int (length (running_runs (tm_TenantID a) d)) < tm_RunLimit a"
    using ok by (auto simp: TryMarkJobRunRunning_def Let_def)
  have "r = row" using distinct_key_eq [OF dist r(1) row'(1)] r row' by simp
  with r show st: "rr_status row = StatusQueued \<or> rr_status row = StatusRetry" by simp
  from lim show "int (running_count d (tm_TenantID a)) < tm_RunLimit a" by (simp add: running_count_def)
  let ?hit = "\<lambda>r. rr_id r = tm_ID a \<and> (rr_status r = StatusQueued \<or> rr_status r = StatusRetry) \<and>
    int (length (running_runs (tm_TenantID a) d)) < tm_RunLimit a"
  let ?f = "\<lambda>r. r\<lparr>rr_status := StatusRunning, rr_started_at := Some (tm_StartedAt a), rr_updated_at := tm_UpdatedAt a\<rparr>"
  have "length (filter (\<lambda>r. rr_tenant_id r = t \<and> rr_status r = StatusRunning) (update_where ?hit ?f (d_runs d))) =
      length (filter (\<lambda>r. rr_tenant_id r = t \<and> rr_status r = StatusRunning) (d_runs d)) +
      (if rr_tenant_id (?f row) = t \<and> rr_status (?f row) = StatusRunning then 1 else 0)"
    by (rule length_filter_update_one [OF dist row'(1)]) (use row' st lim in auto)
  then show "int (running_count (snd (TryMarkJobRunRunning a d)) t) =
      int (running_count d t) + (if t = tm_TenantID a then 1 else 0)"
    using row(2) by (auto simp: running_count_def running_runs_def TryMarkJobRunRunning_def Let_def)
qed

lemma find_run_claim:
  "find_run (snd (TryMarkJobRunRunning a d)) i =
     map_option (\<lambda>r. if rr_id r = tm_ID a \<and> (rr_status r = StatusQueued \<or> rr_status r = StatusRetry) \<and>
         int (running_count d (tm_TenantID a)) < tm_RunLimit a
       then r\<lparr>rr_status := StatusRunning, rr_started_at := Some (tm_StartedAt a), rr_updated_at := tm_UpdatedAt a\<rparr>
       else r) (find_run d i)"
  unfolding TryMarkJobRunRunning_def Let_def find_run_def running_count_def
  by (simp add: find_update_where_key)

definition daily_cost :: "database \<Rightarrow> TenantID \<Rightarrow> string \<Rightarrow> int" where
  "daily_cost d t date = (case find (cost_key t date) (d_costs d) of None \<Rightarrow> 0 | Some r \<Rightarrow> cr_cost_cents r)"

lemma find_cost_update:
  "(\<And>r. cr_tenant_id (f r) = cr_tenant_id r \<and> cr_cost_date (f r) = cr_cost_date r) \<Longrightarrow>
   find (cost_key t date) (update_where (cost_key t' date') f cs) =
     map_option (\<lambda>r. if cost_key t' date' r then f r else r) (find (cost_key t date) cs)"
  by (induction cs) (auto simp: update_where_def cost_key_def)

lemma Reserve_cost:
  assumes "fst (ReserveDailyLLMCost t date cost limit d) = Inr n" "cost \<le> limit"
  shows "daily_cost (snd (ReserveDailyLLMCost t date cost limit d)) t date = daily_cost d t date + cost \<and>
    daily_cost d t date + cost \<le> limit"
  using assms
  by (auto simp: ReserveDailyLLMCost_def daily_cost_def Let_def find_append find_cost_update cost_key_def
      split: option.splits if_splits dest: find_SomeD)

lemma Reserve_error:
  "fst (ReserveDailyLLMCost t date cost limit d) = Inl e \<Longrightarrow> snd (ReserveDailyLLMCost t date cost limit d) = d"
  by (auto simp: ReserveDailyLLMCost_def Let_def split: option.splits if_splits)

text \<open>A failed call is never reported as an empty result.\<close>

definition honest :: "'r env \<Rightarrow> bool" where
  "honest E \<longleftrightarrow> (\<forall>n e. e_fault E n = Undone e \<or> e_fault E n = Lost e \<longrightarrow> \<not> err_is e ErrNoRows)"

lemma run_ReserveDailyCost:
  assumes "honest E" "in_int32 cost" "in_int32 limit"
    and "run_state (ReserveDailyCost E t cost limit) w = (r, w')"
    and "date = Format_DateOnly (e_now E (w_tick w))"
  shows "(daily_cost (w_db w') t date = daily_cost (w_db w) t date + cost \<and>
      daily_cost (w_db w') t date \<le> limit \<and> r \<noteq> Inr False) \<or>
    (w_db w' = w_db w \<and> r \<noteq> Inr True)"
proof (cases "cost \<le> limit")
  case True
  let ?s = "ReserveDailyLLMCost t date cost limit"
  have w: "wrap32 cost = cost" "wrap32 limit = limit" using assms(2,3) by simp_all
  consider e where "fst (?s (w_db w)) = Inl e" "snd (?s (w_db w)) = w_db w"
    | n where "fst (?s (w_db w)) = Inr n"
      "daily_cost (snd (?s (w_db w))) t date = daily_cost (w_db w) t date + cost"
      "daily_cost (w_db w) t date + cost \<le> limit"
    using Reserve_error Reserve_cost [OF _ True] by (cases "fst (?s (w_db w))") blast+
  then show ?thesis
    using assms(1,4,5) True
    by cases (auto simp: ReserveDailyCost_def run_prims w honest_def split: fault.splits if_splits)
next
  case False
  then show ?thesis using assms(4) by (auto simp: ReserveDailyCost_def)
qed

section \<open>Properties\<close>



text \<open>
  C4 (safety): a status change and its event are stored together or not at all, whatever call of
  the transaction fails and even when the reply to the commit is lost; no other run is touched.
  Without an error both are stored.
\<close>

theorem PersistRunTransition_atomic:
  "let (r, w') = run_state (PersistRunTransition E run ev) w; d = w_db w; d' = w_db w' in
     (d' = d \<and> (\<exists>e. r = Inl e)) \<or>
     (\<exists>row. find_run d (run_id run) = Some row \<and>
        find_run d' (run_id run) = Some (set_run_status (jobRunToUpdateStatusParams run) row) \<and>
        d_events d' = d_events d @ [runEventToInsertParams ev] \<and>
        filter (\<lambda>r. rr_id r \<noteq> run_id run) (d_runs d') = filter (\<lambda>r. rr_id r \<noteq> run_id run) (d_runs d))"
proof -
  obtain r w' where w': "run_state (PersistRunTransition E run ev) w = (r, w')" by fastforce
  show ?thesis
    using run_PersistRunTransition [OF w'] transition_effect [of run ev "w_db w"] by (auto simp: Let_def w')
qed

text \<open>
  Creating a job stores the job, its first run and all its events, or changes
  nothing; without an error all of them are stored.
\<close>

theorem CreateJobWithRun_atomic:
  "let (r, w') = run_state (CreateJobWithRun E j run evs) w in
     w_db w' = create_db j run evs (w_db w) \<or> (w_db w' = w_db w \<and> (\<exists>e. r = Inl e))"
proof -
  obtain r w' where w': "run_state (CreateJobWithRun E j run evs) w = (r, w')" by fastforce
  show ?thesis using run_CreateJobWithRun [OF w'] by (auto simp: w' split: sum.splits)
qed

text \<open>
  Claiming a slot never takes a tenant over its limit of running runs: the number
  of running runs of the tenant stays within the limit or where it was, a successful claim adds
  exactly one and turns that run to running, other tenants keep their numbers.
\<close>

theorem TryMarkRunRunning_limit:
  assumes "db_wf (w_db w)" "find_run (w_db w) (run_id run) = Some row" "rr_tenant_id row = run_tenantID run"
    and "run_state (TryMarkRunRunning E run ev limit) w = (r, w')"
  shows "int (running_count (w_db w') (run_tenantID run)) \<le> max limit (int (running_count (w_db w) (run_tenantID run))) \<and>
    (t \<noteq> run_tenantID run \<longrightarrow> running_count (w_db w') t = running_count (w_db w) t) \<and>
    (r = Inr True \<longrightarrow>
       running_count (w_db w') (run_tenantID run) = Suc (running_count (w_db w) (run_tenantID run)) \<and>
       (\<exists>row'. find_run (w_db w') (run_id run) = Some row' \<and> rr_status row' = StatusRunning)) \<and>
    (r = Inr False \<longrightarrow> w_db w' = w_db w)"
proof -
  let ?a = "claim_params run limit" and ?d = "w_db w"
  have row: "find_run ?d (tm_ID ?a) = Some row" "rr_tenant_id row = tm_TenantID ?a"
    using assms(2,3) by (simp_all add: claim_params_def)
  have claimed: "w_db w' = claim_db run ev limit ?d \<and> fst (TryMarkJobRunRunning ?a ?d) = Inr True \<or>
      w_db w' = ?d \<and> r \<noteq> Inr True"
    using run_TryMarkRunRunning [OF assms(4)] by (auto split: sum.splits bool.splits)
  have False_case: "r = Inr False \<Longrightarrow> w_db w' = ?d"
    using run_TryMarkRunRunning [OF assms(4)] by simp
  show ?thesis
  proof (cases "w_db w' = ?d \<and> r \<noteq> Inr True")
    case False
    then have w': "w_db w' = claim_db run ev limit ?d" and ok: "fst (TryMarkJobRunRunning ?a ?d) = Inr True"
      using claimed by auto
    note counts = claim_counts [OF assms(1) row ok]
    have "int (running_count (w_db w') (run_tenantID run)) = int (running_count ?d (run_tenantID run)) + 1"
      "t \<noteq> run_tenantID run \<longrightarrow> running_count (w_db w') t = running_count ?d t"
      using counts(1) [of "run_tenantID run"] counts(1) [of t]
      by (auto simp: w' claim_db_def claim_params_def)
    moreover have "int (running_count ?d (run_tenantID run)) < limit"
      using counts(2) by (simp add: claim_params_def)
    moreover have "\<exists>row'. find_run (w_db w') (run_id run) = Some row' \<and> rr_status row' = StatusRunning"
      using counts(2,3) assms(2) find_run_id [OF assms(2)]
      by (simp add: w' claim_db_def find_run_claim claim_params_def)
    ultimately show ?thesis
      using False_case by auto
  qed simp
qed

theorem TryMarkRunRunning_limit_witness:
  "let w = start_world (sample_db StatusQueued 0); run = jobRunFromGetByIDRow (sample_run 21 1 11 1 StatusQueued 0);
       ev = NewRunEvent 0 31 1 11 21 StatusRunning EventJobRunStarted None;
       w' = snd (run_state (TryMarkRunRunning sample_env run ev 2) w)
   in int (running_count (w_db w') 1) \<le> max 2 (int (running_count (w_db w) 1))"
proof -
  let ?w = "start_world (sample_db StatusQueued 0)"
  let ?run = "jobRunFromGetByIDRow (sample_run 21 1 11 1 StatusQueued 0)"
  let ?ev = "NewRunEvent 0 31 1 11 21 StatusRunning EventJobRunStarted None"
  obtain r w' where w': "run_state (TryMarkRunRunning sample_env ?run ?ev 2) ?w = (r, w')" by fastforce
  have "db_wf (w_db ?w)"
    by (simp add: start_world_def sample_db_def empty_db_def db_wf_def sample_run_def sample_job_def kind_check_def)
  moreover have "find_run (w_db ?w) (run_id ?run) = Some (sample_run 21 1 11 1 StatusQueued 0)"
    by (simp add: start_world_def sample_db_def empty_db_def find_run_def sample_run_def)
  moreover have "rr_tenant_id (sample_run 21 1 11 1 StatusQueued 0) = run_tenantID ?run" by simp
  ultimately show ?thesis
    using TryMarkRunRunning_limit [OF _ _ _ w', of "sample_run 21 1 11 1 StatusQueued 0" 0] w'
    by (simp add: Let_def sample_run_def)
qed

text \<open>
  A reservation of LLM cost never takes the tenant's total for the day over the
  limit: it is granted only if the new total, old total plus cost, is within the limit, and when
  it is refused nothing is stored.
\<close>

theorem ReserveDailyCost_limit:
  assumes "honest E" "in_int32 cost" "in_int32 limit"
    and "run_state (ReserveDailyCost E t cost limit) w = (r, w')"
    and "date = Format_DateOnly (e_now E (w_tick w))"
  shows "(daily_cost (w_db w') t date = daily_cost (w_db w) t date + cost \<and>
      daily_cost (w_db w') t date \<le> limit \<and> r \<noteq> Inr False) \<or>
    (w_db w' = w_db w \<and> r \<noteq> Inr True)"
  using run_ReserveDailyCost [OF assms] .

theorem ReserveDailyCost_limit_witness:
  "let w = start_world empty_db; w' = snd (run_state (ReserveDailyCost sample_env 1 40 100) w);
       date = Format_DateOnly (e_now sample_env 0)
   in (daily_cost (w_db w') 1 date = daily_cost (w_db w) 1 date + 40 \<and> daily_cost (w_db w') 1 date \<le> 100) \<or>
      w_db w' = w_db w"
proof -
  obtain r w' where w': "run_state (ReserveDailyCost sample_env 1 40 100) (start_world empty_db) = (r, w')"
    by fastforce
  have "honest sample_env" by (simp add: honest_def sample_env_def)
  moreover have "in_int32 40" "in_int32 100" by (simp_all add: in_int32_def)
  ultimately show ?thesis
    using ReserveDailyCost_limit [OF _ _ _ w' refl] w' by (auto simp: Let_def start_world_def)
qed

text \<open>
  Inserting the next run of a job is idempotent: once
  \<^verbatim>\<open>InsertRunIfAbsent\<close> has returned without error, a run with that job and sequence number
  exists, and any further call for the same job and sequence number, whatever its identifier or
  schedule, creates nothing and changes nothing.
\<close>

theorem InsertRunIfAbsent_idempotent:
  assumes "reliable E" "run_state (InsertRunIfAbsent E run) w = (Inr created, w')"
    and "run_jobID run' = run_jobID run" "run_sequence run' = run_sequence run"
  shows "(run_jobID run, wrap32 (run_sequence run)) \<in> run_key ` set (d_runs (w_db w')) \<and>
    run_state (InsertRunIfAbsent E run') w' = (Inr False, w'\<lparr>w_tick := Suc (w_tick w')\<rparr>)"
proof -
  let ?a = "jobRunToInsertIfAbsentParams run"
  have "w_db w' = snd (InsertJobRunIfAbsent ?a (w_db w))"
    "\<exists>n. fst (InsertJobRunIfAbsent ?a (w_db w)) = Inr n"
    using assms(1,2) by (auto simp: InsertRunIfAbsent_def run_db_exec map_result_def split: sum.splits)
  then have key: "(run_jobID run, wrap32 (run_sequence run)) \<in> run_key ` set (d_runs (w_db w'))"
    by (auto simp: InsertJobRunIfAbsent_def Let_def run_key_def [abs_def] jobRunToInsertIfAbsentParams_def
        image_iff split: if_splits option.splits)
  moreover have "InsertJobRunIfAbsent (jobRunToInsertIfAbsentParams run') (w_db w') = (Inr 0, w_db w')"
    using key assms(3,4)
    by (auto simp: InsertJobRunIfAbsent_def jobRunToInsertIfAbsentParams_def run_key_def [abs_def])
  ultimately show ?thesis
    using assms(1) by (simp add: InsertRunIfAbsent_def run_db_exec map_result_def)
qed

theorem InsertRunIfAbsent_idempotent_witness:
  "\<exists>created w'. let run = jobRunFromGetByIDRow (sample_run 22 1 11 2 StatusPending 0) in
     run_state (InsertRunIfAbsent sample_env run) (start_world (sample_db StatusSuccess 0)) = (Inr created, w') \<and>
     (run_jobID run, wrap32 (run_sequence run)) \<in> run_key ` set (d_runs (w_db w')) \<and>
     run_state (InsertRunIfAbsent sample_env run) w' = (Inr False, w'\<lparr>w_tick := Suc (w_tick w')\<rparr>)"
proof -
  let ?run = "jobRunFromGetByIDRow (sample_run 22 1 11 2 StatusPending 0)"
  have rel: "reliable sample_env" by (simp add: reliable_def sample_env_def)
  have "fst (InsertJobRunIfAbsent (jobRunToInsertIfAbsentParams ?run) (sample_db StatusSuccess 0)) = Inr 1"
    by (simp add: InsertJobRunIfAbsent_def run_constraints_def sample_db_def sample_run_def sample_job_def
        empty_db_def in_int32_def jobRunToInsertIfAbsentParams_def Let_def)
  then obtain created w' where
    w': "run_state (InsertRunIfAbsent sample_env ?run) (start_world (sample_db StatusSuccess 0)) = (Inr created, w')"
    using rel by (simp add: InsertRunIfAbsent_def run_db_exec start_world_def map_result_def)
  from InsertRunIfAbsent_idempotent [OF rel w' refl refl] w' show ?thesis by (auto simp: Let_def)
qed



end
