(* ===== verification/TaskExecutor.thy ===== *)
theory TaskExecutor
  imports TaskStore
begin

text \<open>
  \<^verbatim>\<open>internal/task/executor.go\<close> and the metric recorders of \<^verbatim>\<open>metrics.go\<close>
  it calls: the LLM executor with its cost reservation and retry loop, the idempotent executor
  around it, and the stub executor.
\<close>

section \<open>Metrics (metrics.go)\<close>

text \<open>A metric set may be nil; \<open>m\<close> says whether there is one.\<close>

definition recordLLMLatency :: "bool \<Rightarrow> duration \<Rightarrow> ('r, unit) app" where
  "recordLLMLatency m d = (if m then observe (MLLMLatency d) else State_Monad.return ())"

definition recordLLMTimeout :: "bool \<Rightarrow> ('r, unit) app" where
  "recordLLMTimeout m = (if m then observe MLLMTimeout else State_Monad.return ())"

definition recordLLMValidationFailure :: "bool \<Rightarrow> ('r, unit) app" where
  "recordLLMValidationFailure m =
     (if m then observe MLLMValidationFailure else State_Monad.return ())"

definition recordLLMCost :: "bool \<Rightarrow> int \<Rightarrow> ('r, unit) app" where
  "recordLLMCost m cost = (if m then observe (MLLMCostCents cost) else State_Monad.return ())"

text \<open>\<^verbatim>\<open>t.Sub(u)\<close> saturates.\<close>

definition time_Sub :: "time \<Rightarrow> time \<Rightarrow> duration" where
  "time_Sub t u = max (- (2 ^ 63)) (min (2 ^ 63 - 1) (t - u))"

definition recordRun :: "bool \<Rightarrow> JobRun \<Rightarrow> ('r, unit) app" where
  "recordRun m run =
     (if \<not> m then State_Monad.return ()
      else do {
        observe (MRuns (run_status run));
        (if \<not> IsZero (run_startedAt run) \<and> \<not> IsZero (run_completedAt run)
         then observe (MDuration (time_Sub (run_completedAt run) (run_startedAt run)))
         else State_Monad.return ());
        (if \<not> IsZero (run_startedAt run) \<and> \<not> IsZero (run_failedAt run) \<and>
            run_status run = StatusFailed
         then observe (MDuration (time_Sub (run_failedAt run) (run_startedAt run)))
         else State_Monad.return ())
      })"

definition recordRunDeferred :: "bool \<Rightarrow> string \<Rightarrow> ('r, unit) app" where
  "recordRunDeferred m reason = (if m then observe (MRunDeferred reason) else State_Monad.return ())"

definition recordDLQ :: "bool \<Rightarrow> ('r, unit) app" where
  "recordDLQ m = (if m then observe MDLQ else State_Monad.return ())"

definition RecordQuotaRejection :: "bool \<Rightarrow> string \<Rightarrow> ('r, unit) app" where
  "RecordQuotaRejection m reason = (if m then observe (MQuotaRejection reason) else State_Monad.return ())"

section \<open>Events\<close>

text \<open>\<^verbatim>\<open>NewRunEvent(...)\<close> with the identifier and the clock it reads.\<close>

definition new_event ::
  "'r env \<Rightarrow> JobRun \<Rightarrow> Status \<Rightarrow> EventType \<Rightarrow> payload \<Rightarrow> ('r, RunEvent) app" where
  "new_event E run s eventType payload = do {
     i \<leftarrow> uuid_NewV7 E;
     now \<leftarrow> time_Now E;
     State_Monad.return
       (NewRunEvent now i (run_tenantID run) (run_jobID run) (run_id run) s eventType payload)
   }"

fun event_text :: "EventType \<Rightarrow> string" where
  "event_text EventJobCreated = ''job.created''"
| "event_text EventJobRunCreated = ''job_run.created''"
| "event_text EventJobRunEnqueued = ''job_run.enqueued''"
| "event_text EventJobRunStarted = ''job_run.started''"
| "event_text EventJobRunSucceeded = ''job_run.succeeded''"
| "event_text EventJobRunFailed = ''job_run.failed''"
| "event_text EventJobRunRetry = ''job_run.retry_scheduled''"
| "event_text EventJobRunDLQ = ''job_run.dlq''"
| "event_text EventJobCancelled = ''job.cancelled''"
| "event_text EventDuplicateDetected = ''job_run.duplicate_detected''"
| "event_text EventChildEnqueued = ''child_job.enqueued''"
| "event_text EventLLMTimeout = ''llm.timeout''"
| "event_text EventLLMValidationFailed = ''llm.validation_failed''"
| "event_text EventQuotaDeferred = ''quota.deferred''"

section \<open>The LLM executor\<close>

definition llm_appendEvent ::
  "'r env \<Rightarrow> JobRun \<Rightarrow> EventType \<Rightarrow> payload \<Rightarrow> ('r, unit result) app" where
  "llm_appendEvent E run eventType payload = do {
     ev \<leftarrow> new_event E run (run_status run) eventType payload;
     r \<leftarrow> AppendEvent E ev;
     State_Monad.return (wrap_err (''append '' @ event_text eventType @ '' event'') r)
   }"

definition callModel ::
  "'r env \<Rightarrow> bool \<Rightarrow> LLMPolicy \<Rightarrow> string \<Rightarrow> string \<Rightarrow> ('r, LLMResponse result) app" where
  "callModel E m policy model prompt = do {
     let timeout = wrap64 (TimeoutSeconds policy * Second);
     started \<leftarrow> time_Now E;
     n \<leftarrow> tick;
     let (response, expired) = e_llm E n timeout \<lparr>
           req_Model = model,
           req_Prompt = prompt,
           req_MaxInputTokens = MaxInputTokens policy,
           req_MaxOutputTokens = MaxOutputTokens policy\<rparr>;
     now \<leftarrow> time_Now E;
     recordLLMLatency m (time_Sub now started);
     State_Monad.return
       (if (case response of Inl e \<Rightarrow> err_is e DeadlineExceeded | Inr _ \<Rightarrow> False) \<or> expired
        then Inl DeadlineExceeded else response)
   }"

text \<open>
  The retry loop: the attempts left, the cost so far and the last error. It returns
  \<open>Inr ()\<close> as soon as an attempt gives a valid response, with the cost of all attempts.
\<close>

primrec llm_attempts ::
  "'r env \<Rightarrow> bool \<Rightarrow> LLMPolicy \<Rightarrow> string \<Rightarrow> string \<Rightarrow> nat \<Rightarrow> int \<Rightarrow> error option \<Rightarrow>
   ('r, (error option + unit) \<times> int) app" where
  "llm_attempts E m policy model prompt 0 actualCost lastErr =
     State_Monad.return (Inl lastErr, actualCost)"
| "llm_attempts E m policy model prompt (Suc k) actualCost lastErr = do {
     r \<leftarrow> callModel E m policy model prompt;
     case r of
       Inl e \<Rightarrow>
         if err_is e DeadlineExceeded then do {
           recordLLMTimeout m;
           llm_attempts E m policy model prompt k actualCost (Some ErrLLMTimeout)
         }
         else llm_attempts E m policy model prompt k actualCost
                (Some (Errorf ''complete LLM request'' e))
     | Inr response \<Rightarrow> do {
         let actualCost = wrap64 (actualCost +
               EstimateCostCents model (resp_InputTokens response) (resp_OutputTokens response));
         case ValidateOutput (e_json E) (OutputSchema policy) (resp_Content response) of
           Inl verr \<Rightarrow> do {
             recordLLMValidationFailure m;
             llm_attempts E m policy model prompt k actualCost (Some verr)
           }
         | Inr _ \<Rightarrow> do {
             recordLLMCost m actualCost;
             State_Monad.return (Inr (), actualCost)
           }
       }
   }"

definition llm_attempt_count :: "LLMPolicy \<Rightarrow> int" where
  "llm_attempt_count policy =
     (let attempts = wrap64 (MaxRetries policy + 1) in if attempts < 1 then 1 else attempts)"

definition llm_estimate :: "LLMPolicy \<Rightarrow> int" where
  "llm_estimate policy =
     wrap64 (EstimateCostCents ''fake-default'' (MaxInputTokens policy) (MaxOutputTokens policy) *
       llm_attempt_count policy)"

text \<open>What follows the loop: the terminal event of the last failure, and its error.\<close>

definition llm_finish :: "'r env \<Rightarrow> JobRun \<Rightarrow> error option + unit \<Rightarrow> ('r, unit result) app" where
  "llm_finish E run outcome =
     (case outcome of
        Inr _ \<Rightarrow> State_Monad.return (Inr ())
      | Inl None \<Rightarrow> State_Monad.return (Inr ())
      | Inl (Some lastErr) \<Rightarrow>
          if err_is lastErr ErrLLMTimeout then do {
            r \<leftarrow> llm_appendEvent E run EventLLMTimeout None;
            State_Monad.return (case r of Inl e \<Rightarrow> Inl e | Inr _ \<Rightarrow> Inl ErrLLMTimeout)
          }
          else if err_is lastErr ErrInvalidLLMOutput then do {
            r \<leftarrow> llm_appendEvent E run EventLLMValidationFailed
                   (Some [(''error'', JStr (err_text lastErr))]);
            State_Monad.return (case r of Inl e \<Rightarrow> Inl e | Inr _ \<Rightarrow> Inl lastErr)
          }
          else State_Monad.return (Inl lastErr))"

text \<open>An estimate over a limit: the event, then \<^verbatim>\<open>ErrLLMCostExceeded\<close>.\<close>

definition llm_defer :: "'r env \<Rightarrow> JobRun \<Rightarrow> int \<Rightarrow> ('r, unit result) app" where
  "llm_defer E run estimated = do {
     r \<leftarrow> llm_appendEvent E run EventQuotaDeferred
            (Some [(''estimated_cost_cents'', JNum (of_int estimated))]);
     State_Monad.return (case r of Inl e \<Rightarrow> Inl e | Inr _ \<Rightarrow> Inl ErrLLMCostExceeded)
   }"

text \<open>
  From the reservation on: the attempts, the closing event, and last the deferred adjustment of
  the reservation to the real cost.
\<close>

definition llm_spend :: "'r env \<Rightarrow> bool \<Rightarrow> LLMPolicy \<Rightarrow> JobRun \<Rightarrow> Job \<Rightarrow> ('r, unit result) app" where
  "llm_spend E m policy run job = do {
     (outcome, actualCost) \<leftarrow> llm_attempts E m policy ''fake-default''
       (job_description job) (nat (llm_attempt_count policy)) 0 None;
     res \<leftarrow> llm_finish E run outcome;
     let delta = wrap64 (actualCost - llm_estimate policy);
     (if delta \<noteq> 0
      then do { _ \<leftarrow> AdjustDailyCost E (run_tenantID run) delta; State_Monad.return () }
      else State_Monad.return ());
     State_Monad.return res
   }"

definition llm_Execute :: "'r env \<Rightarrow> bool \<Rightarrow> LLMPolicy \<Rightarrow> JobRun \<Rightarrow> ('r, unit result) app" where
  "llm_Execute E m policy run = do {
     r \<leftarrow> FindJob E (run_jobID run);
     case r of
       Inl e \<Rightarrow> State_Monad.return (Inl (Errorf ''find job for LLM execution'' e))
     | Inr job \<Rightarrow>
         if job_jobType job \<noteq> JobTypeGenericLLM then State_Monad.return (Inl ErrInvalidJobType)
         else if MaxCostCents policy \<ge> 0 \<and> llm_estimate policy > MaxCostCents policy
         then llm_defer E run (llm_estimate policy)
         else do {
           r \<leftarrow> quota_Get E (run_tenantID run);
           case r of
             Inl e \<Rightarrow> State_Monad.return (Inl (Errorf ''get LLM quota'' e))
           | Inr quota \<Rightarrow> do {
               r \<leftarrow> ReserveDailyCost E (run_tenantID run) (llm_estimate policy)
                      (MaxDailyLLMCostCents quota);
               case r of
                 Inl e \<Rightarrow> State_Monad.return (Inl (Errorf ''reserve LLM cost'' e))
               | Inr committed \<Rightarrow>
                   if \<not> committed then llm_defer E run (llm_estimate policy)
                   else llm_spend E m policy run job
             }
         }
   }"

section \<open>The idempotent executor\<close>

definition responseHash :: "'r env \<Rightarrow> string \<Rightarrow> string" where
  "responseHash E key = e_sha256_hex E key"

definition idempotent_Execute ::
  "'r env \<Rightarrow> (JobRun \<Rightarrow> ('r, unit result) app) \<Rightarrow> JobRun \<Rightarrow> ('r, unit result) app" where
  "idempotent_Execute E next_Execute run = do {
     r \<leftarrow> FindJob E (run_jobID run);
     case r of
       Inl e \<Rightarrow> State_Monad.return (Inl (Errorf ''find job for execution'' e))
     | Inr job \<Rightarrow>
         if \<not> job_sideEffecting job then next_Execute run
         else do {
           r \<leftarrow> idem_Begin E (run_idempotencyKey run) ''task.default'' (run_id run);
           case r of
             Inl e \<Rightarrow> State_Monad.return (Inl e)
           | Inr acquired \<Rightarrow>
               if \<not> acquired then do {
                 r \<leftarrow> idem_Lookup E (run_idempotencyKey run);
                 case r of
                   Inl e \<Rightarrow> State_Monad.return (Inl e)
                 | Inr rec \<Rightarrow>
                     if (case rec of None \<Rightarrow> False | Some rec \<Rightarrow> rec_Status rec = ''completed'')
                     then do {
                       ev \<leftarrow> new_event E run (run_status run) EventDuplicateDetected
                              (Some [(''idempotency_key'', JStr (run_idempotencyKey run))]);
                       _ \<leftarrow> AppendEvent E ev;
                       State_Monad.return (Inr ())
                     }
                     else State_Monad.return (Inl ErrExecutionInProgress)
               }
               else do {
                 r \<leftarrow> next_Execute run;
                 case r of
                   Inl e \<Rightarrow> State_Monad.return (Inl e)
                 | Inr _ \<Rightarrow> idem_Complete E (run_idempotencyKey run)
                              (responseHash E (run_idempotencyKey run))
               }
         }
   }"

section \<open>The stub executor\<close>

definition stub_Execute ::
  "'r env \<Rightarrow> (JobRun \<Rightarrow> error option) option \<Rightarrow> JobRun \<Rightarrow> ('r, unit result) app" where
  "stub_Execute E failFunc run = do {
     n \<leftarrow> tick;
     case e_ctx_err E n of
       Some e \<Rightarrow> State_Monad.return (Inl e)
     | None \<Rightarrow>
         (case failFunc of
            Some f \<Rightarrow> State_Monad.return (case f run of Some e \<Rightarrow> Inl e | None \<Rightarrow> Inr ())
          | None \<Rightarrow> State_Monad.return (Inr ()))
   }"

section \<open>What an executor may change\<close>

lemmas metric_defs =
  recordLLMLatency_def recordLLMTimeout_def recordLLMValidationFailure_def recordLLMCost_def
  recordRun_def recordRunDeferred_def recordDLQ_def RecordQuotaRejection_def

context db_evolution
begin

lemma metrics:
  "state_io_rel (on_db R) (recordLLMLatency m x)"
  "state_io_rel (on_db R) (recordLLMTimeout m)"
  "state_io_rel (on_db R) (recordLLMValidationFailure m)"
  "state_io_rel (on_db R) (recordLLMCost m c)"
  "state_io_rel (on_db R) (recordRun m run)"
  "state_io_rel (on_db R) (recordRunDeferred m reason)"
  "state_io_rel (on_db R) (recordDLQ m)"
  "state_io_rel (on_db R) (RecordQuotaRejection m reason)"
  unfolding metric_defs by (intro db_intros)+

lemma event: "state_io_rel (on_db R) (new_event E run s t p)"
  unfolding new_event_def by (intro db_intros)

lemma callModel: "state_io_rel (on_db R) (callModel E m policy model prompt)"
  unfolding callModel_def by (intro db_intros metrics)

lemma llm_attempts: "state_io_rel (on_db R) (llm_attempts E m policy model prompt k cost err)"
  by (induction k arbitrary: cost err) (auto intro!: db_intros metrics callModel)

end

context llm_statements
begin

lemma llm_appendEvent: "state_io_rel (on_db R) (llm_appendEvent E run t p)"
  unfolding llm_appendEvent_def by (intro llm_intros event)

lemma llm_Execute: "state_io_rel (on_db R) (llm_Execute E m policy run)"
  unfolding llm_Execute_def llm_spend_def llm_finish_def llm_defer_def
  by (intro llm_intros llm_attempts llm_appendEvent)

end

context side_statements
begin

lemma stub_Execute: "state_io_rel (on_db R) (stub_Execute E f run)"
  unfolding stub_Execute_def by (intro side_intros)

lemma idempotent_Execute:
  "(\<And>run. state_io_rel (on_db R) (execute run)) \<Longrightarrow>
   state_io_rel (on_db R) (idempotent_Execute E execute run)"
  unfolding idempotent_Execute_def by (intro side_intros event)

end

text \<open>
  The port \<^verbatim>\<open>Executor\<close> as the worker relies on it: an execution leaves the tables of jobs
  and runs alone and changes the others only as every step may.
\<close>

locale executor =
  fixes execute :: "JobRun \<Rightarrow> ('r, unit result) app"
  assumes keeps_runs: "state_io_rel (on_db same_runs) (execute run)"
    and steps: "state_io_rel (on_db db_step) (execute run)"

interpretation llm: executor "llm_Execute E m policy" for E :: "'r env" and m policy
  by unfold_locales (rule frame.llm_Execute step.llm_Execute)+

interpretation stub: executor "stub_Execute E failFunc" for E :: "'r env" and failFunc
  by unfold_locales (rule frame.stub_Execute step.stub_Execute)+

interpretation idempotent: executor "idempotent_Execute E (llm_Execute E m policy)"
  for E :: "'r env" and m policy
  by unfold_locales
    (intro frame.idempotent_Execute step.idempotent_Execute frame.llm_Execute step.llm_Execute)+

section \<open>Idempotent execution\<close>

definition find_job :: "database \<Rightarrow> JobID \<Rightarrow> JobRow option" where
  "find_job d i = find (\<lambda>r. jr_id r = i) (d_jobs d)"

definition find_record :: "database \<Rightarrow> string \<Rightarrow> IdempotencyRow option" where
  "find_record d key = find (\<lambda>r. ir_idempotency_key r = key) (d_idempotency d)"

lemma run_FindJob:
  "reliable E \<Longrightarrow> run_state (FindJob E i) w =
     ((case find_job (w_db w) i of None \<Rightarrow> Inl ErrJobNotFound | Some r \<Rightarrow> Inr (jobFromSqlc r)),
      w\<lparr>w_tick := Suc (w_tick w)\<rparr>)"
  by (auto simp: FindJob_def run_db_exec GetJobByID_def find_job_def split: option.split)

lemma run_idem_Lookup:
  "reliable E \<Longrightarrow> run_state (idem_Lookup E key) w =
     (Inr (map_option (\<lambda>r. \<lparr>rec_Key = ir_idempotency_key r, rec_Handler = ir_handler_name r,
        rec_Status = ir_status r, rec_ResponseHash = stringValue (ir_response_hash r)\<rparr>)
        (find_record (w_db w) key)),
      w\<lparr>w_tick := Suc (w_tick w)\<rparr>)"
  by (auto simp: idem_Lookup_def run_db_exec GetIdempotency_def find_record_def split: option.split)

lemma find_record_None: "find_record d key = None \<longleftrightarrow> key \<notin> ir_idempotency_key ` set (d_idempotency d)"
  by (auto simp: find_record_def find_None_iff)

lemma run_idem_Begin:
  assumes "reliable E" "run_state (idem_Begin E key h i) w = (r, w')"
  shows "if find_record (w_db w) key = None
    then r = Inr True \<and> d_jobs (w_db w') = d_jobs (w_db w) \<and>
      (\<exists>row. find_record (w_db w') key = Some row \<and> ir_status row = ''in_progress'')
    else r = Inr False \<and> w_db w' = w_db w"
  using assms find_record_None [of "w_db w" key]
  by (auto simp: idem_Begin_def run_prims BeginIdempotency_def map_result_def find_record_def find_append
      split: option.split)

lemma run_idem_Complete:
  assumes "reliable E" "run_state (idem_Complete E key h) w = (r, w')"
  shows "r = Inr () \<longleftrightarrow> find_record (w_db w) key \<noteq> None"
  using assms
  by (auto simp: idem_Complete_def run_prims CompleteIdempotency_def filter_empty_conv find_record_def
      find_None_iff split: if_splits)

text \<open>A record that is there decides the outcome without the handler.\<close>

lemma same_records_find:
  assumes "state_io_rel (on_db same_records) m"
  shows "find_record (w_db (snd (run_state m w))) key = find_record (w_db w) key"
    "find_job (w_db (snd (run_state m w))) i = find_job (w_db w) i"
  using assms by (simp_all add: state_io_rel_def on_db_def same_records_def find_record_def find_job_def)

lemma run_idempotent_recorded:
  assumes E: "reliable E" and job: "find_job (w_db w) (run_jobID run) = Some job" "jr_side_effecting job"
    and rec: "find_record (w_db w) (run_idempotencyKey run) = Some row"
  shows "\<exists>w'. find_job (w_db w') (run_jobID run) = Some job \<and>
    find_record (w_db w') (run_idempotencyKey run) = Some row \<and>
    (\<forall>execute. run_state (idempotent_Execute E execute run) w =
      (if ir_status row = ''completed'' then Inr () else Inl ErrExecutionInProgress, w'))"
proof -
  let ?k = "run_idempotencyKey run" and ?j = "run_jobID run"
  obtain r w2 where b: "run_state (idem_Begin E ?k ''task.default'' (run_id run)) (w\<lparr>w_tick := Suc (w_tick w)\<rparr>) = (r, w2)"
    by fastforce
  have b': "r = Inr False" "w_db w2 = w_db w"
    using run_idem_Begin [OF E b] rec by simp_all
  let ?w3 = "w2\<lparr>w_tick := Suc (w_tick w2)\<rparr>"
  let ?dup = "new_event E run (run_status run) EventDuplicateDetected (Some [(''idempotency_key'', JStr ?k)]) \<bind> AppendEvent E"
  let ?w' = "if ir_status row = ''completed'' then snd (run_state ?dup ?w3) else ?w3"
  have "state_io_rel (on_db same_records) ?dup"
    by (intro records.llm_intros records.event)
  then have "find_record (w_db ?w') ?k = Some row \<and> find_job (w_db ?w') ?j = Some job"
    using same_records_find [of ?dup ?w3] rec job(1) b'(2) by simp
  moreover have "job_sideEffecting (jobFromSqlc job)"
    using job(2) by (simp add: jobFromSqlc_def rehydrateJob_def)
  then have "run_state (idempotent_Execute E execute run) w =
      (if ir_status row = ''completed'' then Inr () else Inl ErrExecutionInProgress, ?w')" for execute
    using E job b b' rec
    by (simp add: idempotent_Execute_def run_FindJob run_idem_Lookup split: prod.splits)
  ultimately show ?thesis by blast
qed

lemma Complete_record:
  assumes "reliable E" "run_state (idem_Complete E key h) w = (r, w')" "find_record (w_db w) key = Some row"
  shows "\<exists>row'. find_record (w_db w') key = Some row' \<and> ir_status row' = ''completed''"
    and "find_job (w_db w') i = find_job (w_db w) i"
  using assms find_SomeD [of "\<lambda>r. ir_idempotency_key r = key" "d_idempotency (w_db w)" row]
  by (auto simp: idem_Complete_def run_prims CompleteIdempotency_def find_record_def find_job_def
      find_update_where_key split: if_splits)

text \<open>
  An execution that claims the key: the handler ran, and the record it leaves is completed if the
  call succeeded and in progress if it failed.
\<close>

lemma run_idempotent_fresh:
  assumes E: "reliable E" and job: "find_job (w_db w) (run_jobID run) = Some job" "jr_side_effecting job"
    and rec: "find_record (w_db w) (run_idempotencyKey run) = None"
    and run: "run_state (idempotent_Execute E (llm_Execute E m policy) run) w = (r, w')"
  shows "find_job (w_db w') (run_jobID run) = Some job \<and>
    (\<exists>row. find_record (w_db w') (run_idempotencyKey run) = Some row \<and>
       ir_status row = (if r = Inr () then ''completed'' else ''in_progress''))"
proof -
  let ?w1 = "w\<lparr>w_tick := Suc (w_tick w)\<rparr>" and ?k = "run_idempotencyKey run" and ?j = "run_jobID run"
  obtain b w2 where b: "run_state (idem_Begin E ?k ''task.default'' (run_id run)) ?w1 = (b, w2)" by fastforce
  obtain row where b': "b = Inr True" "find_job (w_db w2) ?j = Some job"
    "find_record (w_db w2) ?k = Some row" "ir_status row = ''in_progress''"
    using run_idem_Begin [OF E b] rec job(1) by (auto simp: find_job_def)
  obtain r3 w3 where w3: "run_state (llm_Execute E m policy run) w2 = (r3, w3)" by fastforce
  have f3: "find_record (w_db w3) ?k = Some row" "find_job (w_db w3) ?j = Some job"
    using same_records_find [OF records.llm_Execute, of E m policy run w2] w3 b' by simp_all
  obtain r4 w4 where w4: "run_state (idem_Complete E ?k (responseHash E ?k)) w3 = (r4, w4)" by fastforce
  have "job_sideEffecting (jobFromSqlc job)" using job(2) by (simp add: jobFromSqlc_def rehydrateJob_def)
  then have "(r, w') = (case r3 of Inl e \<Rightarrow> (Inl e, w3) | Inr _ \<Rightarrow> (r4, w4))"
    using E run job(1) b b'(1) w3 w4
    by (cases r3) (auto simp: idempotent_Execute_def run_FindJob)
  moreover have "r4 = Inr ()" using run_idem_Complete [OF E w4] f3 by simp
  ultimately show ?thesis
    using f3 b'(4) Complete_record [OF E w4 f3(1)] by (cases r3) auto
qed

lemma idempotent_success:
  assumes "reliable E" "find_job (w_db w) (run_jobID run) = Some job" "jr_side_effecting job"
    and "run_state (idempotent_Execute E (llm_Execute E m policy) run) w = (Inr (), w')"
  shows "\<exists>row. find_job (w_db w') (run_jobID run) = Some job \<and>
    find_record (w_db w') (run_idempotencyKey run) = Some row \<and> ir_status row = ''completed''"
proof (cases "find_record (w_db w) (run_idempotencyKey run)")
  case None
  then show ?thesis using run_idempotent_fresh [OF assms(1-3) _ assms(4)] by auto
next
  case (Some row)
  then show ?thesis using run_idempotent_recorded [OF assms(1-3) Some] assms(4) by (auto split: if_splits)
qed

lemma idempotent_failure:
  assumes "reliable E" "find_job (w_db w) (run_jobID run) = Some job" "jr_side_effecting job"
    and "find_record (w_db w) (run_idempotencyKey run) = None"
    and "run_state (idempotent_Execute E (llm_Execute E m policy) run) w = (Inl e, w')"
  shows "\<exists>row. find_job (w_db w') (run_jobID run) = Some job \<and>
    find_record (w_db w') (run_idempotencyKey run) = Some row \<and> ir_status row = ''in_progress''"
  using run_idempotent_fresh [OF assms] by auto

section \<open>The LLM executor's outcome and cost\<close>

definition llm_request :: "LLMPolicy \<Rightarrow> string \<Rightarrow> string \<Rightarrow> LLMRequest" where
  "llm_request policy model prompt = \<lparr>req_Model = model, req_Prompt = prompt,
     req_MaxInputTokens = MaxInputTokens policy, req_MaxOutputTokens = MaxOutputTokens policy\<rparr>"

lemma callModel_response:
  "results (callModel E m policy model prompt) (\<lambda>r. \<forall>resp. r = Inr resp \<longrightarrow>
     (\<exists>n. e_llm E n (wrap64 (TimeoutSeconds policy * Second)) (llm_request policy model prompt) = (Inr resp, False)))"
  unfolding results_def callModel_def llm_request_def
  by (auto simp: run_prims recordLLMLatency_def split: prod.splits if_splits)

text \<open>A success of the loop comes from a response that was in time and passed validation.\<close>

definition accepted_response :: "'r env \<Rightarrow> LLMPolicy \<Rightarrow> string \<Rightarrow> string \<Rightarrow> LLMResponse \<Rightarrow> bool" where
  "accepted_response E policy model prompt resp \<longleftrightarrow>
     (\<exists>n. e_llm E n (wrap64 (TimeoutSeconds policy * Second)) (llm_request policy model prompt) = (Inr resp, False)) \<and>
     ValidateOutput (e_json E) (OutputSchema policy) (resp_Content resp) = Inr ()"

lemma llm_attempts_success:
  "results (llm_attempts E m policy model prompt k cost err) (\<lambda>(outcome, _). outcome = Inr () \<longrightarrow>
     (\<exists>resp. accepted_response E policy model prompt resp))"
proof (induction k arbitrary: cost err)
  case (Suc k)
  have step: "results (recordLLMTimeout m \<bind> (\<lambda>_. llm_attempts E m policy model prompt k c er)) Q"
    "results (recordLLMValidationFailure m \<bind> (\<lambda>_. llm_attempts E m policy model prompt k c er)) Q"
    if "results (llm_attempts E m policy model prompt k c er) Q" for c er Q
    using that by (auto intro: results_bind [OF results_any])
  show ?case
    unfolding llm_attempts.simps
  proof (rule results_bind [OF callModel_response], goal_cases)
    case (1 r)
    show ?case
    proof (cases r)
      case (Inl e)
      then show ?thesis using Suc step by simp
    next
      case (Inr resp)
      show ?thesis
      proof (cases "ValidateOutput (e_json E) (OutputSchema policy) (resp_Content resp)")
        case (Inl verr)
        with Inr Suc step show ?thesis by (simp add: Let_def)
      next
        case (Inr u)
        have "accepted_response E policy model prompt resp"
          using 1 \<open>r = Inr resp\<close> Inr by (auto simp: accepted_response_def)
        with Inr \<open>r = Inr resp\<close> show ?thesis
          by (auto simp: Let_def intro!: results_bind [OF results_any] results_return)
      qed
    qed
  qed
qed (auto intro: results_return)

text \<open>A loop of at least one attempt that fails has the error of the last one.\<close>

lemma llm_attempts_failure:
  "0 < k \<or> err \<noteq> None \<Longrightarrow>
   results (llm_attempts E m policy model prompt k cost err) (\<lambda>(outcome, _). outcome \<noteq> Inl None)"
proof (induction k arbitrary: cost err)
  case (Suc k)
  show ?case
    unfolding llm_attempts.simps
    by (rule results_bind [OF results_any])
      (auto simp: Let_def intro!: Suc.IH results_return results_bind [OF results_any] split: sum.split)
qed (auto intro: results_return)

lemma results_conj: "results m P \<Longrightarrow> results m Q \<Longrightarrow> results m (\<lambda>a. P a \<and> Q a)"
  by (simp add: results_def)

lemma llm_finish_success:
  "outcome \<noteq> Inl None \<Longrightarrow> results (llm_finish E run outcome) (\<lambda>r. r = Inr () \<longrightarrow> outcome = Inr ())"
  by (auto simp: llm_finish_def intro!: results_return results_bind [OF results_any]
      split: sum.split sum.split_asm option.split)

lemma llm_spend_success:
  "results (llm_spend E m policy run job) (\<lambda>r. r = Inr () \<longrightarrow>
     (\<exists>resp. accepted_response E policy ''fake-default'' (job_description job) resp))"
  unfolding llm_spend_def
proof (rule results_bind [OF results_conj [OF llm_attempts_success llm_attempts_failure]], goal_cases)
  case 1
  show ?case by (simp add: llm_attempt_count_def Let_def)
next
  case (2 oc)
  obtain outcome c where oc: "oc = (outcome, c)" by fastforce
  show ?case
    unfolding oc prod.case
  proof (rule results_bind [OF llm_finish_success [of outcome]], goal_cases)
    case (2 res)
    with oc \<open>_ oc \<and> _ oc\<close> show ?case
      by (auto simp: Let_def intro!: results_return results_bind [OF results_any])
  qed (use 2 oc in simp)
qed

lemma llm_Execute_success:
  "results (llm_Execute E m policy run) (\<lambda>r. r = Inr () \<longrightarrow>
     (\<exists>prompt resp. accepted_response E policy ''fake-default'' prompt resp))"
proof -
  have spend: "results (llm_spend E m policy run job) (\<lambda>r. r = Inr () \<longrightarrow>
      (\<exists>prompt resp. accepted_response E policy ''fake-default'' prompt resp))" for job
    using llm_spend_success [of E m policy run job] by (auto simp: results_def)
  have deferred: "results (llm_defer E run n) (\<lambda>r. r = Inr () \<longrightarrow> Q)" for n Q
    unfolding llm_defer_def
    by (intro results_bind [OF results_any]) (auto intro!: results_return split: sum.split)
  show ?thesis
    unfolding llm_Execute_def
    by (rule results_bind [OF results_any])
      (auto intro!: spend deferred results_return results_bind [OF results_any] split: sum.split)
qed

text \<open>The loop never touches the database.\<close>

lemma llm_attempts_db: "w_db (snd (run_state (llm_attempts E m policy model prompt k cost err) w)) = w_db w"
  using untouched.llm_attempts [of E m policy model prompt k cost err]
  by (simp add: state_io_rel_def on_db_def)

text \<open>The client's side of the token limits.\<close>

definition within_tokens :: "'r env \<Rightarrow> bool" where
  "within_tokens E \<longleftrightarrow> (\<forall>n t req resp b. e_llm E n t req = (Inr resp, b) \<longrightarrow>
     0 \<le> resp_InputTokens resp \<and> resp_InputTokens resp \<le> req_MaxInputTokens req \<and>
     0 \<le> resp_OutputTokens resp \<and> resp_OutputTokens resp \<le> req_MaxOutputTokens req)"

definition attempt_cost :: "LLMPolicy \<Rightarrow> int" where
  "attempt_cost policy = EstimateCostCents ''fake-default'' (MaxInputTokens policy) (MaxOutputTokens policy)"

lemma EstimateCostCents_mono:
  assumes "0 \<le> i" "i \<le> i'" "0 \<le> k" "k \<le> k'" "i' + k' < 2 ^ 63 - 999"
  shows "0 \<le> EstimateCostCents m i k \<and> EstimateCostCents m i k \<le> EstimateCostCents m' i' k'"
proof -
  have "(i + k + 999) div 1000 \<le> (i' + k' + 999) div 1000" using assms by (intro zdiv_mono1) auto
  then show ?thesis using assms by (simp add: EstimateCostCents_ceiling)
qed

lemma llm_attempts_cost:
  assumes tok: "within_tokens E" "0 \<le> MaxInputTokens policy" "0 \<le> MaxOutputTokens policy"
      "MaxInputTokens policy + MaxOutputTokens policy < 2 ^ 63 - 999"
    and "0 \<le> cost" "cost + int k * attempt_cost policy < 2 ^ 63"
  shows "results (llm_attempts E m policy ''fake-default'' prompt k cost err)
    (\<lambda>(_, c). cost \<le> c \<and> c \<le> cost + int k * attempt_cost policy)"
  using assms(5,6)
proof (induction k arbitrary: cost err)
  case (Suc k)
  let ?a = "attempt_cost policy"
  have a0: "0 \<le> ?a" using EstimateCostCents_mono [of 0 0 0 0 "''fake-default''" "''fake-default''"] tok
    by (simp add: attempt_cost_def EstimateCostCents_ceiling)
  have ih: "results (llm_attempts E m policy ''fake-default'' prompt k c er)
      (\<lambda>(_, c'). cost \<le> c' \<and> c' \<le> cost + int (Suc k) * ?a)" if "cost \<le> c" "c \<le> cost + ?a" for c er
  proof -
    have "c + int k * ?a < 2 ^ 63" "0 \<le> c" using Suc.prems that a0 by (auto simp: algebra_simps)
    from Suc.IH [OF this(2,1)] show ?thesis
      unfolding results_def using that by (fastforce simp: algebra_simps split: prod.splits)
  qed
  have skip: "results (recordLLMTimeout m \<bind> (\<lambda>_. llm_attempts E m policy ''fake-default'' prompt k c er)) Q"
    "results (recordLLMValidationFailure m \<bind> (\<lambda>_. llm_attempts E m policy ''fake-default'' prompt k c er)) Q"
    if "results (llm_attempts E m policy ''fake-default'' prompt k c er) Q" for c er Q
    using that by (auto intro: results_bind [OF results_any])
  show ?case
    unfolding llm_attempts.simps
  proof (rule results_bind [OF callModel_response], goal_cases)
    case (1 r)
    show ?case
    proof (cases r)
      case (Inl e)
      then show ?thesis using ih [of cost] a0 skip by simp
    next
      case (Inr resp)
      let ?e = "EstimateCostCents ''fake-default'' (resp_InputTokens resp) (resp_OutputTokens resp)"
      have "0 \<le> ?e \<and> ?e \<le> ?a"
        unfolding attempt_cost_def using tok 1 Inr
        by (intro EstimateCostCents_mono) (auto simp: within_tokens_def llm_request_def, fastforce+)
      moreover have "0 \<le> int k * ?a" using a0 by simp
      moreover have "cost + (?a + int k * ?a) < 2 ^ 63" using Suc.prems by (simp add: algebra_simps)
      ultimately have "in_int64 (cost + ?e)" "cost \<le> cost + ?e" "cost + ?e \<le> cost + ?a"
        using Suc.prems(1) unfolding in_int64_def by linarith+
      then have e: "cost \<le> cost + ?e" "cost + ?e \<le> cost + ?a" "wrap64 (cost + ?e) = cost + ?e"
        by simp_all
      show ?thesis
      proof (cases "ValidateOutput (e_json E) (OutputSchema policy) (resp_Content resp)")
        case (Inl verr)
        with \<open>r = Inr resp\<close> ih [OF e(1,2)] skip e show ?thesis by (simp add: Let_def)
      next
        case (Inr u)
        have "cost + ?e \<le> cost + int (Suc k) * ?a"
          using e(2) \<open>0 \<le> int k * ?a\<close> by (simp add: algebra_simps)
        with Inr \<open>r = Inr resp\<close> e show ?thesis
          by (auto simp: Let_def intro!: results_bind [OF results_any] results_return)
      qed
    qed
  qed
qed (auto intro: results_return)

definition tenant_quota :: "'r env \<Rightarrow> database \<Rightarrow> TenantID \<Rightarrow> Quota" where
  "tenant_quota E d t = (case find (\<lambda>r. qr_tenant_id r = t) (d_quotas d) of
     None \<Rightarrow> e_quota_defaults E
   | Some row \<Rightarrow> \<lparr>MaxJobsPerHour = qr_max_jobs_per_hour row,
       MaxActiveRecurring = qr_max_active_recurring_jobs row,
       MaxConcurrentRuns = qr_max_concurrent_runs row,
       MaxDailyLLMCostCents = qr_max_daily_llm_cost_cents row\<rparr>)"

lemma run_quota_Get:
  "reliable E \<Longrightarrow> run_state (quota_Get E t) w =
     (Inr (tenant_quota E (w_db w) t), w\<lparr>w_tick := Suc (w_tick w)\<rparr>)"
  by (auto simp: quota_Get_def run_db_exec GetTenantQuota_def tenant_quota_def split: option.split)

lemma quota_Get_result:
  assumes "run_state (quota_Get E t) w = (Inr q, w')" "honest E"
  shows "q = tenant_quota E (w_db w) t"
  using assms
  by (auto simp: quota_Get_def run_prims tenant_quota_def honest_def GetTenantQuota_def
      split: fault.splits sum.splits if_splits option.splits)

definition same_costs :: "database \<Rightarrow> database \<Rightarrow> bool" where
  "same_costs d d' \<longleftrightarrow> d_costs d' = d_costs d"

interpretation costs: db_evolution same_costs
  by unfold_locales (auto simp: same_costs_def)

lemma append_costs: "state_io_rel (on_db same_costs) (llm_appendEvent E run t p)"
  unfolding llm_appendEvent_def AppendEvent_def
  by (intro costs.db_intros costs.event) (simp add: same_costs_def InsertRunEvent_def)

lemma same_costs_run: "state_io_rel (on_db same_costs) m \<Longrightarrow>
    daily_cost (w_db (snd (run_state m w))) t date = daily_cost (w_db w) t date"
  by (simp add: state_io_rel_def on_db_def same_costs_def daily_cost_def)

lemma llm_finish_costs: "state_io_rel (on_db same_costs) (llm_finish E run outcome)"
  unfolding llm_finish_def by (intro costs.db_intros append_costs)

lemma llm_defer_costs: "state_io_rel (on_db same_costs) (llm_defer E run n)"
  unfolding llm_defer_def by (intro costs.db_intros append_costs)

lemma db_wf_finish: "db_wf (w_db w) \<Longrightarrow> db_wf (w_db (snd (run_state (llm_finish E run outcome) w)))"
  by (rule step_wf) (unfold llm_finish_def, intro step.db_intros step.llm_appendEvent)

lemma Adjust_cost:
  assumes wf: "db_wf d" and row: "find (cost_key t date) (d_costs d) \<noteq> None"
    and rng: "in_int32 (daily_cost d t date + delta)"
  shows "daily_cost (snd (AdjustDailyLLMCost delta t date d)) t date = daily_cost d t date + delta"
proof -
  obtain r where r: "find (cost_key t date) (d_costs d) = Some r" using row by blast
  have "x = r" if "x \<in> set (d_costs d)" "cost_key t date x" for x
    using that find_SomeD [OF r] wf
      distinct_key_eq [of "\<lambda>r. (cr_tenant_id r, cr_cost_date r)" "d_costs d" x r]
    by (simp add: db_wf_def cost_key_def)
  then have "\<not> (\<exists>x\<in>set (d_costs d). cost_key t date x \<and> \<not> in_int32 (cr_cost_cents x + delta))"
    using rng r by (auto simp: daily_cost_def)
  then show ?thesis
    using r find_SomeD [OF r] by (auto simp: AdjustDailyLLMCost_def daily_cost_def find_cost_update)
qed

lemma run_AdjustDailyCost:
  assumes "reliable E" "delta \<noteq> 0" "in_int32 delta" "Format_DateOnly (e_now E (w_tick w)) = date"
  shows "w_db (snd (run_state (AdjustDailyCost E t delta) w)) = snd (AdjustDailyLLMCost delta t date (w_db w))"
  using assms by (simp add: AdjustDailyCost_def run_prims)

lemma Reserve_row:
  "fst (ReserveDailyLLMCost t date cost limit d) = Inr n \<Longrightarrow>
   find (cost_key t date) (d_costs (snd (ReserveDailyLLMCost t date cost limit d))) \<noteq> None"
  by (auto simp: ReserveDailyLLMCost_def Let_def find_append find_cost_update cost_key_def
      split: option.splits if_splits)

text \<open>What a policy must satisfy for its costs to stay within 32 bits.\<close>

definition policy_ok :: "LLMPolicy \<Rightarrow> bool" where
  "policy_ok policy \<longleftrightarrow> 0 \<le> MaxInputTokens policy \<and> 0 \<le> MaxOutputTokens policy \<and>
     MaxInputTokens policy + MaxOutputTokens policy < 2 ^ 63 - 999 \<and>
     llm_attempt_count policy * attempt_cost policy < 2 ^ 31"

lemma policy_estimate:
  assumes "policy_ok policy"
  shows "llm_estimate policy = llm_attempt_count policy * attempt_cost policy" "0 \<le> llm_estimate policy"
    "llm_estimate policy < 2 ^ 31" "1 \<le> llm_attempt_count policy" "0 \<le> attempt_cost policy"
proof -
  show a: "0 \<le> attempt_cost policy"
    using assms by (simp add: policy_ok_def attempt_cost_def EstimateCostCents_ceiling pos_imp_zdiv_nonneg_iff)
  show c: "1 \<le> llm_attempt_count policy" by (simp add: llm_attempt_count_def Let_def)
  have p: "0 \<le> llm_attempt_count policy * attempt_cost policy" using a c by simp
  show e: "llm_estimate policy = llm_attempt_count policy * attempt_cost policy"
    unfolding llm_estimate_def attempt_cost_def [symmetric] mult.commute [of "attempt_cost policy"]
    using assms p by (intro wrap64_id) (simp add: policy_ok_def in_int64_def)
  show "0 \<le> llm_estimate policy" "llm_estimate policy < 2 ^ 31"
    using p assms by (simp_all add: e policy_ok_def)
qed

lemma llm_spend_cost:
  assumes E: "reliable E" "within_tokens E" "policy_ok policy" "\<And>n. Format_DateOnly (e_now E n) = date"
    and wf: "db_wf (w_db w)" and row: "find (cost_key t date) (d_costs (w_db w)) \<noteq> None"
    and b: "daily_cost (w_db w) t date = b + llm_estimate policy" "in_int32 b" "in_int32 (b + llm_estimate policy)"
    and t: "t = run_tenantID run"
    and w': "w' = snd (run_state (llm_spend E m policy run job) w)"
  shows "b \<le> daily_cost (w_db w') t date \<and> daily_cost (w_db w') t date \<le> b + llm_estimate policy"
proof -
  let ?est = "llm_estimate policy" and ?k = "nat (llm_attempt_count policy)"
  note est = policy_estimate [OF E(3)]
  obtain outcome c w1 where w1:
    "run_state (llm_attempts E m policy ''fake-default'' (job_description job) ?k 0 None) w = ((outcome, c), w1)"
    by (metis prod.collapse)
  have kc: "int ?k * attempt_cost policy = ?est" using est by simp
  then have "results (llm_attempts E m policy ''fake-default'' (job_description job) ?k 0 None)
      (\<lambda>(_, c). 0 \<le> c \<and> c \<le> 0 + int ?k * attempt_cost policy)"
    using E(2,3) est(3) by (intro llm_attempts_cost) (auto simp: policy_ok_def)
  then have c: "0 \<le> c" "c \<le> ?est" using w1 kc by (auto simp: results_def split: prod.splits dest!: spec [of _ w])
  have db1: "w_db w1 = w_db w"
    using llm_attempts_db [of E m policy "''fake-default''" "job_description job" ?k 0 None w] w1 by simp
  obtain res w2 where w2: "run_state (llm_finish E run outcome) w1 = (res, w2)" by fastforce
  have costs2: "d_costs (w_db w2) = d_costs (w_db w)"
    using llm_finish_costs [of E run outcome] w2 db1
    by (simp add: state_io_rel_def on_db_def same_costs_def) (metis snd_conv)
  have wf2: "db_wf (w_db w2)" using db_wf_finish [of w1 E run outcome] wf db1 w2 by simp
  have d2: "daily_cost (w_db w2) t date = b + ?est" using b(1) costs2 by (simp add: daily_cost_def)
  have delta: "wrap64 (c - ?est) = c - ?est" "in_int32 (c - ?est)"
    using c est by (auto simp: in_int64_def in_int32_def)
  have run: "w' = (if c = ?est then w2 else snd (run_state (AdjustDailyCost E t (c - ?est)) w2))"
    using w1 w2 delta t by (simp add: w' llm_spend_def case_prod_beta)
  show ?thesis
  proof (cases "c = ?est")
    case True
    then show ?thesis using run d2 est(2) by simp
  next
    case False
    then have "w_db w' = snd (AdjustDailyLLMCost (c - ?est) t date (w_db w2))"
      using run run_AdjustDailyCost [OF E(1) _ delta(2) E(4)] by simp
    moreover have "in_int32 (b + ?est + (c - ?est))"
      using b(2,3) c by (auto simp: in_int32_def)
    ultimately have "daily_cost (w_db w') t date = b + c"
      using Adjust_cost [OF wf2, of t date "c - ?est"] row costs2 d2 by simp
    then show ?thesis using c by simp
  qed
qed

lemma Reserve_granted:
  assumes "reliable E" "in_int32 cost" "in_int32 limit"
    and "run_state (ReserveDailyCost E t cost limit) w = (Inr True, w')"
    and "date = Format_DateOnly (e_now E (w_tick w))"
  shows "find (cost_key t date) (d_costs (w_db w')) \<noteq> None"
  using assms Reserve_row
  by (auto simp: ReserveDailyCost_def run_prims split: if_splits sum.splits)

lemma llm_Execute_cost:
  assumes E: "reliable E" "within_tokens E" "policy_ok policy" "\<And>n. Format_DateOnly (e_now E n) = date"
    and wf: "db_wf (w_db w)" and t: "t = run_tenantID run" and limit: "limit = MaxDailyLLMCostCents (tenant_quota E (w_db w) t)"
    and rng: "in_int32 (daily_cost (w_db w) t date)" "in_int32 limit"
    and w': "w' = snd (run_state (llm_Execute E m policy run) w)"
  shows "daily_cost (w_db w') t date = daily_cost (w_db w) t date \<or>
    daily_cost (w_db w) t date \<le> daily_cost (w_db w') t date \<and> daily_cost (w_db w') t date \<le> limit"
proof -
  let ?b = "daily_cost (w_db w) t date" and ?est = "llm_estimate policy"
  let ?w1 = "w\<lparr>w_tick := Suc (w_tick w)\<rparr>" and ?w2 = "w\<lparr>w_tick := Suc (Suc (w_tick w))\<rparr>"
  note est = policy_estimate [OF E(3)]
  have dfr: "daily_cost (w_db (snd (run_state (llm_defer E run ?est) v))) t date = daily_cost (w_db v) t date" for v
    by (rule same_costs_run [OF llm_defer_costs])
  obtain r w3 where w3: "run_state (ReserveDailyCost E t ?est limit) ?w2 = (r, w3)" by fastforce
  have honest: "honest E" using E(1) by (simp add: honest_def)
  have e32: "in_int32 ?est" using est(2,3) by (simp add: in_int32_def)
  note reserve = run_ReserveDailyCost [OF honest e32 rng(2) w3, unfolded E(4), OF refl, simplified]
  have wf3: "db_wf (w_db w3)"
    using step_wf [OF step.llm_writing(2) [of E t ?est limit], of ?w2] w3 wf by simp
  have spend: "?b \<le> daily_cost (w_db (snd (run_state (llm_spend E m policy run job) w3))) t date \<and>
      daily_cost (w_db (snd (run_state (llm_spend E m policy run job) w3))) t date \<le> limit"
    if "r = Inr True" for job
  proof -
    have d3: "daily_cost (w_db w3) t date = ?b + ?est" "daily_cost (w_db w3) t date \<le> limit"
      using reserve that by auto
    have sum: "in_int32 (?b + ?est)" using d3 rng est(2) by (auto simp: in_int32_def)
    have row: "find (cost_key t date) (d_costs (w_db w3)) \<noteq> None"
      using Reserve_granted [OF E(1) e32 rng(2) w3 [unfolded that], unfolded E(4), OF refl] .
    show ?thesis
      using llm_spend_cost [OF E wf3 row d3(1) rng(1) sum t refl, of m job] d3 by linarith
  qed
  show ?thesis
    using E(1) w3 reserve spend dfr t limit est(2)
    by (auto simp: w' llm_Execute_def run_FindJob run_quota_Get split: option.splits sum.splits bool.splits)
qed

section \<open>A concrete execution\<close>

text \<open>A policy of two attempts that cost at most two cents each, and a world with one run of a
  side-effecting job: with a cost limit of 100 cents the run succeeds, with one of 1 cent it fails.\<close>

definition sample_policy :: "int \<Rightarrow> LLMPolicy" where
  "sample_policy cents = \<lparr>TimeoutSeconds = 30, MaxRetries = 1, MaxInputTokens = 1000, MaxOutputTokens = 1000,
     MaxCostCents = cents, OutputSchema = ''''\<rparr>"

definition side_world :: "mem_redis world" where
  "side_world = start_world (empty_db\<lparr>d_jobs := [(sample_job 11 1)\<lparr>jr_side_effecting := True\<rparr>],
     d_runs := [sample_run 21 1 11 1 StatusRunning 0]\<rparr>)"

definition side_run :: JobRun where
  "side_run = jobRunFromGetByIDRow (sample_run 21 1 11 1 StatusRunning 0)"

text \<open>A model that keeps within the token limits it is given, on one day.\<close>

definition careful_env :: "mem_redis env" where
  "careful_env = sample_env\<lparr>e_now := \<lambda>n. 1767225600 * Second,
     e_llm := \<lambda>n timeout req.
       if 0 \<le> req_MaxInputTokens req \<and> 0 \<le> req_MaxOutputTokens req
       then (Inr \<lparr>resp_Content = ''ok'', resp_InputTokens = min 400 (req_MaxInputTokens req),
              resp_OutputTokens = min 300 (req_MaxOutputTokens req)\<rparr>, False)
       else (Inl DeadlineExceeded, True)\<rparr>"

lemma sample_reliable: "reliable sample_env"
  by (simp add: reliable_def sample_env_def)

lemma sample_estimate: "llm_estimate (sample_policy c) = 4" "llm_attempt_count (sample_policy c) = 2"
  by (simp_all add: llm_estimate_def sample_policy_def llm_attempt_count_def EstimateCostCents_ceiling Let_def in_int64_def)

lemma side_lookups:
  "find_job (w_db side_world) (run_jobID side_run) = Some ((sample_job 11 1)\<lparr>jr_side_effecting := True\<rparr>)"
  "find_record (w_db side_world) key = None"
  "tenant_quota sample_env (w_db side_world) t = sample_quota"
  by (simp_all add: find_job_def find_record_def tenant_quota_def side_world_def start_world_def
     empty_db_def sample_job_def side_run_def sample_run_def jobRunFromGetByIDRow_def rehydrateJobRun_def sample_env_def)

lemma sample_callModel:
  "results (callModel sample_env m policy model prompt)
     (\<lambda>r. r = Inr \<lparr>resp_Content = ''ok'', resp_InputTokens = 400, resp_OutputTokens = 300\<rparr>)"
  unfolding results_def callModel_def
  by (simp add: run_prims recordLLMLatency_def Let_def sample_env_sel)

lemma sample_attempts:
  "results (llm_attempts sample_env m (sample_policy c) model prompt (Suc k) cost err) (\<lambda>(outcome, _). outcome = Inr ())"
  unfolding llm_attempts.simps
  by (rule results_bind [OF sample_callModel])
    (simp add: Let_def sample_policy_def ValidateOutput_def, intro results_bind [OF results_any] results_return, simp)

lemma sample_spend: "results (llm_spend sample_env m (sample_policy c) run job) (\<lambda>r. r = Inr ())"
proof -
  have "nat (llm_attempt_count (sample_policy c)) = Suc 1" by (simp add: sample_estimate)
  then show ?thesis
    unfolding llm_spend_def
    by (simp only:, intro results_bind [OF sample_attempts])
      (clarsimp simp: llm_finish_def Let_def, intro conjI impI results_bind [OF results_any] results_return, simp_all)
qed

lemma sample_Execute:
  assumes job: "find_job (w_db w) (run_jobID run) = Some job" "jr_job_type job = JobTypeGenericLLM"
    and db: "d_quotas (w_db w) = []" "d_costs (w_db w) = []"
  shows "fst (run_state (llm_Execute sample_env m (sample_policy 100) run) w) = Inr ()"
    "fst (run_state (llm_Execute sample_env m (sample_policy 1) run) w) \<noteq> Inr ()"
proof -
  have j: "job_jobType (jobFromSqlc job) = JobTypeGenericLLM"
    using job(2) by (simp add: jobFromSqlc_def rehydrateJob_def)
  have c: "MaxCostCents (sample_policy c) = c" for c by (simp add: sample_policy_def)
  have q: "tenant_quota sample_env (w_db w) t = sample_quota" for t
    using db(1) by (simp add: tenant_quota_def sample_env_sel)
  let ?reserve = "run_state (ReserveDailyCost sample_env (run_tenantID run) 4 100) (w\<lparr>w_tick := Suc (Suc (w_tick w))\<rparr>)"
  have "fst ?reserve = Inr True"
    by (simp add: ReserveDailyCost_def run_prims in_int32_def sample_env_sel) (simp add: db ReserveDailyLLMCost_def)
  then obtain w' where "?reserve = (Inr True, w')" by (metis prod.collapse)
  then show "fst (run_state (llm_Execute sample_env m (sample_policy 100) run) w) = Inr ()"
    using sample_spend [of m 100 run "jobFromSqlc job"] j c q job(1)
    by (simp add: llm_Execute_def run_FindJob [OF sample_reliable] run_quota_Get [OF sample_reliable]
        sample_estimate sample_quota_def results_def)
  show "fst (run_state (llm_Execute sample_env m (sample_policy 1) run) w) \<noteq> Inr ()"
    using j c job(1)
    by (simp add: llm_Execute_def run_FindJob [OF sample_reliable] sample_estimate llm_defer_def split: prod.split sum.split)
qed

lemma sample_side:
  "\<exists>w'. run_state (idempotent_Execute sample_env (llm_Execute sample_env m (sample_policy 100)) side_run) side_world = (Inr (), w')"
  "\<exists>e w'. run_state (idempotent_Execute sample_env (llm_Execute sample_env m (sample_policy 1)) side_run) side_world = (Inl e, w')"
proof -
  let ?k = "run_idempotencyKey side_run" and ?job = "(sample_job 11 1)\<lparr>jr_side_effecting := True\<rparr>"
  obtain b w2 where b: "run_state (idem_Begin sample_env ?k ''task.default'' (run_id side_run))
    (side_world\<lparr>w_tick := Suc (w_tick side_world)\<rparr>) = (b, w2)" by fastforce
  have w2: "b = Inr True" "find_job (w_db w2) (run_jobID side_run) = Some ?job"
    using run_idem_Begin [OF sample_reliable b] side_lookups by (auto simp: find_job_def)
  have "d_quotas (w_db w2) = []" "d_costs (w_db w2) = []"
    using b by (auto simp: idem_Begin_def run_prims sample_env_sel BeginIdempotency_def side_world_def start_world_def empty_db_def)
  note ex = sample_Execute [OF w2(2) _ this, simplified]
  have j: "jr_job_type (sample_job 11 1) = JobTypeGenericLLM" "job_sideEffecting (jobFromSqlc ?job)"
    by (simp_all add: sample_job_def jobFromSqlc_def rehydrateJob_def)
  obtain r3 w3 where w3: "run_state (llm_Execute sample_env m (sample_policy 100) side_run) w2 = (r3, w3)" by fastforce
  then have "r3 = Inr ()" using ex(1) j by (metis fst_conv)
  moreover have "find_record (w_db w3) ?k \<noteq> None"
    using run_idem_Begin [OF sample_reliable b] side_lookups
      same_records_find [OF records.llm_Execute, of sample_env m "sample_policy 100" side_run w2] w3 by auto
  then have "fst (run_state (idem_Complete sample_env ?k (responseHash sample_env ?k)) w3) = Inr ()"
    using run_idem_Complete [OF sample_reliable, of ?k _ w3] by (metis prod.collapse)
  ultimately show "\<exists>w'. run_state (idempotent_Execute sample_env (llm_Execute sample_env m (sample_policy 100)) side_run) side_world = (Inr (), w')"
    using w2(1) b w3 j(2)
    by (simp add: idempotent_Execute_def run_FindJob [OF sample_reliable] side_lookups) (metis prod.collapse)
  show "\<exists>e w'. run_state (idempotent_Execute sample_env (llm_Execute sample_env m (sample_policy 1)) side_run) side_world = (Inl e, w')"
    using w2(1) b ex(2) [OF j(1), of m] j(2)
    by (auto simp add: idempotent_Execute_def run_FindJob [OF sample_reliable] side_lookups split: prod.split sum.split)
qed
section \<open>Properties\<close>





text \<open>
  C22 (safety): the LLM executor reports success only if the model answered one of its requests in
  time with a response that passes the policy's output validation.
\<close>

theorem llm_success_validated:
  assumes "run_state (llm_Execute E m policy run) w = (Inr (), w')"
  shows "\<exists>prompt resp. accepted_response E policy ''fake-default'' prompt resp"
  using llm_Execute_success [of E m policy run] assms by (auto simp: results_def dest!: spec [of _ w])

theorem llm_success_validated_witness:
  "fst (run_state (llm_Execute sample_env True (sample_policy 100) side_run) side_world) = Inr () \<and>
   (\<exists>prompt resp. accepted_response sample_env (sample_policy 100) ''fake-default'' prompt resp)"
proof -
  have "fst (run_state (llm_Execute sample_env True (sample_policy 100) side_run) side_world) = Inr ()"
    using sample_Execute(1) [OF side_lookups(1)]
    by (simp add: sample_job_def side_world_def start_world_def empty_db_def)
  then show ?thesis
    using llm_success_validated [of sample_env True "sample_policy 100" side_run side_world] by (metis prod.collapse)
qed



end
