(* ===== verification/RunQueue.thy ===== *)
theory RunQueue
  imports Sqlc
begin

text \<open>
  \<^verbatim>\<open>internal/task/queue_redis.go\<close>: the run queue and the dead-letter queue as two Redis
  streams, and the decoding of stream entries.
\<close>

definition streamMain :: string where "streamMain = ''task:runs''"
definition streamDLQ :: string where "streamDLQ = ''task:dlq''"
definition groupName :: string where "groupName = ''task-workers''"

record QueuedMessage =
  qm_StreamID :: string
  qm_Msg :: JobRunMsg

definition xadd :: "'r env \<Rightarrow> string \<Rightarrow> JobRunMsg \<Rightarrow> ('r, unit result) app" where
  "xadd E stream m = do {
     r \<leftarrow> redis_call (\<lambda>s n. r_XAdd (e_redis E) n stream (msg_Marshal (e_msg E) m) s);
     State_Monad.return (wrap_err ''xadd'' r)
   }"

definition Enqueue :: "'r env \<Rightarrow> JobRunMsg \<Rightarrow> ('r, unit result) app" where
  "Enqueue E m = xadd E streamMain m"

definition DeadLetter :: "'r env \<Rightarrow> JobRunMsg \<Rightarrow> ('r, unit result) app" where
  "DeadLetter E m = xadd E streamDLQ m"

text \<open>\<^verbatim>\<open>strings.Contains\<close>.\<close>

fun Contains :: "string \<Rightarrow> string \<Rightarrow> bool" where
  "Contains [] sub = (sub = [])"
| "Contains (c # s) sub = (take (length sub) (c # s) = sub \<or> Contains s sub)"

definition EnsureGroup :: "'r env \<Rightarrow> ('r, unit result) app" where
  "EnsureGroup E = do {
     r \<leftarrow> redis_call (\<lambda>s n. r_XGroupCreateMkStream (e_redis E) n streamMain groupName s);
     State_Monad.return (case r of
         Inl e \<Rightarrow> if Contains (err_text e) ''BUSYGROUP'' then Inr () else Inl (Errorf ''xgroup create'' e)
       | Inr _ \<Rightarrow> Inr ())
   }"

definition decodeJobRunMsg :: "msg_codec \<Rightarrow> redis_value \<Rightarrow> JobRunMsg result" where
  "decodeJobRunMsg C v =
     (let decode = (\<lambda>data. case msg_Unmarshal C data of
            None \<Rightarrow> Inl (Errorf ''unmarshal msg'' (ErrText ''invalid JSON'')) | Some m \<Rightarrow> Inr m)
      in case v of
           RString data \<Rightarrow> decode data
         | RBytes data \<Rightarrow> decode data
         | ROther t \<Rightarrow> Inl (ErrText (''unexpected data field type '' @ t)))"

fun queuedMessagesFromMessages :: "msg_codec \<Rightarrow> xmessage list \<Rightarrow> QueuedMessage list result" where
  "queuedMessagesFromMessages C [] = Inr []"
| "queuedMessagesFromMessages C ((i, v) # messages) =
     (case decodeJobRunMsg C v of
        Inl e \<Rightarrow> Inl (Errorf (''decode redis stream message '' @ i) e)
      | Inr runMsg \<Rightarrow>
          (case queuedMessagesFromMessages C messages of
             Inl e \<Rightarrow> Inl e
           | Inr out \<Rightarrow> Inr (\<lparr>qm_StreamID = i, qm_Msg = runMsg\<rparr> # out)))"

fun queuedMessagesFromStreams ::
  "msg_codec \<Rightarrow> (string \<times> xmessage list) list \<Rightarrow> QueuedMessage list result" where
  "queuedMessagesFromStreams C [] = Inr []"
| "queuedMessagesFromStreams C ((stream, messages) # streams) =
     (case queuedMessagesFromMessages C messages of
        Inl e \<Rightarrow> Inl e
      | Inr msgs \<Rightarrow>
          (case queuedMessagesFromStreams C streams of
             Inl e \<Rightarrow> Inl e
           | Inr out \<Rightarrow> Inr (msgs @ out)))"

definition queue_Read ::
  "'r env \<Rightarrow> string \<Rightarrow> int \<Rightarrow> duration \<Rightarrow> ('r, QueuedMessage list result) app" where
  "queue_Read E consumer count block = do {
     r \<leftarrow> redis_call (\<lambda>s n. r_XReadGroup (e_redis E) n groupName consumer streamMain count block s);
     State_Monad.return (case r of
         Inl e \<Rightarrow> Inl (Errorf ''xreadgroup'' e)
       | Inr None \<Rightarrow> Inr []
       | Inr (Some streams) \<Rightarrow> queuedMessagesFromStreams (e_msg E) streams)
   }"

definition Reclaim ::
  "'r env \<Rightarrow> string \<Rightarrow> duration \<Rightarrow> int \<Rightarrow> ('r, QueuedMessage list result) app" where
  "Reclaim E consumer minIdle count = do {
     r \<leftarrow> redis_call (\<lambda>s n. r_XAutoClaim (e_redis E) n streamMain groupName consumer minIdle count s);
     State_Monad.return (case r of
         Inl e \<Rightarrow> Inl (Errorf ''xautoclaim'' e)
       | Inr None \<Rightarrow> Inr []
       | Inr (Some messages) \<Rightarrow> queuedMessagesFromMessages (e_msg E) messages)
   }"

definition queue_Ack :: "'r env \<Rightarrow> string \<Rightarrow> ('r, unit result) app" where
  "queue_Ack E streamID = do {
     r \<leftarrow> redis_call (\<lambda>s n. r_XAck (e_redis E) n streamMain groupName streamID s);
     State_Monad.return (wrap_err ''xack'' r)
   }"

text \<open>The queue never touches the database.\<close>

lemmas queue_defs = Enqueue_def DeadLetter_def xadd_def EnsureGroup_def queue_Read_def Reclaim_def queue_Ack_def

context db_evolution
begin

lemma queueing:
  "state_io_rel (on_db R) (Enqueue E m)"
  "state_io_rel (on_db R) (DeadLetter E m)"
  "state_io_rel (on_db R) (EnsureGroup E)"
  "state_io_rel (on_db R) (queue_Read E c n b)"
  "state_io_rel (on_db R) (Reclaim E c idle n)"
  "state_io_rel (on_db R) (queue_Ack E i)"
  unfolding queue_defs by (intro db_intros)+

end

end
