(* ===== verification/RunMachine.thy ===== *)
theory RunMachine
  imports TaskExecutor RunQueue
begin

text \<open>
  How the stored runs evolve: the preorder \<open>follows\<close> says that every run stays stored, keeps
  its identity, moves along the status machine of \<^const>\<open>lifecycle\<close> and stays within an attempt
  budget. Every statement but the unconditional status update respects it by itself, under any
  interleaving; for that update it holds when the run the caller has in memory is as the table
  has it, which \<open>at_run\<close> says. An INTEGER column holds 32-bit values, so the attempt budget
  is stated for those.
\<close>

definition run_follows :: "int \<Rightarrow> RunRow \<Rightarrow> RunRow \<Rightarrow> bool" where
  "run_follows B r r' \<longleftrightarrow> run_keeps r r' \<and> lifecycle\<^sup>*\<^sup>* (rr_status r) (rr_status r') \<and>
     (in_int32 (rr_attempts r) \<longrightarrow> in_int32 (rr_attempts r') \<and> rr_attempts r \<le> rr_attempts r' \<and>
        (rr_attempts r < B \<longrightarrow> rr_attempts r' < B))"

definition follows :: "int \<Rightarrow> database \<Rightarrow> database \<Rightarrow> bool" where
  "follows B d d' \<longleftrightarrow> (\<forall>i row. find_run d i = Some row \<longrightarrow>
     (\<exists>row'. find_run d' i = Some row' \<and> run_follows B row row'))"

lemma run_follows_refl [simp]: "run_follows B r r"
  by (simp add: run_follows_def)

lemma run_follows_trans: "run_follows B r r' \<Longrightarrow> run_follows B r' r'' \<Longrightarrow> run_follows B r r''"
  by (auto simp: run_follows_def intro: keeps_trans)

lemma follows_refl [simp]: "follows B d d"
  by (simp add: follows_def)

lemma follows_trans: "follows B d d' \<Longrightarrow> follows B d' d'' \<Longrightarrow> follows B d d''"
  unfolding follows_def by (meson run_follows_trans)

lemma follows_same_runs: "d_runs d' = d_runs d \<Longrightarrow> follows B d d'"
  by (simp add: follows_def find_run_def)

lemma follows_append: "d_runs d' = d_runs d @ rs \<Longrightarrow> follows B d d'"
  by (simp add: follows_def find_run_def find_append)

lemma follows_update:
  assumes "d_runs d' = update_where P f (d_runs d)"
    and "\<And>r. rr_id (f r) = rr_id r" "\<And>r. P r \<Longrightarrow> run_follows B r (f r)"
  shows "follows B d d'"
  using assms by (auto simp: follows_def find_run_def find_update_where_key)

text \<open>A terminal run is final.\<close>

lemma lifecycle_terminal: "lifecycle\<^sup>*\<^sup>* s t \<Longrightarrow> isTerminalStatus s \<Longrightarrow> t = s"
  by (induction rule: rtranclp_induct) (auto simp: lifecycle_iff isTerminalStatus_def)

lemma follows_terminal:
  assumes "follows B d d'" "find_run d i = Some row" "isTerminalStatus (rr_status row)"
  shows "\<exists>row'. find_run d' i = Some row' \<and> rr_status row' = rr_status row"
  using assms lifecycle_terminal unfolding follows_def run_follows_def by blast

interpretation machine: api_statements "follows B" for B
proof unfold_locales
  fix d e t date cost limit delta key i h c u j r a m s ur n
  show "follows B d (snd (InsertUser ur d))" "follows B d (snd (UpdateUserDisplayName n u i d))"
    by (rule follows_same_runs, simp add: InsertUser_def UpdateUserDisplayName_def)+
  show "follows B d d" by simp
  show "follows B d (snd (InsertRunEvent e d))"
    by (rule follows_same_runs) (simp add: InsertRunEvent_def)
  show "follows B d (snd (ReserveDailyLLMCost t date cost limit d))"
    by (rule follows_same_runs) (simp add: ReserveDailyLLMCost_def Let_def split: option.split)
  show "follows B d (snd (AdjustDailyLLMCost delta t date d))"
    by (rule follows_same_runs) (simp add: AdjustDailyLLMCost_def)
  show "follows B d (snd (BeginIdempotency key i h c u d))"
    by (rule follows_same_runs) (simp add: BeginIdempotency_def)
  show "follows B d (snd (CompleteIdempotency s u key d))"
    by (rule follows_same_runs) (simp add: CompleteIdempotency_def)
  show "follows B d (snd (InsertJobRun r d))"
    by (simp add: InsertJobRun_def follows_append split: option.split)
  show "follows B d (snd (InsertJob j d))"
    by (rule follows_same_runs) (simp add: InsertJob_def split: option.split)
  show "follows B d (snd (InsertJobRunIfAbsent a d))"
    by (simp add: InsertJobRunIfAbsent_def Let_def follows_append split: option.split)
  show "follows B d (snd (CancelPendingJobRuns c u t i d))" for i
    unfolding CancelPendingJobRuns_def Let_def snd_conv
    by (rule follows_update, simp)
      (auto simp: run_follows_def run_keeps_def cancellable_def isTerminalStatus_def intro!: lifecycle.cancel)
qed (rule follows_trans)

interpretation claim_machine: claiming_statements "follows B" for B
proof unfold_locales
  show "follows B d (snd (TryMarkJobRunRunning m d))" for d m
    unfolding TryMarkJobRunRunning_def Let_def snd_conv
    by (rule follows_update, simp)
      (auto simp: run_follows_def run_keeps_def intro!: r_into_rtranclp [of lifecycle] intro: lifecycle.intros)
qed

section \<open>The run in memory and the run in the table\<close>

definition at_run :: "int \<Rightarrow> database \<Rightarrow> JobRun \<Rightarrow> database \<Rightarrow> bool" where
  "at_run B d0 run d \<longleftrightarrow> follows B d0 d \<and>
     (\<exists>row0 row. find_run d0 (run_id run) = Some row0 \<and> find_run d (run_id run) = Some row \<and>
        rr_status row = run_status run \<and> (in_int32 (rr_attempts row0) \<longrightarrow> rr_attempts row = run_attempts run))"

lemma at_run_same_runs: "d_runs d' = d_runs d \<Longrightarrow> at_run B d0 run d = at_run B d0 run d'"
  by (simp add: at_run_def follows_def find_run_def)

lemma at_run_setError [simp]: "at_run B d0 (setError c m run) d = at_run B d0 run d"
  by (simp add: at_run_def setError_def)

lemma at_run_start: "find_run d i = Some row \<Longrightarrow> at_run B d (jobRunFromGetByIDRow row) d"
  using find_run_id [of d i row] by (simp add: at_run_def)

lemma at_run_update:
  assumes pre: "at_run B d0 run0 d" and step: "apply_op op now run0 = Inr run"
    and budget: "op = OpRetry \<longrightarrow> wrap64 (run_attempts run0 + 1) < B" "B \<le> 2 ^ 31"
  shows "at_run B d0 run (snd (UpdateJobRunStatus (jobRunToUpdateStatusParams run) d))"
proof -
  let ?a = "jobRunToUpdateStatusParams run"
  have id: "run_id run = run_id run0" using apply_op_identity [OF step] by (simp add: run_identity_def)
  obtain row0 row where row0: "find_run d0 (run_id run) = Some row0" and row: "find_run d (run_id run) = Some row"
    "rr_status row = run_status run0" "in_int32 (rr_attempts row0) \<longrightarrow> rr_attempts row = run_attempts run0"
    and fol: "follows B d0 d"
    using pre id by (auto simp: at_run_def)
  have rf: "run_follows B row0 row" using fol row0 row(1) by (fastforce simp: follows_def)
  have st: "status_check (run_status run)"
    using step by (cases op) (auto simp: transition_defs split: if_splits)
  have row': "find_run (snd (UpdateJobRunStatus ?a d)) i =
      (if i = run_id run then Some (set_run_status ?a row) else find_run d i)" for i
    using row(1) st by (simp add: find_run_update)
  have sel: "rr_status (set_run_status ?a row) = run_status run"
      "rr_attempts (set_run_status ?a row) = wrap32 (run_attempts run)"
      "run_keeps row (set_run_status ?a row)"
    by (simp_all add: set_run_status_def run_keeps_def)
  have att: "in_int32 (run_attempts run) \<and> run_attempts run0 \<le> run_attempts run \<and>
      (rr_attempts row0 < B \<longrightarrow> run_attempts run < B) \<and> run_attempts run0 = rr_attempts row"
    if "in_int32 (rr_attempts row0)"
    using that rf row(3) apply_op_attempts [OF step] budget
    by (auto simp: run_follows_def in_int32_def in_int64_def)
  have "run_follows B row0 (set_run_status ?a row)"
    using rf att sel apply_op_lifecycle [OF step] row(2) keeps_trans(1) [of row0 row]
    by (auto simp: run_follows_def intro: rtranclp.rtrancl_into_rtrancl)
  then have "follows B d0 (snd (UpdateJobRunStatus ?a d))"
    using fol row' row0 by (auto simp: follows_def)
  then show ?thesis using row0 row' sel att by (auto simp: at_run_def)
qed

section \<open>Triples\<close>

text \<open>A relation that a program respects, as an assertion relative to a starting point.\<close>

lemma triple_follows:
  "state_io_rel (on_db (follows B)) m \<Longrightarrow> triple (dbp (follows B d0)) m (\<lambda>_. dbp (follows B d0))"
  by (auto simp: state_io_rel_def on_db_def triple_def dbp_def intro: follows_trans)

lemma at_run_follows: "dbp (at_run B d0 run) w \<Longrightarrow> dbp (follows B d0) w"
  by (simp add: dbp_def at_run_def)

text \<open>A step that leaves the tables of jobs and runs alone, then the rest.\<close>

lemma triple_then:
  assumes "state_io_rel (on_db same_runs) m" "\<And>a. triple (dbp (at_run B d0 run)) (f a) Q"
  shows "triple (dbp (at_run B d0 run)) (m \<bind> f) Q"
proof (rule triple_bind [OF _ assms(2)])
  show "triple (dbp (at_run B d0 run)) m (\<lambda>_. dbp (at_run B d0 run))"
    using assms(1) unfolding state_io_rel_def on_db_def same_runs_def triple_def dbp_def
    by (blast intro: at_run_same_runs [THEN iffD1, rotated])
qed

text \<open>The rest of a handler that no longer writes the run's status.\<close>

lemma triple_rest:
  "state_io_rel (on_db (follows B)) m \<Longrightarrow> triple (dbp (at_run B d0 run)) m (\<lambda>_. dbp (follows B d0))"
  by (rule triple_weaken [OF triple_follows]) (auto intro: at_run_follows)

lemma triple_done: "triple (dbp (at_run B d0 run)) (State_Monad.return a) (\<lambda>_. dbp (follows B d0))"
  by (rule triple_rest [OF machine.world.io_return])

lemma triple_PersistRunTransition:
  assumes "apply_op op now run0 = Inr run" "op = OpRetry \<longrightarrow> wrap64 (run_attempts run0 + 1) < B" "B \<le> 2 ^ 31"
  shows "triple (dbp (at_run B d0 run0)) (PersistRunTransition E run ev)
    (\<lambda>r. dbp (if r = Inr () then at_run B d0 run else follows B d0))"
proof (rule tripleI)
  fix w r w'
  assume pre: "dbp (at_run B d0 run0) w" and run: "run_state (PersistRunTransition E run ev) w = (r, w')"
  have "d_runs (transition_db run ev (w_db w)) = d_runs (snd (UpdateJobRunStatus (jobRunToUpdateStatusParams run) (w_db w)))"
    by (simp add: transition_db_def InsertRunEvent_def)
  from at_run_same_runs [OF this, THEN iffD1] have "at_run B d0 run (transition_db run ev (w_db w))"
    using at_run_update [OF pre [unfolded dbp_def] assms] .
  then show "dbp (if r = Inr () then at_run B d0 run else follows B d0) w'"
    using run_PersistRunTransition [OF run] pre by (auto simp: dbp_def at_run_def)
qed

text \<open>A transition that is persisted, and what the handler does with the outcome.\<close>

lemma triple_persist:
  assumes "apply_op op now run0 = Inr run" "op = OpRetry \<longrightarrow> wrap64 (run_attempts run0 + 1) < B" "B \<le> 2 ^ 31"
    and "\<And>e. state_io_rel (on_db (follows B)) (f e)"
    and "triple (dbp (at_run B d0 run)) g (\<lambda>_. dbp (follows B d0))"
  shows "triple (dbp (at_run B d0 run0))
    (PersistRunTransition E run ev \<bind> (\<lambda>r. case r of Inl e \<Rightarrow> f e | Inr _ \<Rightarrow> g)) (\<lambda>_. dbp (follows B d0))"
proof (rule triple_bind [OF triple_PersistRunTransition [OF assms(1-3)]])
  fix r :: "unit result"
  show "triple (dbp (if r = Inr () then at_run B d0 run else follows B d0))
      (case r of Inl e \<Rightarrow> f e | Inr _ \<Rightarrow> g) (\<lambda>_. dbp (follows B d0))"
    using assms(5) triple_follows [OF assms(4)] by (cases r) auto
qed

lemma triple_TryMarkRunRunning:
  assumes mark: "MarkRunning now run0 = Inr run"
  shows "triple (dbp (at_run B d0 run0)) (TryMarkRunRunning E run ev limit)
    (\<lambda>r. dbp (if r = Inr True then at_run B d0 run else follows B d0))"
proof (rule tripleI)
  fix w r w'
  assume pre: "dbp (at_run B d0 run0) w" and run: "run_state (TryMarkRunRunning E run ev limit) w = (r, w')"
  have fol: "follows B d0 (w_db w')"
    using triple_rest [OF claim_machine.claiming] pre run unfolding triple_def dbp_def by (metis snd_conv)
  have same: "run_id run = run_id run0" "run_attempts run = run_attempts run0" "run_status run = StatusRunning"
    "run_status run0 = StatusQueued \<or> run_status run0 = StatusRetry"
    using mark by (auto simp: MarkRunning_def split: if_splits)
  show "dbp (if r = Inr True then at_run B d0 run else follows B d0) w'"
  proof (cases "r = Inr True")
    case True
    let ?a = "claim_params run limit"
    have claim: "w_db w' = claim_db run ev limit (w_db w)" "fst (TryMarkJobRunRunning ?a (w_db w)) = Inr True"
      using run_TryMarkRunRunning [OF run] True by simp_all
    then have "int (running_count (w_db w) (tm_TenantID ?a)) < tm_RunLimit ?a"
      by (auto simp: TryMarkJobRunRunning_def Let_def running_count_def)
    then have "find_run (w_db w') (run_id run) = map_option (\<lambda>r.
        if rr_id r = run_id run \<and> (rr_status r = StatusQueued \<or> rr_status r = StatusRetry)
        then r\<lparr>rr_status := StatusRunning, rr_started_at := Some (tm_StartedAt ?a), rr_updated_at := tm_UpdatedAt ?a\<rparr>
        else r) (find_run (w_db w) (run_id run))"
      unfolding claim(1) claim_db_def find_run_event find_run_claim by (simp add: claim_params_def)
    moreover obtain row0 row where "find_run d0 (run_id run) = Some row0" and row: "find_run (w_db w) (run_id run) = Some row"
      and "rr_status row = StatusQueued \<or> rr_status row = StatusRetry"
      "in_int32 (rr_attempts row0) \<longrightarrow> rr_attempts row = run_attempts run"
      using pre same by (auto simp: dbp_def at_run_def)
    ultimately show ?thesis
      using find_run_id [OF row] same fol True by (auto simp: dbp_def at_run_def)
  qed (use fol in \<open>simp add: dbp_def\<close>)
qed

text \<open>Reading a run, and a handler's whole effect from triples relative to its start.\<close>

lemma triple_FindRunByID:
  "triple (dbp ((=) d0)) (FindRunByID E i)
     (\<lambda>r. dbp (case r of Inl _ \<Rightarrow> follows B d0 | Inr run \<Rightarrow> at_run B d0 run))"
proof (rule tripleI)
  fix w r w'
  assume "dbp ((=) d0) w" and run: "run_state (FindRunByID E i) w = (r, w')"
  then have "w_db w' = d0" "\<And>run. r = Inr run \<Longrightarrow> \<exists>row. find_run d0 i = Some row \<and> run = jobRunFromGetByIDRow row"
    by (auto simp: dbp_def FindRunByID_def run_db_exec GetJobRunByID_def find_run_def
        split: fault.splits option.splits if_splits)
  then show "dbp (case r of Inl _ \<Rightarrow> follows B d0 | Inr run \<Rightarrow> at_run B d0 run) w'"
    by (auto simp: dbp_def split: sum.split dest: at_run_start)
qed

lemma rel_of_triple:
  "(\<And>d. triple (dbp ((=) d)) m (\<lambda>_. dbp (R d))) \<Longrightarrow> state_io_rel (on_db R) m"
  unfolding state_io_rel_def on_db_def triple_def dbp_def by blast

end
