(* ===== verification/TaskWorker.thy ===== *)
theory TaskWorker
  imports RunMachine "HOL-Library.While_Combinator" "HOL-Library.Multiset"
begin

text \<open>
  \<^verbatim>\<open>internal/task/worker.go\<close>: fair ordering of a batch, the processing of one queue
  message with its retry and dead-letter paths, the runs of child jobs, and one turn of the
  worker's loop. The executor is a parameter, as it is in the code.
\<close>

section \<open>Constants and configuration\<close>

definition maxAttempts :: int where "maxAttempts = 3"
definition workerReadCount :: int where "workerReadCount = 10"
definition workerReadBlock :: duration where "workerReadBlock = 5 * Second"
definition workerMessageTimeout :: duration where "workerMessageTimeout = 3 * Minute_ns"
definition workerReclaimMinIdle :: duration where
  "workerReclaimMinIdle = workerMessageTimeout + 30 * Second"

text \<open>The worker's identity, and whether it has a quota repository and metrics.\<close>

record worker =
  wk_id :: string
  wk_quota :: bool
  wk_metrics :: bool

section \<open>Fair ordering\<close>

type_synonym tenant_queues = "string \<Rightarrow> QueuedMessage list option"

definition msg_tenant :: "QueuedMessage \<Rightarrow> string" where
  "msg_tenant m = msg_TenantID (qm_Msg m)"

definition group_msg :: "QueuedMessage \<Rightarrow> string list \<times> tenant_queues \<Rightarrow> string list \<times> tenant_queues" where
  "group_msg msg = (\<lambda>(order, byTenant).
     (if byTenant (msg_tenant msg) = None then order @ [msg_tenant msg] else order,
      byTenant(msg_tenant msg \<mapsto>
        (case byTenant (msg_tenant msg) of None \<Rightarrow> [] | Some q \<Rightarrow> q) @ [msg])))"

definition take_turn ::
  "string \<Rightarrow> QueuedMessage list \<times> tenant_queues \<Rightarrow> QueuedMessage list \<times> tenant_queues" where
  "take_turn tenantID = (\<lambda>(out, byTenant).
     case byTenant tenantID of
       Some (m # rest) \<Rightarrow> (out @ [m], byTenant(tenantID \<mapsto> rest))
     | _ \<Rightarrow> (out, byTenant))"

text \<open>The loop \<^verbatim>\<open>for len(out) < len(msgs)\<close>, one pass over the tenants each time.\<close>

definition fair_loop :: "QueuedMessage list \<Rightarrow> (QueuedMessage list \<times> tenant_queues) option" where
  "fair_loop msgs =
     (let (order, byTenant) = fold group_msg msgs ([], Map.empty)
      in while_option (\<lambda>(out, byTenant). length out < length msgs) (fold take_turn order) ([], byTenant))"

definition fairOrder :: "QueuedMessage list \<Rightarrow> QueuedMessage list" where
  "fairOrder msgs = (case fair_loop msgs of Some (out, _) \<Rightarrow> out | None \<Rightarrow> [])"

section \<open>Persisting and announcing\<close>

definition ack :: "'r env \<Rightarrow> string \<Rightarrow> ('r, unit) app" where
  "ack E streamID = do { _ \<leftarrow> queue_Ack E streamID; State_Monad.return () }"

definition persistTransition :: "'r env \<Rightarrow> JobRun \<Rightarrow> RunEvent \<Rightarrow> ('r, unit result) app" where
  "persistTransition E run event = PersistRunTransition E run event"

definition worker_appendEvent ::
  "'r env \<Rightarrow> JobRun \<Rightarrow> EventType \<Rightarrow> payload \<Rightarrow> ('r, unit result) app" where
  "worker_appendEvent E run eventType payload = do {
     ev \<leftarrow> new_event E run (run_status run) eventType payload;
     AppendEvent E ev
   }"

definition acquireRunSlot ::
  "'r env \<Rightarrow> worker \<Rightarrow> JobRun \<Rightarrow> RunEvent \<Rightarrow> ('r, bool result) app" where
  "acquireRunSlot E wk run event =
     (if \<not> wk_quota wk then State_Monad.return (Inr True)
      else do {
        r \<leftarrow> quota_Get E (run_tenantID run);
        case r of
          Inl e \<Rightarrow> State_Monad.return (Inl (Errorf ''get tenant quota'' e))
        | Inr quota \<Rightarrow> TryMarkRunRunning E run event (MaxConcurrentRuns quota)
      })"

definition run_msg :: "'r env \<Rightarrow> JobRun \<Rightarrow> int \<Rightarrow> JobRunMsg" where
  "run_msg E run attempts = \<lparr>
     msg_JobRunID = uuid_String (e_uuid E) (run_id run),
     msg_TenantID = uuid_String (e_uuid E) (run_tenantID run),
     msg_IdempotencyKey = run_idempotencyKey run,
     msg_Attempts = attempts\<rparr>"

section \<open>Child jobs\<close>

definition enqueueChild :: "'r env \<Rightarrow> JobRun \<Rightarrow> Job \<Rightarrow> ('r, unit) app" where
  "enqueueChild E parent child = do {
     r \<leftarrow> ListRunsByJob E (job_tenantID child) (job_id child) (NewPagination 1 0);
     case r of
       Inl e \<Rightarrow> State_Monad.return ()
     | Inr (_, cnt) \<Rightarrow> do {
         scheduledAt \<leftarrow> time_Now E;
         now \<leftarrow> time_Now E;
         i \<leftarrow> uuid_NewV7 E;
         case NewJobRun (e_uuid E) now i (job_tenantID child) (job_id child) (wrap64 (cnt + 1)) scheduledAt of
           Inl e \<Rightarrow> State_Monad.return ()
         | Inr run \<Rightarrow> do {
             now \<leftarrow> time_Now E;
             case MarkQueued now run of
               Inl e \<Rightarrow> State_Monad.return ()
             | Inr run \<Rightarrow> do {
                 r \<leftarrow> SaveRun E run;
                 case r of
                   Inl e \<Rightarrow> State_Monad.return ()
                 | Inr _ \<Rightarrow> do {
                     r \<leftarrow> Enqueue E (run_msg E run 0);
                     case r of
                       Inl e \<Rightarrow> State_Monad.return ()
                     | Inr _ \<Rightarrow> do {
                         _ \<leftarrow> worker_appendEvent E run EventChildEnqueued
                               (Some [(''parent_job_id'', JStr (uuid_String (e_uuid E) (run_jobID parent)))]);
                         State_Monad.return ()
                       }
                   }
               }
           }
       }
   }"

definition enqueueChildren :: "'r env \<Rightarrow> JobRun \<Rightarrow> ('r, unit) app" where
  "enqueueChildren E parent = do {
     r \<leftarrow> FindChildren E (run_jobID parent) (run_status parent);
     case r of
       Inl e \<Rightarrow> State_Monad.return ()
     | Inr children \<Rightarrow> for_each children (enqueueChild E parent)
   }"

section \<open>The failure path\<close>

definition failRun :: "'r env \<Rightarrow> worker \<Rightarrow> QueuedMessage \<Rightarrow> JobRun \<Rightarrow> error \<Rightarrow> ('r, unit) app" where
  "failRun E wk qm run execErr = do {
     let run = setError ''execution_error'' (err_text execErr) run;
     now \<leftarrow> time_Now E;
     case MarkFailed now run of
       Inl e \<Rightarrow> State_Monad.return ()
     | Inr run \<Rightarrow> do {
         let payload = Some [(''error_code'', JStr (run_errorCode run)),
                             (''error_message'', JStr (run_errorMsg run))];
         ev \<leftarrow> new_event E run (run_status run) EventJobRunFailed payload;
         r \<leftarrow> persistTransition E run ev;
         case r of
           Inl e \<Rightarrow> State_Monad.return ()
         | Inr _ \<Rightarrow> do {
             r \<leftarrow> worker_appendEvent E run EventJobRunDLQ payload;
             case r of
               Inl e \<Rightarrow> State_Monad.return ()
             | Inr _ \<Rightarrow> do {
                 enqueueChildren E run;
                 r \<leftarrow> DeadLetter E (qm_Msg qm);
                 case r of
                   Inl e \<Rightarrow> State_Monad.return ()
                 | Inr _ \<Rightarrow> do {
                     recordRun (wk_metrics wk) run;
                     recordDLQ (wk_metrics wk);
                     ack E (qm_StreamID qm)
                   }
               }
           }
       }
   }"

definition retryRun :: "'r env \<Rightarrow> worker \<Rightarrow> QueuedMessage \<Rightarrow> JobRun \<Rightarrow> error \<Rightarrow> ('r, unit) app" where
  "retryRun E wk qm run execErr = do {
     let run = setError ''execution_error'' (err_text execErr) run;
     now \<leftarrow> time_Now E;
     case MarkRetry now run of
       Inl e \<Rightarrow> State_Monad.return ()
     | Inr run \<Rightarrow> do {
         ev \<leftarrow> new_event E run (run_status run) EventJobRunRetry
                (Some [(''attempt'', JNum (of_int (run_attempts run))),
                       (''error'', JStr (err_text execErr))]);
         r \<leftarrow> persistTransition E run ev;
         case r of
           Inl e \<Rightarrow> State_Monad.return ()
         | Inr _ \<Rightarrow> do {
             recordRun (wk_metrics wk) run;
             r \<leftarrow> Enqueue E (run_msg E run (run_attempts run));
             case r of
               Inl e \<Rightarrow> State_Monad.return ()
             | Inr _ \<Rightarrow> do {
                 r \<leftarrow> worker_appendEvent E run EventJobRunEnqueued None;
                 case r of
                   Inl e \<Rightarrow> State_Monad.return ()
                 | Inr _ \<Rightarrow> ack E (qm_StreamID qm)
               }
           }
       }
   }"

definition handleFailure :: "'r env \<Rightarrow> worker \<Rightarrow> QueuedMessage \<Rightarrow> JobRun \<Rightarrow> error \<Rightarrow> ('r, unit) app" where
  "handleFailure E wk qm run execErr =
     (if wrap64 (run_attempts run + 1) \<ge> maxAttempts then failRun E wk qm run execErr
      else retryRun E wk qm run execErr)"

section \<open>Processing a message\<close>

text \<open>From the execution of the claimed run to its end.\<close>

definition executeRun ::
  "'r env \<Rightarrow> worker \<Rightarrow> (JobRun \<Rightarrow> ('r, unit result) app) \<Rightarrow> QueuedMessage \<Rightarrow> JobRun \<Rightarrow> ('r, unit) app" where
  "executeRun E wk execute qm run = do {
     r \<leftarrow> execute run;
     case r of
       Inl err \<Rightarrow> handleFailure E wk qm run err
     | Inr _ \<Rightarrow> do {
         now \<leftarrow> time_Now E;
         case MarkSuccess now run of
           Inl e \<Rightarrow> State_Monad.return ()
         | Inr run \<Rightarrow> do {
             ev \<leftarrow> new_event E run (run_status run) EventJobRunSucceeded None;
             r \<leftarrow> persistTransition E run ev;
             case r of
               Inl e \<Rightarrow> State_Monad.return ()
             | Inr _ \<Rightarrow> do {
                 enqueueChildren E run;
                 recordRun (wk_metrics wk) run;
                 ack E (qm_StreamID qm)
               }
           }
       }
   }"

definition startRun ::
  "'r env \<Rightarrow> worker \<Rightarrow> (JobRun \<Rightarrow> ('r, unit result) app) \<Rightarrow> QueuedMessage \<Rightarrow> JobRun \<Rightarrow> ('r, unit) app" where
  "startRun E wk execute qm run = do {
     now \<leftarrow> time_Now E;
     case MarkRunning now run of
       Inl e \<Rightarrow> ack E (qm_StreamID qm)
     | Inr run \<Rightarrow> do {
         startedEvent \<leftarrow> new_event E run (run_status run) EventJobRunStarted None;
         r \<leftarrow> acquireRunSlot E wk run startedEvent;
         case r of
           Inl e \<Rightarrow> State_Monad.return ()
         | Inr acquired \<Rightarrow>
             if \<not> acquired then recordRunDeferred (wk_metrics wk) ''max_concurrent_runs''
             else if \<not> wk_quota wk then do {
               r \<leftarrow> persistTransition E run startedEvent;
               case r of
                 Inl e \<Rightarrow> State_Monad.return ()
               | Inr _ \<Rightarrow> executeRun E wk execute qm run
             }
             else executeRun E wk execute qm run
       }
   }"

definition process ::
  "'r env \<Rightarrow> worker \<Rightarrow> (JobRun \<Rightarrow> ('r, unit result) app) \<Rightarrow> QueuedMessage \<Rightarrow> bool \<Rightarrow> ('r, unit) app" where
  "process E wk execute qm reclaimed =
     (case ParseJobRunID (e_uuid E) (msg_JobRunID (qm_Msg qm)) of
        Inl e \<Rightarrow> ack E (qm_StreamID qm)
      | Inr runID \<Rightarrow> do {
          r \<leftarrow> FindRunByID E runID;
          case r of
            Inl e \<Rightarrow> State_Monad.return ()
          | Inr run \<Rightarrow>
              if IsTerminal run then ack E (qm_StreamID qm)
              else if run_status run = StatusRunning then
                (if reclaimed then handleFailure E wk qm run ErrWorkerStalled
                 else ack E (qm_StreamID qm))
              else if run_status run \<noteq> StatusQueued \<and> run_status run \<noteq> StatusRetry
              then ack E (qm_StreamID qm)
              else startRun E wk execute qm run
        })"

definition processReclaimed ::
  "'r env \<Rightarrow> worker \<Rightarrow> (JobRun \<Rightarrow> ('r, unit result) app) \<Rightarrow> ('r, unit result) app" where
  "processReclaimed E wk execute = do {
     r \<leftarrow> Reclaim E (wk_id wk) workerReclaimMinIdle workerReadCount;
     case r of
       Inl e \<Rightarrow> State_Monad.return (Inl e)
     | Inr msgs \<Rightarrow> do {
         for_each (fairOrder msgs) (\<lambda>msg. process E wk execute msg True);
         State_Monad.return (Inr ())
       }
   }"

text \<open>One turn of the loop of \<^verbatim>\<open>Run\<close> while the context is live.\<close>

definition worker_turn ::
  "'r env \<Rightarrow> worker \<Rightarrow> (JobRun \<Rightarrow> ('r, unit result) app) \<Rightarrow> ('r, unit) app" where
  "worker_turn E wk execute = do {
     _ \<leftarrow> processReclaimed E wk execute;
     r \<leftarrow> queue_Read E (wk_id wk) workerReadCount workerReadBlock;
     case r of
       Inl e \<Rightarrow> State_Monad.return ()
     | Inr msgs \<Rightarrow> for_each (fairOrder msgs) (\<lambda>msg. process E wk execute msg False)
   }"

section \<open>Relations kept by the worker\<close>

context db_evolution
begin

lemma ack: "state_io_rel (on_db R) (ack E i)"
  unfolding ack_def by (intro db_intros queueing)

end

context event_statements
begin

lemma worker_appendEvent: "state_io_rel (on_db R) (worker_appendEvent E run t p)"
  unfolding worker_appendEvent_def by (intro event_intros event)

end

context child_statements
begin

lemma enqueueChild: "state_io_rel (on_db R) (enqueueChild E parent child)"
  unfolding enqueueChild_def by (intro child_intros queueing worker_appendEvent) (erule not_running)

lemma enqueueChildren: "state_io_rel (on_db R) (enqueueChildren E parent)"
  unfolding enqueueChildren_def by (intro child_intros enqueueChild)

end

context claiming_statements
begin

lemma acquireRunSlot: "state_io_rel (on_db R) (acquireRunSlot E wk run ev)"
  unfolding acquireRunSlot_def by (intro claiming event_intros)

end

context status_statements
begin

lemma handleFailure: "state_io_rel (on_db R) (handleFailure E wk qm run err)"
  unfolding handleFailure_def failRun_def retryRun_def persistTransition_def
  by (intro store_intros queueing worker_appendEvent enqueueChildren metrics ack event) (erule not_running)+

lemma executeRun:
  "(\<And>run. state_io_rel (on_db R) (execute run)) \<Longrightarrow> state_io_rel (on_db R) (executeRun E wk execute qm run)"
  unfolding executeRun_def persistTransition_def
  by (intro store_intros handleFailure event enqueueChildren metrics ack) (assumption | erule not_running)+

end

context statements
begin

lemma process:
  "(\<And>run. state_io_rel (on_db R) (execute run)) \<Longrightarrow> state_io_rel (on_db R) (process E wk execute qm reclaimed)"
  unfolding process_def startRun_def persistTransition_def
  by (intro writing_any guarded_intros ack handleFailure event acquireRunSlot metrics executeRun)

lemma worker_turn:
  "(\<And>run. state_io_rel (on_db R) (execute run)) \<Longrightarrow> state_io_rel (on_db R) (worker_turn E wk execute)"
  unfolding worker_turn_def processReclaimed_def by (intro store_intros queueing process)

end

section \<open>The round-robin order\<close>

text \<open>
  The tenants of a batch in the order of their first message, and the messages of one tenant. The
  order the loop computes is the concatenation of the columns of the tenants' queues: the first
  messages of all tenants, then the second ones, and so on.
\<close>

lemma length_transpose_tl:
  "\<exists>q\<in>set qs. q \<noteq> [] \<Longrightarrow> length (transpose qs) = Suc (length (transpose (map tl qs)))"
proof (induction qs)
  case (Cons q qs)
  then show ?case
    by (cases "\<exists>q\<in>set qs. q \<noteq> []") (auto simp: length_transpose, (induction qs; auto)+)
qed simp

lemma transpose_tl:
  assumes "\<exists>q\<in>set qs. q \<noteq> []"
  shows "transpose qs = map hd (filter (\<lambda>q. q \<noteq> []) qs) # transpose (map tl qs)"
proof (rule nth_equalityI)
  show "length (transpose qs) = length (map hd (filter (\<lambda>q. q \<noteq> []) qs) # transpose (map tl qs))"
    using length_transpose_tl [OF assms] by simp
next
  fix i assume i: "i < length (transpose qs)"
  show "transpose qs ! i = (map hd (filter (\<lambda>q. q \<noteq> []) qs) # transpose (map tl qs)) ! i"
  proof (cases i)
    case 0
    then show ?thesis using i by (auto simp: nth_transpose hd_conv_nth cong: filter_cong)
  next
    case (Suc k)
    then have "k < length (transpose (map tl qs))" using i length_transpose_tl [OF assms] by simp
    then show ?thesis using i Suc
      by (auto simp: nth_transpose filter_map comp_def nth_tl less_diff_conv)
  qed
qed

lemma transpose_all_empty: "\<forall>q\<in>set qs. q = [] \<Longrightarrow> transpose qs = []"
  by (induction qs) auto

definition tenants :: "QueuedMessage list \<Rightarrow> string list" where
  "tenants msgs = rev (remdups (rev (map msg_tenant msgs)))"

definition tenant_msgs :: "QueuedMessage list \<Rightarrow> string \<Rightarrow> QueuedMessage list" where
  "tenant_msgs msgs t = filter (\<lambda>m. msg_tenant m = t) msgs"

definition queue_of :: "tenant_queues \<Rightarrow> string \<Rightarrow> QueuedMessage list" where
  "queue_of byTenant t = (case byTenant t of None \<Rightarrow> [] | Some q \<Rightarrow> q)"

lemma set_tenants [simp]: "set (tenants msgs) = msg_tenant ` set msgs"
  by (simp add: tenants_def)

lemma group_msgs:
  "\<exists>byTenant. fold group_msg msgs ([], Map.empty) = (tenants msgs, byTenant) \<and>
     queue_of byTenant = tenant_msgs msgs \<and> dom byTenant = msg_tenant ` set msgs"
proof (induction msgs rule: rev_induct)
  case Nil
  show ?case by (auto simp: tenants_def queue_of_def tenant_msgs_def)
next
  case (snoc m msgs)
  then obtain b where b: "fold group_msg msgs ([], Map.empty) = (tenants msgs, b)"
    "queue_of b = tenant_msgs msgs" "dom b = msg_tenant ` set msgs" by blast
  have "b (msg_tenant m) = None \<longleftrightarrow> msg_tenant m \<notin> set (tenants msgs)" using b(3) by auto
  then have "fst (group_msg m (tenants msgs, b)) = tenants (msgs @ [m])"
    by (auto simp: group_msg_def tenants_def)
  moreover have "queue_of (snd (group_msg m (tenants msgs, b))) = tenant_msgs (msgs @ [m])"
    using fun_cong [OF b(2)] by (auto simp: group_msg_def queue_of_def tenant_msgs_def fun_eq_iff)
  moreover have "dom (snd (group_msg m (tenants msgs, b))) = msg_tenant ` set (msgs @ [m])"
    using b(3) by (auto simp: group_msg_def)
  moreover have "fold group_msg (msgs @ [m]) ([], Map.empty) = group_msg m (tenants msgs, b)" using b(1) by simp
  ultimately show ?case by (metis prod.collapse)
qed

lemma take_turn_effect:
  assumes "take_turn a (out, b) = (out', b')"
  shows "out' = out @ (if queue_of b a = [] then [] else [hd (queue_of b a)])"
    and "queue_of b' x = (if x = a then tl (queue_of b a) else queue_of b x)"
  using assms by (auto simp: take_turn_def queue_of_def split: option.splits list.splits)

lemma take_turns:
  "distinct order \<Longrightarrow> fold take_turn order (out, b) = (out', b') \<Longrightarrow>
   out' = out @ map hd (filter (\<lambda>q. q \<noteq> []) (map (queue_of b) order)) \<and>
   (\<forall>t. queue_of b' t = (if t \<in> set order then tl (queue_of b t) else queue_of b t))"
proof (induction order arbitrary: out b)
  case (Cons a order)
  obtain o1 b1 where t1: "take_turn a (out, b) = (o1, b1)" by fastforce
  note e = take_turn_effect [OF t1]
  have same: "map (queue_of b1) order = map (queue_of b) order" using Cons.prems(1) e(2) by auto
  have "fold take_turn order (o1, b1) = (out', b')" "distinct order" using Cons.prems by (simp_all add: t1)
  from Cons.IH [OF this(2,1)] show ?case
    unfolding same using e Cons.prems(1) by auto
qed simp

definition fair_inv :: "QueuedMessage list \<Rightarrow> QueuedMessage list \<times> tenant_queues \<Rightarrow> bool" where
  "fair_inv msgs = (\<lambda>(out, b).
     out @ concat (transpose (map (queue_of b) (tenants msgs))) =
       concat (transpose (map (tenant_msgs msgs) (tenants msgs))) \<and>
     (\<forall>t. tenant_msgs out t @ queue_of b t = tenant_msgs msgs t))"

lemma tenant_msgs_mset: "(\<And>t. tenant_msgs xs t = tenant_msgs ys t) \<Longrightarrow> mset xs = mset ys"
proof (rule multiset_eqI)
  fix x assume "\<And>t. tenant_msgs xs t = tenant_msgs ys t"
  from arg_cong [OF this, of mset "msg_tenant x"]
  have "count (filter_mset (\<lambda>m. msg_tenant m = msg_tenant x) (mset xs)) x =
      count (filter_mset (\<lambda>m. msg_tenant m = msg_tenant x) (mset ys)) x"
    by (simp add: tenant_msgs_def mset_filter)
  then show "count (mset xs) x = count (mset ys) x" by simp
qed

lemma tenant_prefix:
  assumes "\<And>t. tenant_msgs xs t @ q t = tenant_msgs ys t"
  shows "mset xs \<subseteq># mset ys" "length ys \<le> length xs \<Longrightarrow> q t = []"
proof -
  have q: "filter_mset (\<lambda>m. msg_tenant m = u) (mset ys) = filter_mset (\<lambda>m. msg_tenant m = u) (mset xs) + mset (q u)" for u
    using arg_cong [OF assms, of mset u] by (simp add: tenant_msgs_def mset_filter)
  show sub: "mset xs \<subseteq># mset ys"
  proof (rule mset_subset_eqI)
    fix x
    show "count (mset xs) x \<le> count (mset ys) x"
      using arg_cong [OF q [of "msg_tenant x"], of "\<lambda>M. count M x"] by simp
  qed
  assume "length ys \<le> length xs"
  then have "mset xs = mset ys"
    using sub mset_subset_size [of "mset xs" "mset ys"] by (metis leD size_mset subset_mset.le_less)
  then show "q t = []" using q [of t] by simp
qed

lemma fair_pending:
  assumes inv: "fair_inv msgs (out, b)" and less: "length out < length msgs"
  shows "\<exists>q\<in>set (map (queue_of b) (tenants msgs)). q \<noteq> []"
proof (rule ccontr)
  assume none: "\<not> ?thesis"
  have "queue_of b t = []" for t
  proof (cases "t \<in> set (tenants msgs)")
    case False
    then have "tenant_msgs msgs t = []" by (auto simp: tenant_msgs_def filter_empty_conv)
    moreover have "tenant_msgs out t @ queue_of b t = tenant_msgs msgs t" using inv by (simp add: fair_inv_def)
    ultimately show ?thesis by simp
  qed (use none in auto)
  then have "tenant_msgs out t = tenant_msgs msgs t" for t using inv by (simp add: fair_inv_def)
  then have "mset out = mset msgs" by (rule tenant_msgs_mset)
  then show False using less by (metis mset_eq_length less_irrefl)
qed

lemma fair_step:
  assumes inv: "fair_inv msgs (out, b)" and less: "length out < length msgs"
    and step: "fold take_turn (tenants msgs) (out, b) = (out', b')"
  shows "fair_inv msgs (out', b')" "length out < length out'"
proof -
  let ?qs = "map (queue_of b) (tenants msgs)"
  have d: "distinct (tenants msgs)" by (simp add: tenants_def)
  note tt = conjunct1 [OF take_turns [OF d step]] conjunct2 [OF take_turns [OF d step], rule_format]
  have tl: "map (queue_of b') (tenants msgs) = map tl ?qs" using tt(2) by simp
  have ex: "\<exists>q\<in>set ?qs. q \<noteq> []" by (rule fair_pending [OF inv less])
  then show "length out < length out'" using tt(1) by (auto simp: filter_empty_conv)
  have "out' @ concat (transpose (map (queue_of b') (tenants msgs))) = out @ concat (transpose ?qs)"
    unfolding tl transpose_tl [OF ex] tt(1) by simp
  moreover have "tenant_msgs out' t @ queue_of b' t = tenant_msgs msgs t" for t
  proof -
    have q: "tenant_msgs out t @ queue_of b t = tenant_msgs msgs t" for t using inv by (simp add: fair_inv_def)
    have mine: "msg_tenant x = u" if "x \<in> set (queue_of b u)" for x u
    proof -
      have "x \<in> set (tenant_msgs msgs u)" unfolding q [of u, symmetric] using that by simp
      then show ?thesis by (simp add: tenant_msgs_def)
    qed
    have heads: "tenant_msgs (map hd (filter (\<lambda>q. q \<noteq> []) (map (queue_of b) us))) t =
        (if t \<in> set us \<and> queue_of b t \<noteq> [] then [hd (queue_of b t)] else [])" if "distinct us" for us
      using that
    proof (induction us)
      case (Cons u us)
      have "msg_tenant (hd (queue_of b u)) = u" if "queue_of b u \<noteq> []" using mine that by simp
      with Cons show ?case by (auto simp: tenant_msgs_def)
    qed (simp add: tenant_msgs_def)
    have "queue_of b t = []" if "t \<notin> set (tenants msgs)"
    proof -
      have "tenant_msgs msgs t = []" using that by (auto simp: tenant_msgs_def filter_empty_conv)
      then show ?thesis using q [of t] by simp
    qed
    then show ?thesis using q [of t] heads [OF d] tt by (auto simp: tenant_msgs_def)
  qed
  ultimately show "fair_inv msgs (out', b')" using inv by (simp add: fair_inv_def)
qed

lemma fair_loop_result:
  "\<exists>b. fair_loop msgs = Some (concat (transpose (map (tenant_msgs msgs) (tenants msgs))), b) \<and>
    (\<forall>t. tenant_msgs (concat (transpose (map (tenant_msgs msgs) (tenants msgs)))) t = tenant_msgs msgs t)"
proof -
  obtain b0 where b0: "fold group_msg msgs ([], Map.empty) = (tenants msgs, b0)"
    "queue_of b0 = tenant_msgs msgs" using group_msgs by blast
  let ?c = "fold take_turn (tenants msgs)" and ?b = "\<lambda>(out, byTenant :: tenant_queues). length out < length msgs"
  have I0: "fair_inv msgs ([], b0)" by (simp add: fair_inv_def b0 tenant_msgs_def)
  have step: "fair_inv msgs (?c s) \<and> length msgs - length (fst (?c s)) < length msgs - length (fst s)"
    if "fair_inv msgs s" "?b s" for s
    using fair_step [of msgs "fst s" "snd s" "fst (?c s)" "snd (?c s)"] that by (auto simp: case_prod_beta)
  obtain s where s: "while_option ?b ?c ([], b0) = Some s"
    using measure_while_option_Some [of "fair_inv msgs" ?b ?c "\<lambda>s. length msgs - length (fst s)" "([], b0)"] step I0
    by blast
  obtain out b where ob: "s = (out, b)" by fastforce
  have inv: "fair_inv msgs (out, b)"
    using while_option_rule [of "fair_inv msgs" ?b ?c "([], b0)" s] s step I0 ob by blast
  have "\<not> length out < length msgs" using while_option_stop [OF s] ob by simp
  then have empty: "queue_of b t = []" for t
    using tenant_prefix(2) [of out "queue_of b" msgs] inv by (simp add: fair_inv_def)
  then have "transpose (map (queue_of b) (tenants msgs)) = []" by (intro transpose_all_empty) auto
  then have "out = concat (transpose (map (tenant_msgs msgs) (tenants msgs)))" using inv by (simp add: fair_inv_def)
  moreover have "tenant_msgs out t = tenant_msgs msgs t" for t using inv empty by (simp add: fair_inv_def)
  moreover have "fair_loop msgs = Some (out, b)" using s ob by (simp add: fair_loop_def b0)
  ultimately show ?thesis by auto
qed

section \<open>The worker follows the lifecycle\<close>

text \<open>
  Relative to the database \<open>d0\<close> in which the handler found the run, every write of the worker
  is a step of \<^const>\<open>follows\<close>, whatever calls fail on the way.
\<close>

lemma triple_failRun:
  "triple (dbp (at_run maxAttempts d0 run)) (failRun E wk qm run err) (\<lambda>_. dbp (follows maxAttempts d0))"
  unfolding failRun_def persistTransition_def
proof (intro triple_Let triple_then [OF frame.io_time_Now] triple_sum triple_done, goal_cases)
  case (1 run1 now run2)
  then have "apply_op OpFailed now run1 = Inr run2" by simp
  then show ?case
    unfolding at_run_setError [of _ _ "''execution_error''" "err_text err" run, symmetric] 1(1) [symmetric]
    by (intro triple_Let triple_then [OF frame.event] triple_persist [of OpFailed now] triple_rest)
      (auto simp: maxAttempts_def intro!: machine.child_intros machine.worker_appendEvent
        machine.enqueueChildren machine.queueing machine.metrics machine.ack)
qed

lemma triple_retryRun:
  assumes "wrap64 (run_attempts run + 1) < maxAttempts"
  shows "triple (dbp (at_run maxAttempts d0 run)) (retryRun E wk qm run err) (\<lambda>_. dbp (follows maxAttempts d0))"
  unfolding retryRun_def persistTransition_def
proof (intro triple_Let triple_then [OF frame.io_time_Now] triple_sum triple_done, goal_cases)
  case (1 run1 now run2)
  then have "apply_op OpRetry now run1 = Inr run2" "run_attempts run1 = run_attempts run"
    by (simp_all add: setError_def)
  then show ?case
    unfolding at_run_setError [of _ _ "''execution_error''" "err_text err" run, symmetric] 1(1) [symmetric]
    using assms
    by (intro triple_then [OF frame.event] triple_persist [of OpRetry now] triple_rest)
      (auto simp: maxAttempts_def intro!: machine.child_intros machine.worker_appendEvent
        machine.queueing machine.metrics machine.ack)
qed

lemma triple_handleFailure:
  "triple (dbp (at_run maxAttempts d0 run)) (handleFailure E wk qm run err) (\<lambda>_. dbp (follows maxAttempts d0))"
  unfolding handleFailure_def by (intro triple_if triple_failRun triple_retryRun) simp

context executor
begin

lemma triple_executeRun:
  "triple (dbp (at_run maxAttempts d0 run)) (executeRun E wk execute qm run) (\<lambda>_. dbp (follows maxAttempts d0))"
  unfolding executeRun_def persistTransition_def
proof (intro triple_then [OF keeps_runs] triple_then [OF frame.io_time_Now] triple_sum triple_handleFailure
    triple_done, goal_cases)
  case (1 r u now run1)
  then have "apply_op OpSuccess now run = Inr run1" by simp
  then show ?case
    by (intro triple_then [OF frame.event] triple_persist [of OpSuccess now] triple_rest)
      (auto simp: maxAttempts_def intro!: machine.child_intros machine.enqueueChildren machine.metrics machine.ack)
qed

lemma triple_startRun:
  "triple (dbp (at_run maxAttempts d0 run)) (startRun E wk execute qm run) (\<lambda>_. dbp (follows maxAttempts d0))"
  unfolding startRun_def acquireRunSlot_def persistTransition_def
proof (intro triple_then [OF frame.io_time_Now] triple_sum triple_rest [OF machine.ack], goal_cases)
  case (1 now run1)
  then have op: "apply_op OpRunning now run = Inr run1" by simp
  show ?case
  proof (cases "wk_quota wk")
    case False
    then show ?thesis
      using op
      by simp (intro triple_then [OF frame.event] triple_persist [of OpRunning now] triple_executeRun machine.world.io_return,
          simp_all add: maxAttempts_def)
  next
    case True
    let ?next = "\<lambda>r. case r of
        Inl e \<Rightarrow> State_Monad.return ()
      | Inr acquired \<Rightarrow> if \<not> acquired then recordRunDeferred (wk_metrics wk) ''max_concurrent_runs''
          else executeRun E wk execute qm run1"
    have next_ok: "triple (dbp (if r = Inr True then at_run maxAttempts d0 run1 else follows maxAttempts d0))
        (?next r) (\<lambda>_. dbp (follows maxAttempts d0))" for r :: "bool result"
      using triple_executeRun triple_follows [OF machine.metrics(6)] triple_follows [OF machine.world.io_return]
      by (auto split: sum.split)
    have "triple (dbp (at_run maxAttempts d0 run))
        ((quota_Get E (run_tenantID run1) \<bind> (\<lambda>r. case r of
            Inl e \<Rightarrow> State_Monad.return (Inl (Errorf ''get tenant quota'' e))
          | Inr quota \<Rightarrow> TryMarkRunRunning E run1 ev (MaxConcurrentRuns quota))) \<bind> ?next)
        (\<lambda>_. dbp (follows maxAttempts d0))" for ev
    proof (rule triple_bind [OF _ next_ok], intro triple_then [OF frame.reading(9)] triple_sum)
      show "triple (dbp (at_run maxAttempts d0 run)) (State_Monad.return (Inl e))
          (\<lambda>r. dbp (if r = Inr True then at_run maxAttempts d0 run1 else follows maxAttempts d0))" for e :: error
        by (auto intro!: triple_return dest: at_run_follows)
    qed (rule triple_TryMarkRunRunning [OF 1])
    then show ?thesis
      using True by (intro triple_then [OF frame.event]) (simp cong: sum.case_cong)
  qed
qed

text \<open>The handler of one message.\<close>

lemma process_follows: "state_io_rel (on_db (follows maxAttempts)) (process E wk execute qm reclaimed)"
proof (rule rel_of_triple)
  fix d0
  have found: "triple (dbp ((=) d0)) (FindRunByID E i)
      (\<lambda>r. dbp (case r of Inl _ \<Rightarrow> follows maxAttempts d0 | Inr run \<Rightarrow> at_run maxAttempts d0 run))" for i
    by (rule triple_FindRunByID)
  have handled: "triple (dbp (case r of Inl _ \<Rightarrow> follows maxAttempts d0 | Inr run \<Rightarrow> at_run maxAttempts d0 run))
      (case r of Inl e \<Rightarrow> State_Monad.return () | Inr run \<Rightarrow>
         if IsTerminal run then ack E (qm_StreamID qm)
         else if run_status run = StatusRunning then
           (if reclaimed then handleFailure E wk qm run ErrWorkerStalled else ack E (qm_StreamID qm))
         else if run_status run \<noteq> StatusQueued \<and> run_status run \<noteq> StatusRetry
         then ack E (qm_StreamID qm)
         else startRun E wk execute qm run) (\<lambda>_. dbp (follows maxAttempts d0))" for r
    by (cases r) (auto intro: triple_follows [OF machine.world.io_return] triple_rest [OF machine.ack]
        triple_handleFailure triple_startRun)
  have "triple (dbp ((=) d0)) (ack E i) (\<lambda>_. dbp (follows maxAttempts d0))" for i
    by (rule triple_weaken [OF triple_follows [OF machine.ack]]) (auto simp: dbp_def)
  then show "triple (dbp ((=) d0)) (process E wk execute qm reclaimed) (\<lambda>_. dbp (follows maxAttempts d0))"
    unfolding process_def by (intro triple_sum triple_bind [OF found handled])
qed

lemma worker_turn_follows: "state_io_rel (on_db (follows maxAttempts)) (worker_turn E wk execute)"
  unfolding worker_turn_def processReclaimed_def by (intro machine.db_intros machine.queueing process_follows)

end

section \<open>Messages the worker leaves alone\<close>

lemma FindRunByID_cases:
  assumes "find_run (w_db w) i = Some row"
  shows "\<exists>n. run_state (FindRunByID E i) w = (Inr (jobRunFromGetByIDRow row), w\<lparr>w_tick := n\<rparr>) \<or>
    (\<exists>e. run_state (FindRunByID E i) w = (Inl e, w\<lparr>w_tick := n\<rparr>))"
  using assms
  by (cases "e_fault E (w_tick w)") (auto simp: FindRunByID_def run_prims GetJobRunByID_def find_run_def)

lemma ack_db: "w_db (snd (run_state (ack E i) w)) = w_db w"
  using untouched.ack [of E i] by (simp add: state_io_rel_def on_db_def)

lemma TryMark_full:
  assumes "reliable E" "limit \<le> int (running_count (w_db w) (run_tenantID run))"
  shows "\<exists>n. run_state (TryMarkRunRunning E run ev limit) w = (Inr False, w\<lparr>w_tick := n\<rparr>)"
proof -
  have "TryMarkJobRunRunning \<lparr>tm_TenantID = run_tenantID run, tm_StartedAt = run_startedAt run,
      tm_UpdatedAt = run_updatedAt run, tm_ID = run_id run, tm_RunLimit = limit\<rparr> d = (Inr False, d)"
    if "limit \<le> int (running_count d (run_tenantID run))" for d
    using that by (simp add: TryMarkJobRunRunning_def Let_def running_count_def update_where_def)
  then show ?thesis
    using assms by (auto simp: TryMarkRunRunning_def db_transaction_def run_prims)
qed

text \<open>A worker and a message, for the examples.\<close>

definition sample_worker :: worker where
  "sample_worker = \<lparr>wk_id = ''worker-1'', wk_quota = True, wk_metrics = True\<rparr>"

definition sample_message :: "JobRunID \<Rightarrow> QueuedMessage" where
  "sample_message i = \<lparr>qm_StreamID = ''1-0'', qm_Msg = \<lparr>msg_JobRunID = uuid_String canonical_uuid i,
     msg_TenantID = uuid_String canonical_uuid 1, msg_IdempotencyKey = ''k'', msg_Attempts = 0\<rparr>\<rparr>"

definition busy_db :: database where
  "busy_db = empty_db\<lparr>d_jobs := [sample_job 11 1], d_runs := [sample_run 21 1 11 1 StatusQueued 0,
     sample_run 22 1 11 2 StatusRunning 0, sample_run 23 1 11 3 StatusRunning 0]\<rparr>"

lemma sample_message_id: "ParseJobRunID (e_uuid sample_env) (msg_JobRunID (qm_Msg (sample_message i))) = Inr i"
  using canonical_uuid_ok by (simp add: ParseJobRunID_def sample_message_def sample_env_sel uuid_ok_def)

lemma sample_db_run: "find_run (w_db (start_world (sample_db st n))) 21 = Some (sample_run 21 1 11 1 st n)"
  by (simp add: find_run_def start_world_def sample_db_def empty_db_def sample_run_def)

section \<open>Properties\<close>

text \<open>
  C27 (termination, equivalence): for every batch the loop of \<^verbatim>\<open>fairOrder\<close> ends, and its
  result is the round robin over the tenants in the order of their first message. No message is
  lost or repeated, and each tenant's messages keep their order.
\<close>

theorem fairOrder_round_robin:
  "(\<exists>b. fair_loop msgs = Some (fairOrder msgs, b)) \<and>
   fairOrder msgs = concat (transpose (map (tenant_msgs msgs) (tenants msgs))) \<and>
   tenant_msgs (fairOrder msgs) t = tenant_msgs msgs t \<and> mset (fairOrder msgs) = mset msgs"
proof -
  obtain b where b: "fair_loop msgs = Some (concat (transpose (map (tenant_msgs msgs) (tenants msgs))), b)"
    "\<And>t. tenant_msgs (concat (transpose (map (tenant_msgs msgs) (tenants msgs)))) t = tenant_msgs msgs t"
    using fair_loop_result by blast
  then have "fairOrder msgs = concat (transpose (map (tenant_msgs msgs) (tenants msgs)))" by (simp add: fairOrder_def)
  then show ?thesis using b tenant_msgs_mset [of "fairOrder msgs" msgs] by simp
qed

text \<open>
  The worker follows the lifecycle. In one turn of its loop, with the executor the
  program wires up, and whatever calls to the database, the queue or the model fail, every stored
  run stays stored, keeps its identity, owner, schedule and idempotency key, moves only along the
  status machine (so a finished run stays as it is), and its attempt counter never decreases and
  never passes the budget of three executions.
\<close>

theorem worker_turn_lifecycle:
  "follows maxAttempts (w_db w)
     (w_db (snd (run_state (worker_turn E wk (idempotent_Execute E (llm_Execute E m policy))) w)))"
  using idempotent.worker_turn_follows [of E wk E m policy] by (simp add: state_io_rel_def on_db_def)



text \<open>
  A run of a tenant at its concurrency limit is deferred: the database is
  untouched, no executor is called, and the message is not acknowledged, so that it is delivered
  again.
\<close>

theorem process_deferred:
  assumes "reliable E" "wk_quota wk" "ParseJobRunID (e_uuid E) (msg_JobRunID (qm_Msg qm)) = Inr i"
    and "find_run (w_db w) i = Some row" "rr_status row = StatusQueued \<or> rr_status row = StatusRetry"
    and "MaxConcurrentRuns (tenant_quota E (w_db w) (rr_tenant_id row)) \<le> int (running_count (w_db w) (rr_tenant_id row))"
  shows "\<exists>w'. w_db w' = w_db w \<and> w_redis w' = w_redis w \<and>
    (\<forall>execute. run_state (process E wk execute qm reclaimed) w = ((), w'))"
proof -
  let ?run = "jobRunFromGetByIDRow row" and ?w = "\<lambda>n. w\<lparr>w_tick := n\<rparr>" and ?k = "w_tick w"
  let ?now = "e_now E (Suc ?k)"
  have m: "MarkRunning ?now ?run = Inr (?run\<lparr>run_status := StatusRunning, run_startedAt := ?now, run_updatedAt := ?now\<rparr>)"
    (is "_ = Inr ?run1")
    using assms(5) by (auto simp: MarkRunning_def)
  obtain ev where ev: "run_state (new_event E ?run1 StatusRunning EventJobRunStarted None) (?w (Suc (Suc ?k))) = (ev, ?w (Suc (Suc (Suc (Suc ?k)))))"
    by (simp add: new_event_def run_prims)
  obtain n where n: "run_state (TryMarkRunRunning E ?run1 ev (MaxConcurrentRuns (tenant_quota E (w_db w) (rr_tenant_id row))))
      (?w (Suc (Suc (Suc (Suc (Suc ?k)))))) = (Inr False, ?w n)"
    using TryMark_full [OF assms(1), of _ "?w (Suc (Suc (Suc (Suc (Suc ?k)))))" ?run1] assms(6) by fastforce
  let ?w' = "snd (run_state (recordRunDeferred (wk_metrics wk) ''max_concurrent_runs'') (?w n))"
  have rec: "run_state (recordRunDeferred (wk_metrics wk) ''max_concurrent_runs'') (?w n) = ((), ?w')"
    by (simp add: prod_eq_iff)
  have start: "run_state (startRun E wk execute qm ?run) (?w (Suc ?k)) = ((), ?w')" for execute
    using assms(1,2) ev n rec
    by (simp add: startRun_def run_time_Now m acquireRunSlot_def run_quota_Get)
  have "run_state (process E wk execute qm reclaimed) w = ((), ?w')" for execute
    using assms start by (auto simp: process_def run_FindRunByID IsTerminal_status isTerminalStatus_def)
  moreover have "w_db ?w' = w_db w" "w_redis ?w' = w_redis w"
    by (simp_all add: recordRunDeferred_def run_prims)
  ultimately show ?thesis by blast
qed

theorem process_deferred_witness:
  "\<exists>w'. w_db w' = busy_db \<and> w_redis w' = w_redis (start_world busy_db) \<and>
     (\<forall>execute. run_state (process sample_env sample_worker execute (sample_message 21) False)
        (start_world busy_db) = ((), w'))"
proof -
  let ?w = "start_world busy_db" and ?row = "sample_run 21 1 11 1 StatusQueued 0"
  have "find_run (w_db ?w) 21 = Some ?row" "w_db ?w = busy_db" "rr_status ?row = StatusQueued" "rr_tenant_id ?row = 1"
    "wk_quota sample_worker"
    by (simp_all add: find_run_def start_world_def busy_db_def sample_run_def sample_worker_def)
  moreover have "MaxConcurrentRuns (tenant_quota sample_env busy_db 1) \<le> int (running_count busy_db 1)"
    by (simp add: tenant_quota_def busy_db_def empty_db_def sample_env_sel sample_quota_def running_count_def
        running_runs_def sample_run_def)
  ultimately show ?thesis
    using process_deferred [OF sample_reliable _ sample_message_id, of sample_worker ?w 21 ?row False] by simp
qed

end
