(* ===== verification/TaskWatcher.thy ===== *)
theory TaskWatcher
  imports TaskWorker
begin

text \<open>
  \<^verbatim>\<open>internal/task/watcher.go\<close> and \<^verbatim>\<open>recurring_watcher.go\<close>: one scan of the
  watcher that queues due runs, and one scan of the watcher that creates the next run of
  recurring jobs.
\<close>

section \<open>Due runs (watcher.go)\<close>

record watcher =
  wt_horizon :: duration
  wt_limit :: int

text \<open>What \<^verbatim>\<open>NewWatcher\<close> sets.\<close>

definition NewWatcher :: watcher where
  "NewWatcher = \<lparr>wt_horizon = 5 * Minute_ns, wt_limit = 100\<rparr>"

text \<open>The loop of \<^verbatim>\<open>bucketsInRange\<close> from \<open>t\<close> to \<open>to\<close>.\<close>

function hour_buckets :: "time \<Rightarrow> time \<Rightarrow> int list" where
  "hour_buckets t to = (if t > to then [] else Unix t # hour_buckets (t + Hour_ns) to)"
  by pat_completeness auto

termination by (relation "measure (\<lambda>(t, to). nat (to + 1 - t))") (auto simp: time_defs)

declare hour_buckets.simps [simp del]

definition bucketsInRange :: "time \<Rightarrow> time \<Rightarrow> int list" where
  "bucketsInRange from to =
     (let from = Truncate from Hour_ns; to = Truncate to Hour_ns
      in if to < from then [Unix from] else hour_buckets from to)"

text \<open>The body of the loop over the due runs of a bucket.\<close>

definition dispatchRun :: "'r env \<Rightarrow> JobRun \<Rightarrow> ('r, unit) app" where
  "dispatchRun E run = do {
     now \<leftarrow> time_Now E;
     case MarkQueued now run of
       Inl e \<Rightarrow> State_Monad.return ()
     | Inr run \<Rightarrow> do {
         r \<leftarrow> UpdateRunStatus E run;
         case r of
           Inl e \<Rightarrow> State_Monad.return ()
         | Inr _ \<Rightarrow> do {
             r \<leftarrow> Enqueue E (run_msg E run (run_attempts run));
             case r of
               Inl e \<Rightarrow> do {
                 now \<leftarrow> time_Now E;
                 case MarkPending now run of
                   Inl e \<Rightarrow> State_Monad.return ()
                 | Inr run \<Rightarrow> do {
                     _ \<leftarrow> UpdateRunStatus E run;
                     State_Monad.return ()
                   }
               }
             | Inr _ \<Rightarrow> do {
                 ev \<leftarrow> new_event E run (run_status run) EventJobRunEnqueued None;
                 _ \<leftarrow> AppendEvent E ev;
                 State_Monad.return ()
               }
           }
       }
   }"

definition scanBucket :: "'r env \<Rightarrow> watcher \<Rightarrow> time \<Rightarrow> int \<Rightarrow> ('r, unit) app" where
  "scanBucket E wt before bucket = do {
     r \<leftarrow> FindDueRuns E bucket before (wt_limit wt);
     case r of
       Inl e \<Rightarrow> State_Monad.return ()
     | Inr runs \<Rightarrow> for_each runs (dispatchRun E)
   }"

definition scanOnce :: "'r env \<Rightarrow> watcher \<Rightarrow> ('r, unit) app" where
  "scanOnce E wt = do {
     now \<leftarrow> time_Now E;
     let before = now + wt_horizon wt;
     for_each (bucketsInRange now before) (scanBucket E wt before)
   }"

section \<open>Recurring jobs (recurring_watcher.go)\<close>

record recurring_watcher =
  rw_lookback :: duration
  rw_limit :: int

definition NewRecurringWatcher :: recurring_watcher where
  "NewRecurringWatcher = \<lparr>rw_lookback = Hour_ns, rw_limit = 100\<rparr>"

fun dst_text :: "DSTNote \<Rightarrow> string" where
  "dst_text DSTNone = ''''"
| "dst_text DSTShiftedForward = ''shifted_forward''"
| "dst_text DSTAmbiguousFirst = ''ambiguous_first''"

definition scheduleNext :: "'r env \<Rightarrow> NextRunSpec \<Rightarrow> ('r, unit) app" where
  "scheduleNext E spec =
     (case ParseRule (ns_RecurrenceRule spec) of
        Inl e \<Rightarrow> State_Monad.return ()
      | Inr rule \<Rightarrow>
          (case LoadLocation (e_tz E) (ns_TimezoneID spec) of
             None \<Rightarrow> State_Monad.return ()
           | Some tz \<Rightarrow>
               (case NextOccurrence rule (ns_LocalTime spec) (Some tz) (ns_ScheduledAt spec) of
                  Inl e \<Rightarrow> State_Monad.return ()
                | Inr (scheduledAt, note) \<Rightarrow> do {
                    now \<leftarrow> time_Now E;
                    i \<leftarrow> uuid_NewV7 E;
                    case NewJobRun (e_uuid E) now i (ns_TenantID spec) (ns_JobID spec)
                           (wrap64 (ns_Sequence spec + 1)) scheduledAt of
                      Inl e \<Rightarrow> State_Monad.return ()
                    | Inr next_run \<Rightarrow> do {
                        r \<leftarrow> InsertRunIfAbsent E next_run;
                        case r of
                          Inl e \<Rightarrow> State_Monad.return ()
                        | Inr created \<Rightarrow>
                            if created \<and> note \<noteq> DSTNone then do {
                              ev \<leftarrow> new_event E next_run (run_status next_run) EventJobRunCreated
                                     (Some [(''dst_note'', JStr (dst_text note))]);
                              _ \<leftarrow> AppendEvent E ev;
                              State_Monad.return ()
                            }
                            else State_Monad.return ()
                      }
                  })))"

definition recurring_scanOnce :: "'r env \<Rightarrow> recurring_watcher \<Rightarrow> ('r, unit) app" where
  "recurring_scanOnce E rw = do {
     now \<leftarrow> time_Now E;
     r \<leftarrow> FindTerminalRecurringRuns E (now - rw_lookback rw) (rw_limit rw);
     case r of
       Inl e \<Rightarrow> State_Monad.return ()
     | Inr specs \<Rightarrow> for_each specs (scheduleNext E)
   }"

section \<open>Relations kept by the watchers\<close>

context guarded_statements
begin

lemma scheduleNext: "state_io_rel (on_db R) (scheduleNext E spec)"
  unfolding scheduleNext_def by (intro guarded_intros event)

lemma recurring_scanOnce: "state_io_rel (on_db R) (recurring_scanOnce E rw)"
  unfolding recurring_scanOnce_def by (intro guarded_intros scheduleNext)

end

context status_statements
begin

lemma dispatchRun: "state_io_rel (on_db R) (dispatchRun E run)"
  unfolding dispatchRun_def by (intro store_intros queueing event) (erule not_running)+

lemma scanOnce: "state_io_rel (on_db R) (scanOnce E wt)"
  unfolding scanOnce_def scanBucket_def by (intro store_intros dispatchRun)

end

section \<open>Buckets\<close>

lemma hour_buckets_eq:
  "hour_buckets t to = map (\<lambda>k. Unix t + 3600 * int k) [0..<nat ((to - t) div Hour_ns + 1)]"
proof (induction t to rule: hour_buckets.induct)
  case (1 t to)
  show ?case
  proof (cases "t > to")
    case True
    then have "(to - t) div Hour_ns < 0" by (simp add: Hour_ns_def Second_def div_neg_pos_less0)
    with True show ?thesis by (subst hour_buckets.simps) simp
  next
    case False
    have h: "(to - (t + Hour_ns)) div Hour_ns = (to - t) div Hour_ns - 1"
      using div_mult_self2 [of Hour_ns "to - (t + Hour_ns)" 1] by (simp add: Hour_ns_def Second_def)
    have u: "Unix (t + Hour_ns) = Unix t + 3600"
      by (simp add: Unix_def Hour_ns_def Second_def)
    let ?n = "nat ((to - t) div Hour_ns)"
    have n: "nat ((to - t) div Hour_ns + 1) = Suc ?n"
      using False by (simp add: Hour_ns_def Second_def pos_imp_zdiv_nonneg_iff nat_add_distrib)
    have "hour_buckets t to = Unix t # hour_buckets (t + Hour_ns) to"
      using False by (subst hour_buckets.simps) simp
    also have "\<dots> = Unix t # map (\<lambda>k. Unix t + 3600 * int (Suc k)) [0..<?n]"
      using 1 [OF False] unfolding h u by (simp add: algebra_simps)
    also have "\<dots> = map (\<lambda>k. Unix t + 3600 * int k) [0..<nat ((to - t) div Hour_ns + 1)]"
      unfolding n by (simp only: upt_conv_Cons map_Suc_upt [symmetric] list.map map_map comp_def) simp
    finally show ?thesis .
  qed
qed

lemma Truncate_bucket: "Truncate t Hour_ns = bucketOf t * Second"
  unfolding bucketOf_def Truncate_hour Unix_def by (simp add: Hour_ns_def mult.assoc [symmetric] Second_def)

lemma bucketsInRange_eq:
  "bucketsInRange from to =
     map (\<lambda>k. bucketOf from + 3600 * int k) [0..<Suc (nat ((bucketOf to - bucketOf from) div 3600))]"
proof -
  let ?f = "Truncate from Hour_ns" and ?t = "Truncate to Hour_ns"
  have lt: "?t < ?f \<longleftrightarrow> bucketOf to < bucketOf from" by (simp add: Truncate_bucket Second_def)
  have d: "(?t - ?f) div Hour_ns = (bucketOf to - bucketOf from) div 3600"
    unfolding Truncate_bucket left_diff_distrib [symmetric] unfolding Hour_ns_def by (simp add: Second_def)
  show ?thesis
  proof (cases "?t < ?f")
    case True
    then have "(bucketOf to - bucketOf from) div 3600 < 0" using lt by (simp add: div_neg_pos_less0)
    then show ?thesis using True by (simp add: bucketsInRange_def bucketOf_def)
  next
    case False
    then have "nat ((bucketOf to - bucketOf from) div 3600 + 1) = Suc (nat ((bucketOf to - bucketOf from) div 3600))"
      using lt by (simp add: nat_add_distrib pos_imp_zdiv_nonneg_iff)
    then show ?thesis
      using False unfolding bucketsInRange_def Let_def hour_buckets_eq d
      by (simp add: bucketOf_def del: upt_Suc)
  qed
qed

lemma range_cover:
  assumes "from \<le> to"
  shows "set (bucketsInRange from to) = {b. b mod 3600 = 0 \<and> bucketOf from \<le> b \<and> b \<le> bucketOf to} \<and>
    sorted_wrt (<) (bucketsInRange from to) \<and> last (bucketsInRange from to) = bucketOf to \<and>
    (from \<le> t \<and> t \<le> to \<longrightarrow> bucketOf t \<in> set (bucketsInRange from to))"
proof -
  have mono: "bucketOf x \<le> bucketOf y" if "x \<le> y" for x y
    using that by (simp add: bucketOf_hours Unix_def zdiv_mono1 Second_def)
  have m0: "bucketOf x mod 3600 = 0" for x using bucketOf_bounds by blast
  have hours: "b = a + 3600 * int (nat ((b - a) div 3600))" if "a \<le> b" "a mod 3600 = 0" "b mod 3600 = 0" for a b :: int
    using that by (auto simp: mod_eq_0_iff_dvd pos_imp_zdiv_nonneg_iff elim!: dvdE)
  define q where "q = nat ((bucketOf to - bucketOf from) div 3600)"
  have to: "bucketOf to = bucketOf from + 3600 * int q"
    unfolding q_def by (rule hours [OF mono [OF assms] m0 m0])
  have bs: "bucketsInRange from to = map (\<lambda>k. bucketOf from + 3600 * int k) [0..<Suc q]"
    unfolding q_def by (rule bucketsInRange_eq)
  have mem: "b \<in> (\<lambda>k. bucketOf from + 3600 * int k) ` {0..<Suc q}"
    if "3600 dvd b" "bucketOf from \<le> b" "b \<le> bucketOf from + 3600 * int q" for b
  proof (rule image_eqI [of _ _ "nat ((b - bucketOf from) div 3600)"])
    show "b = bucketOf from + 3600 * int (nat ((b - bucketOf from) div 3600))"
      using hours [OF that(2) m0] that(1) by simp
    show "nat ((b - bucketOf from) div 3600) \<in> {0..<Suc q}"
      using that(2,3) by simp
  qed
  have set_bs: "set (bucketsInRange from to) = {b. b mod 3600 = 0 \<and> bucketOf from \<le> b \<and> b \<le> bucketOf to}"
    unfolding bs set_map set_upt to
  proof (intro equalityI subsetI)
    fix b assume "b \<in> {b. b mod 3600 = 0 \<and> bucketOf from \<le> b \<and> b \<le> bucketOf from + 3600 * int q}"
    then show "b \<in> (\<lambda>k. bucketOf from + 3600 * int k) ` {0..<Suc q}" by (intro mem) auto
  qed (use m0 [of "from"] in auto)
  moreover have "sorted_wrt (<) (bucketsInRange from to)"
    unfolding bs by (auto simp: sorted_wrt_map simp del: upt_Suc intro!: sorted_wrt_mono_rel [OF _ sorted_wrt_upt])
  moreover have "last (bucketsInRange from to) = bucketOf to"
    unfolding bs to by simp
  ultimately show ?thesis using mono m0 by auto
qed

section \<open>Dispatching one run\<close>

definition queue_accepts :: "'r env \<Rightarrow> bool" where
  "queue_accepts E \<longleftrightarrow> (\<forall>n stream data s. fst (r_XAdd (e_redis E) n stream data s) = Inr ())"

definition queue_refuses :: "'r env \<Rightarrow> bool" where
  "queue_refuses E \<longleftrightarrow> (\<forall>n stream data s. \<exists>e. fst (r_XAdd (e_redis E) n stream data s) = Inl e)"

lemma Enqueue_db: "w_db (snd (run_state (Enqueue E m) w)) = w_db w"
  by (simp add: Enqueue_def xadd_def run_prims)

lemma Enqueue_result:
  "queue_accepts E \<Longrightarrow> fst (run_state (Enqueue E m) w) = Inr ()"
  "queue_refuses E \<Longrightarrow> \<exists>e. fst (run_state (Enqueue E m) w) = Inl e"
proof -
  show "queue_accepts E \<Longrightarrow> fst (run_state (Enqueue E m) w) = Inr ()"
    by (simp add: Enqueue_def xadd_def run_prims queue_accepts_def)
  assume "queue_refuses E"
  then obtain e where "fst (r_XAdd (e_redis E) (w_tick w) streamMain (msg_Marshal (e_msg E) m) (w_redis w)) = Inl e"
    unfolding queue_refuses_def by blast
  then show "\<exists>e. fst (run_state (Enqueue E m) w) = Inl e"
    by (simp add: Enqueue_def xadd_def run_prims)
qed

lemma run_UpdateRunStatus:
  assumes "reliable E" "find_run (w_db w) (run_id run) = Some row" "status_check (run_status run)"
  shows "run_state (UpdateRunStatus E run) w =
    (Inr (), w\<lparr>w_tick := Suc (w_tick w), w_db := snd (UpdateJobRunStatus (jobRunToUpdateStatusParams run) (w_db w))\<rparr>)"
proof -
  have "filter (\<lambda>r. rr_id r = run_id run) (d_runs (w_db w)) \<noteq> []"
    using assms(2) find_run_count [of "w_db w" "run_id run"] by simp
  then show ?thesis
    using assms(1,3) by (simp add: UpdateRunStatus_def run_db_exec UpdateJobRunStatus_def Let_def)
qed

lemma announce_runs:
  "d_runs (w_db (snd (run_state (do {
     ev \<leftarrow> new_event E run s t p; _ \<leftarrow> AppendEvent E ev; State_Monad.return () }) w))) = d_runs (w_db w)"
proof -
  have "state_io_rel (on_db same_runs) (do {
      ev \<leftarrow> new_event E run s t p; _ \<leftarrow> AppendEvent E ev; State_Monad.return () })"
    by (intro frame.event_intros frame.event)
  then show ?thesis unfolding state_io_rel_def on_db_def same_runs_def by blast
qed

text \<open>A run that is pending in memory, with a queue that accepts it and with one that does not.\<close>

lemma run_dispatch_accepts:
  assumes E: "reliable E" "queue_accepts E" and row: "find_run (w_db w) (run_id run) = Some row"
    and p: "run_status run = StatusPending"
  shows "d_runs (w_db (snd (run_state (dispatchRun E run) w))) =
    d_runs (snd (UpdateJobRunStatus (jobRunToUpdateStatusParams
      (run\<lparr>run_status := StatusQueued, run_updatedAt := e_now E (w_tick w)\<rparr>)) (w_db w)))"
proof -
  let ?q = "run\<lparr>run_status := StatusQueued, run_updatedAt := e_now E (w_tick w)\<rparr>"
  have m: "MarkQueued (e_now E (w_tick w)) run = Inr ?q" using p by (simp add: MarkQueued_def)
  let ?w1 = "w\<lparr>w_tick := Suc (w_tick w)\<rparr>"
  have u: "run_state (UpdateRunStatus E ?q) ?w1 = (Inr (), ?w1\<lparr>w_tick := Suc (w_tick ?w1),
      w_db := snd (UpdateJobRunStatus (jobRunToUpdateStatusParams ?q) (w_db w))\<rparr>)" (is "_ = (_, ?w2)")
    using run_UpdateRunStatus [OF E(1), of ?w1 ?q row] row by simp
  obtain r w3 where w3: "run_state (Enqueue E (run_msg E ?q (run_attempts ?q))) ?w2 = (r, w3)" by fastforce
  have r: "r = Inr ()" "w_db w3 = w_db ?w2"
    using Enqueue_result(1) [OF E(2), of "run_msg E ?q (run_attempts ?q)" ?w2]
      Enqueue_db [of E "run_msg E ?q (run_attempts ?q)" ?w2] w3 by simp_all
  have "snd (run_state (dispatchRun E run) w) = snd (run_state (do {
      ev \<leftarrow> new_event E ?q (run_status ?q) EventJobRunEnqueued None; _ \<leftarrow> AppendEvent E ev; State_Monad.return () }) w3)"
    using m u w3 r(1) by (simp add: dispatchRun_def run_time_Now)
  then have "d_runs (w_db (snd (run_state (dispatchRun E run) w))) = d_runs (w_db w3)"
    by (simp only: announce_runs)
  with r(2) show ?thesis by simp
qed

lemma run_dispatch_refuses:
  assumes E: "reliable E" "queue_refuses E" and row: "find_run (w_db w) (run_id run) = Some row"
    and p: "run_status run = StatusPending"
  shows "\<exists>row'. find_run (w_db (snd (run_state (dispatchRun E run) w))) (run_id run) = Some row' \<and>
    rr_status row' = StatusPending \<and> rr_attempts row' = wrap32 (run_attempts run) \<and> run_keeps row row'"
proof -
  let ?q = "run\<lparr>run_status := StatusQueued, run_updatedAt := e_now E (w_tick w)\<rparr>"
  have m: "MarkQueued (e_now E (w_tick w)) run = Inr ?q" using p by (simp add: MarkQueued_def)
  let ?w1 = "w\<lparr>w_tick := Suc (w_tick w)\<rparr>" and ?row = "set_run_status (jobRunToUpdateStatusParams ?q) row"
  have u: "run_state (UpdateRunStatus E ?q) ?w1 = (Inr (), ?w1\<lparr>w_tick := Suc (w_tick ?w1),
      w_db := snd (UpdateJobRunStatus (jobRunToUpdateStatusParams ?q) (w_db w))\<rparr>)" (is "_ = (_, ?w2)")
    using run_UpdateRunStatus [OF E(1), of ?w1 ?q row] row by simp
  obtain r w3 where w3: "run_state (Enqueue E (run_msg E ?q (run_attempts ?q))) ?w2 = (r, w3)" by fastforce
  obtain e where r: "r = Inl e" "w_db w3 = w_db ?w2"
    using Enqueue_result(2) [OF E(2), of "run_msg E ?q (run_attempts ?q)" ?w2]
      Enqueue_db [of E "run_msg E ?q (run_attempts ?q)" ?w2] w3 by auto
  have row3: "find_run (w_db w3) (run_id run) = Some ?row" using row r(2) by (simp add: find_run_update)
  let ?p = "?q\<lparr>run_status := StatusPending, run_updatedAt := e_now E (w_tick w3)\<rparr>" and ?w3 = "w3\<lparr>w_tick := Suc (w_tick w3)\<rparr>"
  have "run_state (UpdateRunStatus E ?p) ?w3 = (Inr (), ?w3\<lparr>w_tick := Suc (w_tick ?w3),
      w_db := snd (UpdateJobRunStatus (jobRunToUpdateStatusParams ?p) (w_db w3))\<rparr>)"
    using run_UpdateRunStatus [OF E(1), of ?w3 ?p ?row] row3 by simp
  moreover have "MarkPending (e_now E (w_tick w3)) ?q = Inr ?p" by (simp add: MarkPending_def)
  ultimately have "w_db (snd (run_state (dispatchRun E run) w)) = snd (UpdateJobRunStatus (jobRunToUpdateStatusParams ?p) (w_db w3))"
    using m u w3 r(1) by (simp add: dispatchRun_def run_time_Now)
  then show ?thesis
    using row3 by (simp add: find_run_update) (simp add: set_run_status_def run_keeps_def)
qed

section \<open>A whole scan\<close>

text \<open>What a scan does to the table when the queue accepts: pending runs become queued.\<close>

definition queues :: "RunRow \<Rightarrow> RunRow \<Rightarrow> bool" where
  "queues r r' \<longleftrightarrow> r' = r \<or> rr_status r = StatusPending \<and> rr_status r' = StatusQueued \<and> run_keeps r r'"

definition scanned :: "database \<Rightarrow> database \<Rightarrow> bool" where
  "scanned d d' \<longleftrightarrow> list_all2 queues (d_runs d) (d_runs d')"

lemma queues_trans: "queues r r' \<Longrightarrow> queues r' r'' \<Longrightarrow> queues r r''"
  by (auto simp: queues_def)

lemma scanned_refl: "scanned d d"
  by (simp add: scanned_def list_all2_refl queues_def)

lemma scanned_trans: "scanned d d' \<Longrightarrow> scanned d' d'' \<Longrightarrow> scanned d d''"
  unfolding scanned_def using list_all2_trans [of queues queues queues] queues_trans by blast

lemma scanned_ids: "scanned d d' \<Longrightarrow> map rr_id (d_runs d') = map rr_id (d_runs d)"
  unfolding scanned_def
  by (induction rule: list_all2_induct) (auto simp: queues_def run_keeps_def)

lemma dispatch_scanned:
  assumes E: "reliable E" "queue_accepts E" and d: "distinct (map rr_id (d_runs (w_db w)))"
    and row: "row \<in> set (d_runs (w_db w))" "rr_status row = StatusPending"
    and w': "w' = snd (run_state (dispatchRun E (jobRunFromGetByIDRow row)) w)"
  shows "scanned (w_db w) (w_db w')"
    and "\<exists>row'\<in>set (d_runs (w_db w')). rr_id row' = rr_id row \<and> rr_status row' = StatusQueued"
    and "r \<in> set (d_runs (w_db w)) \<Longrightarrow> rr_id r \<noteq> rr_id row \<Longrightarrow> r \<in> set (d_runs (w_db w'))"
proof -
  let ?q = "(jobRunFromGetByIDRow row)\<lparr>run_status := StatusQueued, run_updatedAt := e_now E (w_tick w)\<rparr>"
  let ?f = "set_run_status (jobRunToUpdateStatusParams ?q)"
  have found: "find_run (w_db w) (rr_id row) = Some row"
    unfolding find_run_def by (rule find_key_unique [OF d row(1)]) simp
  have runs: "d_runs (w_db w') = update_where (\<lambda>r. rr_id r = rr_id row) ?f (d_runs (w_db w))"
    using run_dispatch_accepts [OF E, of w "jobRunFromGetByIDRow row" row] found row(2)
    by (simp add: w' UpdateJobRunStatus_def Let_def)
  have only: "r = row" if "r \<in> set (d_runs (w_db w))" "rr_id r = rr_id row" for r
    using distinct_key_eq [OF d that(1) row(1)] that(2) by simp
  have f: "rr_status (?f r) = StatusQueued" "rr_id (?f r) = rr_id r" "run_keeps r (?f r)" for r
    by (simp_all add: set_run_status_def run_keeps_def)
  show "scanned (w_db w) (w_db w')"
    unfolding scanned_def runs update_where_def list_all2_map2
    by (rule list.rel_refl_strong) (use only f row(2) in \<open>auto simp: queues_def\<close>)
  show "\<exists>row'\<in>set (d_runs (w_db w')). rr_id row' = rr_id row \<and> rr_status row' = StatusQueued"
    unfolding runs using row(1) f by (intro bexI [of _ "?f row"]) (auto simp: in_update_where intro!: bexI [of _ row])
  show "r \<in> set (d_runs (w_db w'))" if "r \<in> set (d_runs (w_db w))" "rr_id r \<noteq> rr_id row"
    unfolding runs using that by (auto simp: in_update_where)
qed

lemma dispatch_all:
  assumes E: "reliable E" "queue_accepts E"
    and "distinct (map rr_id (d_runs (w_db w)))" "distinct (map rr_id rows)"
    and "set rows \<subseteq> set (d_runs (w_db w))" "\<And>row. row \<in> set rows \<Longrightarrow> rr_status row = StatusPending"
    and "w' = snd (run_state (for_each (map jobRunFromGetByIDRow rows) (dispatchRun E)) w)"
  shows "scanned (w_db w) (w_db w') \<and>
    (\<forall>row\<in>set rows. \<exists>row'\<in>set (d_runs (w_db w')). rr_id row' = rr_id row \<and> rr_status row' = StatusQueued)"
  using assms(3-)
proof (induction rows arbitrary: w)
  case Nil
  then show ?case by (simp add: scanned_refl)
next
  case (Cons row rows)
  let ?w1 = "snd (run_state (dispatchRun E (jobRunFromGetByIDRow row)) w)"
  note one = dispatch_scanned [OF E Cons.prems(1) _ _ refl, of row]
  have sc: "scanned (w_db w) (w_db ?w1)" using one(1) Cons.prems(3,4) by simp
  have "distinct (map rr_id (d_runs (w_db ?w1)))" using scanned_ids [OF sc] Cons.prems(1) by simp
  moreover have "set rows \<subseteq> set (d_runs (w_db ?w1))"
  proof
    fix r assume r: "r \<in> set rows"
    then have "rr_id r \<noteq> rr_id row" using Cons.prems(2) by simp (metis image_eqI)
    then show "r \<in> set (d_runs (w_db ?w1))" using one(3) r Cons.prems(3,4) by auto
  qed
  moreover have "w' = snd (run_state (for_each (map jobRunFromGetByIDRow rows) (dispatchRun E)) ?w1)"
    using Cons.prems(5) by (simp split: prod.splits)
  ultimately have ih: "scanned (w_db ?w1) (w_db w')"
    "\<forall>row\<in>set rows. \<exists>row'\<in>set (d_runs (w_db w')). rr_id row' = rr_id row \<and> rr_status row' = StatusQueued"
    using Cons.IH [of ?w1] Cons.prems(2,4) by auto
  obtain r1 where r1: "r1 \<in> set (d_runs (w_db ?w1))" "rr_id r1 = rr_id row" "rr_status r1 = StatusQueued"
    using one(2) Cons.prems(3,4) by auto
  obtain r2 where "r2 \<in> set (d_runs (w_db w'))" "queues r1 r2"
    using ih(1) r1(1) unfolding scanned_def by (metis list_all2_conv_all_nth in_set_conv_nth)
  then have "\<exists>row'\<in>set (d_runs (w_db w')). rr_id row' = rr_id row \<and> rr_status row' = StatusQueued"
    using r1 by (auto simp: queues_def)
  then show ?case using ih scanned_trans [OF sc ih(1)] by simp
qed

definition is_due :: "int \<Rightarrow> time \<Rightarrow> RunRow \<Rightarrow> bool" where
  "is_due bucket before r \<longleftrightarrow> rr_time_bucket r \<le> bucket \<and> rr_status r = StatusPending \<and> rr_scheduled_at r \<le> before"

definition due_rows :: "int \<Rightarrow> time \<Rightarrow> int \<Rightarrow> database \<Rightarrow> RunRow list" where
  "due_rows bucket before limit d =
     take (nat limit) (sort_key rr_scheduled_at (filter (is_due bucket before) (d_runs d)))"

lemma due_rows_distinct:
  assumes "distinct (map rr_id (d_runs d))"
  shows "distinct (map rr_id (due_rows bucket before limit d))"
proof -
  let ?xs = "filter (is_due bucket before) (d_runs d)"
  have "distinct (map rr_id ?xs)" by (rule distinct_map_filter [OF assms])
  then have "distinct (map rr_id (sort_key rr_scheduled_at ?xs))" by (simp add: distinct_map)
  then show ?thesis unfolding due_rows_def take_map [symmetric] by (rule distinct_take)
qed

lemma due_rows_mem: "row \<in> set (due_rows bucket before limit d) \<Longrightarrow> row \<in> set (d_runs d) \<and> is_due bucket before row"
  unfolding due_rows_def by (drule in_set_takeD) simp

lemma FindDue_rows:
  "FindDueJobRuns bucket before limit d = (if limit < 0 then Inl bad_page else Inr (due_rows bucket before limit d), d)"
  by (simp add: FindDueJobRuns_def sql_page_def due_rows_def is_due_def [abs_def])

lemma scanBucket_effect:
  assumes E: "reliable E" "queue_accepts E" and d: "distinct (map rr_id (d_runs (w_db w)))" and l: "0 \<le> wt_limit wt"
    and w': "w' = snd (run_state (scanBucket E wt before bucket) w)"
  shows "scanned (w_db w) (w_db w')"
    and "int (length (filter (is_due bucket before) (d_runs (w_db w)))) \<le> wt_limit wt \<Longrightarrow>
      row \<in> set (d_runs (w_db w)) \<Longrightarrow> is_due bucket before row \<Longrightarrow>
      \<exists>row'\<in>set (d_runs (w_db w')). rr_id row' = rr_id row \<and> rr_status row' = StatusQueued"
proof -
  define rows where "rows = due_rows bucket before (wt_limit wt) (w_db w)"
  have "run_state (FindDueRuns E bucket before (wt_limit wt)) w =
      (Inr (map jobRunFromGetByIDRow rows), w\<lparr>w_tick := Suc (w_tick w)\<rparr>)"
    using E(1) l by (simp add: FindDueRuns_def run_db_exec FindDue_rows map_result_def rows_def jobRunFromDueRow_def)
  then have run: "w' = snd (run_state (for_each (map jobRunFromGetByIDRow rows) (dispatchRun E)) (w\<lparr>w_tick := Suc (w_tick w)\<rparr>))"
    using w' by (simp add: scanBucket_def)
  have dr: "distinct (map rr_id rows)" unfolding rows_def by (rule due_rows_distinct [OF d])
  have rows: "set rows \<subseteq> set (filter (is_due bucket before) (d_runs (w_db w)))"
    using due_rows_mem by (auto simp: rows_def)
  have all: "scanned (w_db w) (w_db w') \<and>
      (\<forall>row\<in>set rows. \<exists>row'\<in>set (d_runs (w_db w')). rr_id row' = rr_id row \<and> rr_status row' = StatusQueued)"
    using dispatch_all [OF E _ dr, of "w\<lparr>w_tick := Suc (w_tick w)\<rparr>" w'] d rows run by (auto simp: is_due_def)
  then show "scanned (w_db w) (w_db w')" ..
  assume "int (length (filter (is_due bucket before) (d_runs (w_db w)))) \<le> wt_limit wt"
    "row \<in> set (d_runs (w_db w))" "is_due bucket before row"
  then have "row \<in> set rows" by (simp add: rows_def due_rows_def)
  then show "\<exists>row'\<in>set (d_runs (w_db w')). rr_id row' = rr_id row \<and> rr_status row' = StatusQueued" using all by blast
qed

lemma for_each_Cons:
  "snd (run_state (for_each (x # xs) f) w) = snd (run_state (for_each xs f) (snd (run_state (f x) w)))"
  by (cases "run_state (f x) w") simp

lemma for_each_append:
  "snd (run_state (for_each (xs @ ys) f) w) = snd (run_state (for_each ys f) (snd (run_state (for_each xs f) w)))"
  by (induction xs arbitrary: w) (simp, simp only: append_Cons for_each_Cons)

lemma scan_buckets:
  assumes E: "reliable E" "queue_accepts E" and l: "0 \<le> wt_limit wt"
    and "distinct (map rr_id (d_runs (w_db w)))"
  shows "scanned (w_db w) (w_db (snd (run_state (for_each bs (scanBucket E wt before)) w)))"
  using assms(4)
proof (induction bs arbitrary: w)
  case (Cons b bs)
  let ?w1 = "snd (run_state (scanBucket E wt before b) w)"
  have sc: "scanned (w_db w) (w_db ?w1)" by (rule scanBucket_effect(1) [OF E Cons.prems l refl])
  have "scanned (w_db ?w1) (w_db (snd (run_state (for_each bs (scanBucket E wt before)) ?w1)))"
    by (rule Cons.IH) (use scanned_ids [OF sc] Cons.prems in simp)
  then show ?case unfolding for_each_Cons by (rule scanned_trans [OF sc])
qed (simp add: scanned_refl)

lemma scanned_due: "scanned d d' \<Longrightarrow> length (filter (is_due b t) (d_runs d')) \<le> length (filter (is_due b t) (d_runs d))"
  unfolding scanned_def by (induction rule: list_all2_induct) (auto simp: queues_def is_due_def)

lemma scanned_mem: "scanned d d' \<Longrightarrow> r \<in> set (d_runs d) \<Longrightarrow> \<exists>r'\<in>set (d_runs d'). queues r r'"
  unfolding scanned_def by (metis list_all2_conv_all_nth in_set_conv_nth)

lemma bucketsInRange_last:
  assumes "from \<le> to"
  shows "\<exists>bs. bucketsInRange from to = bs @ [bucketOf to]"
proof -
  have "bucketsInRange from to \<noteq> []" by (simp add: bucketsInRange_eq)
  then show ?thesis using range_cover [OF assms] by (metis append_butlast_last_id)
qed

section \<open>The watcher follows the lifecycle\<close>

definition runs_only :: "(database \<Rightarrow> bool) \<Rightarrow> bool" where
  "runs_only P \<longleftrightarrow> (\<forall>d d'. d_runs d' = d_runs d \<longrightarrow> P d \<longrightarrow> P d')"

lemma triple_frame:
  "state_io_rel (on_db same_runs) m \<Longrightarrow> runs_only P \<Longrightarrow> triple (dbp P) m (\<lambda>_. dbp P)"
  unfolding state_io_rel_def on_db_def same_runs_def triple_def dbp_def runs_only_def by blast

definition all_at :: "database \<Rightarrow> JobRun set \<Rightarrow> database \<Rightarrow> bool" where
  "all_at d0 S d \<longleftrightarrow> follows maxAttempts d0 d \<and> (\<forall>r\<in>S. at_run maxAttempts d0 r d)"

lemma runs_only_all_at: "runs_only (all_at d0 S)"
  unfolding runs_only_def all_at_def follows_def at_run_def find_run_def by simp

lemma all_at_insert: "all_at d0 (insert r S) d \<longleftrightarrow> at_run maxAttempts d0 r d \<and> all_at d0 S d"
  by (auto simp: all_at_def at_run_def)

lemma triple_UpdateRunStatus:
  assumes op: "apply_op op now run0 = Inr run" "op \<noteq> OpRetry" and ids: "\<forall>r\<in>S. run_id r \<noteq> run_id run0"
  shows "triple (dbp (all_at d0 (insert run0 S))) (UpdateRunStatus E run)
    (\<lambda>res. dbp (all_at d0 (if res = Inr () then insert run S else S)))"
proof (rule tripleI)
  fix w :: "'a world" and res w'
  let ?d' = "snd (UpdateJobRunStatus (jobRunToUpdateStatusParams run) (w_db w))"
  assume pre: "dbp (all_at d0 (insert run0 S)) w" and run: "run_state (UpdateRunStatus E run) w = (res, w')"
  have id: "run_id run = run_id run0" using apply_op_identity [OF op(1)] by (simp add: run_identity_def)
  have at_d': "at_run maxAttempts d0 run ?d'"
    using at_run_update [OF _ op(1)] pre op(2) by (simp add: dbp_def all_at_insert maxAttempts_def)
  then have "all_at d0 S ?d'"
    using pre ids id by (auto simp: dbp_def all_at_def at_run_def find_run_update)
  with at_d' have "all_at d0 (insert run S) ?d'" by (simp add: all_at_insert)
  moreover have "all_at d0 S (w_db w)" using pre by (simp add: dbp_def all_at_insert)
  moreover have "w_db w' = ?d' \<or> w_db w' = w_db w \<and> res \<noteq> Inr ()"
    using run by (auto simp: UpdateRunStatus_def run_db_exec split: fault.splits sum.splits if_splits)
  ultimately show "dbp (all_at d0 (if res = Inr () then insert run S else S)) w'"
    by (auto simp: dbp_def all_at_insert)
qed

lemma triple_dispatchRun:
  assumes ids: "\<forall>r\<in>S. run_id r \<noteq> run_id run"
  shows "triple (dbp (all_at d0 (insert run S))) (dispatchRun E run) (\<lambda>_. dbp (all_at d0 S))"
proof -
  have keep: "triple (dbp (all_at d0 T)) m (\<lambda>_. dbp (all_at d0 T))" if "state_io_rel (on_db same_runs) m" for m T
    by (rule triple_frame [OF that runs_only_all_at])
  have drop: "triple (dbp (all_at d0 (insert r S))) m (\<lambda>_. dbp (all_at d0 S))" if "state_io_rel (on_db same_runs) m" for m r
    by (rule triple_weaken [OF keep [OF that, of "insert r S"]]) (auto simp: dbp_def all_at_insert)
  have upd: "triple (dbp (all_at d0 (insert r S))) (UpdateRunStatus E r' \<bind> k) (\<lambda>_. dbp (all_at d0 S))"
    if "apply_op op now r = Inr r'" "op \<noteq> OpRetry" "run_id r = run_id run"
      "\<And>e. state_io_rel (on_db same_runs) (k (Inl e))"
      "triple (dbp (all_at d0 (insert r' S))) (k (Inr ())) (\<lambda>_. dbp (all_at d0 S))" for op now r r' k
  proof (rule triple_bind [OF triple_UpdateRunStatus [OF that(1,2)]])
    show "\<forall>r1\<in>S. run_id r1 \<noteq> run_id r" using ids that(3) by simp
    fix res :: "unit result"
    show "triple (dbp (all_at d0 (if res = Inr () then insert r' S else S))) (k res) (\<lambda>_. dbp (all_at d0 S))"
      using that(5) keep [OF that(4)] by (cases res) auto
  qed
  show ?thesis
    unfolding dispatchRun_def
  proof (intro triple_bind [OF keep [OF frame.io_time_Now]] triple_sum drop [OF frame.world.io_return], goal_cases)
    case (1 now q)
    then have q: "apply_op OpQueued now run = Inr q" "run_id q = run_id run" by (auto simp: MarkQueued_def split: if_splits)
    show ?case
    proof (rule upd [OF q(1)], simp_all add: frame.world.io_return,
        intro triple_bind [OF keep [OF frame.queueing(1)]] triple_sum triple_bind [OF keep [OF frame.io_time_Now]]
          drop [OF frame.world.io_return], goal_cases)
      case (1 r e now p)
      then have "apply_op OpPending now q = Inr p" by simp
      then show ?case by (rule upd) (auto simp: q(2) intro: frame.world.io_return drop)
    next
      case 2
      show ?case by (rule drop) (intro frame.event_intros frame.event)
    qed
  qed
qed

lemma triple_dispatch_all:
  "distinct (map run_id rs) \<Longrightarrow>
   triple (dbp (all_at d0 (set rs))) (for_each rs (dispatchRun E)) (\<lambda>_. dbp (follows maxAttempts d0))"
proof (induction rs)
  case Nil
  show ?case by (auto simp: dbp_def all_at_def intro: triple_return)
next
  case (Cons r rs)
  have "\<forall>r'\<in>set rs. run_id r' \<noteq> run_id r" using Cons.prems by (auto simp: image_iff)
  from triple_dispatchRun [OF this] show ?case
    unfolding for_each.simps list.set by (rule triple_bind) (use Cons in simp)
qed

text \<open>In a well-formed database identifiers are unique, so the runs of a query are at their rows.\<close>

definition wf_follows :: "database \<Rightarrow> database \<Rightarrow> bool" where
  "wf_follows d d' \<longleftrightarrow> (db_wf d \<longrightarrow> db_wf d' \<and> follows maxAttempts d d')"

interpretation wf_machine: db_evolution wf_follows
  by unfold_locales (auto simp: wf_follows_def intro: follows_trans)

lemma wf_followsI:
  assumes "state_io_rel (on_db db_step) m"
    and "\<And>d. db_wf d \<Longrightarrow> triple (dbp ((=) d)) m (\<lambda>_. dbp (follows maxAttempts d))"
  shows "state_io_rel (on_db wf_follows) m"
proof (rule rel_of_triple)
  fix d
  show "triple (dbp ((=) d)) m (\<lambda>_. dbp (wf_follows d))"
  proof (cases "db_wf d")
    case True
    then show ?thesis
      using assms(2) [OF True] assms(1) True
      unfolding triple_def dbp_def wf_follows_def state_io_rel_def on_db_def db_step_def by simp
  qed (auto simp: triple_def dbp_def wf_follows_def)
qed

lemma FindDueRuns_at:
  assumes "db_wf d0"
  shows "triple (dbp ((=) d0)) (FindDueRuns E bucket before limit)
    (\<lambda>r. dbp (\<lambda>d. follows maxAttempts d0 d \<and>
       (\<forall>runs. r = Inr runs \<longrightarrow> distinct (map run_id runs) \<and> all_at d0 (set runs) d)))"
proof (rule tripleI)
  fix w :: "'a world" and r w'
  assume w: "dbp ((=) d0) w" and run: "run_state (FindDueRuns E bucket before limit) w = (r, w')"
  have d: "distinct (map rr_id (d_runs d0))" using assms by (simp add: db_wf_def)
  let ?rows = "due_rows bucket before limit d0"
  have ids: "distinct (map run_id (map jobRunFromGetByIDRow ?rows))"
    using due_rows_distinct [OF d, of bucket before limit] by (simp add: comp_def)
  have found: "find_run d0 (rr_id row) = Some row" if "row \<in> set ?rows" for row
    unfolding find_run_def using due_rows_mem [OF that] by (intro find_key_unique [OF d]) auto
  have at_rows: "all_at d0 (set (map jobRunFromGetByIDRow ?rows)) d0"
    unfolding all_at_def set_map using at_run_start [OF found] by (blast intro: follows_refl)
  have "w_db w' = d0 \<and> (\<forall>runs. r = Inr runs \<longrightarrow> runs = map jobRunFromGetByIDRow ?rows)"
    using w run
    by (cases "e_fault E (w_tick w)"; cases "limit < 0")
      (auto simp: dbp_def FindDueRuns_def run_db_exec FindDue_rows map_result_def jobRunFromDueRow_def)
  then show "dbp (\<lambda>d. follows maxAttempts d0 d \<and>
       (\<forall>runs. r = Inr runs \<longrightarrow> distinct (map run_id runs) \<and> all_at d0 (set runs) d)) w'"
    unfolding dbp_def using ids at_rows follows_refl by metis
qed

lemma scanBucket_follows: "state_io_rel (on_db wf_follows) (scanBucket E wt before bucket)"
proof (rule wf_followsI)
  show "state_io_rel (on_db db_step) (scanBucket E wt before bucket)"
    unfolding scanBucket_def by (intro step.store_intros step.dispatchRun)
  fix d0 assume wf: "db_wf d0"
  show "triple (dbp ((=) d0)) (scanBucket E wt before bucket) (\<lambda>_. dbp (follows maxAttempts d0))"
    unfolding scanBucket_def
  proof (rule triple_bind [OF FindDueRuns_at [OF wf]])
    fix r :: "JobRun list result"
    show "triple (dbp (\<lambda>d. follows maxAttempts d0 d \<and> (\<forall>runs. r = Inr runs \<longrightarrow> distinct (map run_id runs) \<and> all_at d0 (set runs) d)))
        (case r of Inl e \<Rightarrow> State_Monad.return () | Inr runs \<Rightarrow> for_each runs (dispatchRun E)) (\<lambda>_. dbp (follows maxAttempts d0))"
    proof (cases r)
      case (Inr runs)
      then show ?thesis
        using triple_dispatch_all [of runs d0 E] unfolding triple_def dbp_def by auto
    qed (auto simp: dbp_def intro: triple_return)
  qed
qed

lemma scanOnce_follows: "state_io_rel (on_db wf_follows) (scanOnce E wt)"
  unfolding scanOnce_def by (intro wf_machine.db_intros scanBucket_follows)

section \<open>The next run of a recurring job\<close>

lemma scheduleNext_effect:
  assumes E: "reliable E" and rule: "ParseRule (ns_RecurrenceRule spec) = Inr rule"
    and tz: "LoadLocation (e_tz E) (ns_TimezoneID spec) = Some tz"
    and occ: "NextOccurrence rule (ns_LocalTime spec) (Some tz) (ns_ScheduledAt spec) = Inr (due, note)"
    and valid: "\<not> id_IsZero (ns_TenantID spec)" "\<not> id_IsZero (ns_JobID spec)" "\<not> IsZero due"
      "0 \<le> ns_Sequence spec" "in_int32 (ns_Sequence spec + 1)"
    and job: "ns_JobID spec \<in> jr_id ` set (d_jobs (w_db w))"
    and fresh: "e_NewV7 E (Suc (w_tick w)) \<notin> rr_id ` set (d_runs (w_db w))"
    and w': "w' = snd (run_state (scheduleNext E spec) w)"
  shows "if (ns_JobID spec, ns_Sequence spec + 1) \<in> run_key ` set (d_runs (w_db w))
    then d_runs (w_db w') = d_runs (w_db w)
    else \<exists>row. d_runs (w_db w') = d_runs (w_db w) @ [row] \<and> run_key row = (ns_JobID spec, ns_Sequence spec + 1) \<and>
      rr_tenant_id row = ns_TenantID spec \<and> rr_status row = StatusPending \<and> rr_attempts row = 0 \<and>
      rr_scheduled_at row = due \<and> rr_time_bucket row = bucketOf due"
proof -
  let ?now = "e_now E (w_tick w)" and ?i = "e_NewV7 E (Suc (w_tick w))" and ?w2 = "w\<lparr>w_tick := Suc (Suc (w_tick w))\<rparr>"
  have s: "wrap64 (ns_Sequence spec + 1) = ns_Sequence spec + 1" "wrap32 (ns_Sequence spec + 1) = ns_Sequence spec + 1"
    using in_int32_int64 [OF valid(5)] valid(5) by simp_all
  obtain run where run: "NewJobRun (e_uuid E) ?now ?i (ns_TenantID spec) (ns_JobID spec) (ns_Sequence spec + 1) due = Inr run"
    using valid by (simp add: NewJobRun_def)
  note ok = NewJobRun_ok [OF run]
  let ?a = "jobRunToInsertIfAbsentParams run"
  have a: "ia_JobID ?a = ns_JobID spec" "ia_Sequence ?a = ns_Sequence spec + 1" "ia_ID ?a = ?i"
    "ia_TenantID ?a = ns_TenantID spec" "ia_ScheduledAt ?a = due" "ia_TimeBucket ?a = bucketOf due"
    by (simp_all add: jobRunToInsertIfAbsentParams_def ok s)
  obtain r w3 where w3: "run_state (InsertRunIfAbsent E run) ?w2 = (r, w3)" by fastforce
  then have db3: "w_db w3 = snd (InsertJobRunIfAbsent ?a (w_db w))"
    using E by (auto simp: InsertRunIfAbsent_def run_db_exec)
  have rest: "d_runs (w_db w') = d_runs (w_db w3)"
  proof (cases r)
    case (Inl e)
    then show ?thesis using w3 w' rule tz occ run s by (simp add: scheduleNext_def run_prims)
  next
    case (Inr created)
    then have "w' = snd (run_state (if created \<and> note \<noteq> DSTNone then do {
        ev \<leftarrow> new_event E run (run_status run) EventJobRunCreated (Some [(''dst_note'', JStr (dst_text note))]);
        _ \<leftarrow> AppendEvent E ev; State_Monad.return () } else State_Monad.return ()) w3)"
      using w3 w' rule tz occ run s by (simp add: scheduleNext_def run_prims)
    then show ?thesis using announce_runs [of E run "run_status run" EventJobRunCreated "Some [(''dst_note'', JStr (dst_text note))]" w3]
      by (simp split: if_splits)
  qed
  show ?thesis
    unfolding rest db3
    using job fresh a by (auto simp: InsertJobRunIfAbsent_def Let_def run_constraints_def run_key_def image_iff)
qed

text \<open>An environment whose queue refuses, and a weekly schedule, for the examples.\<close>

definition refusing_env :: "mem_redis env" where
  "refusing_env = sample_env\<lparr>e_redis := mem_api\<lparr>r_XAdd := \<lambda>n stream data s. (Inl (ErrText ''down''), s)\<rparr>\<rparr>"

definition weekly_spec :: NextRunSpec where
  "weekly_spec = \<lparr>ns_TenantID = 1, ns_JobID = 11, ns_Sequence = 1, ns_ScheduledAt = 1767225600 * Second,
     ns_TimezoneID = ''UTC'', ns_RecurrenceRule = ''FREQ=WEEKLY'', ns_LocalTime = ''00:00''\<rparr>"

lemma sample_queues: "queue_accepts sample_env" "queue_refuses refusing_env" "reliable refusing_env"
  by (simp_all add: queue_accepts_def queue_refuses_def refusing_env_def sample_env_sel mem_api_def reliable_def)

lemma sample_db_wf: "status_check st \<Longrightarrow> db_wf (w_db (start_world (sample_db st n)))"
  by (simp add: start_world_def sample_db_def empty_db_def db_wf_def sample_run_def sample_job_def kind_check_def)

section \<open>Properties\<close>



text \<open>
  A scan follows the lifecycle. From well-formed tables, and whatever calls fail, one
  scan of the watcher keeps the tables well formed, and every stored run keeps its identity, moves
  only along the status machine and stays within its attempt budget.
\<close>

theorem scanOnce_lifecycle:
  "wf_follows (w_db w) (w_db (snd (run_state (scanOnce E wt) w)))"
  using scanOnce_follows [of E wt] by (simp add: state_io_rel_def on_db_def)

text \<open>
  A run that the queue does not accept is put back: with a queue that refuses the
  message and a working database, dispatching a pending run leaves it pending, with its attempts.
\<close>

theorem dispatchRun_reverts:
  assumes "reliable E" "queue_refuses E" "find_run (w_db w) i = Some row" "rr_status row = StatusPending"
    and "in_int32 (rr_attempts row)"
  shows "\<exists>row'. find_run (w_db (snd (run_state (dispatchRun E (jobRunFromGetByIDRow row)) w))) i = Some row' \<and>
    rr_status row' = StatusPending \<and> rr_attempts row' = rr_attempts row \<and> run_keeps row row'"
  using run_dispatch_refuses [OF assms(1,2), of w "jobRunFromGetByIDRow row" row] assms(3-) find_run_id [OF assms(3)]
  by simp

theorem dispatchRun_reverts_witness:
  "\<exists>row'. find_run (w_db (snd (run_state (dispatchRun refusing_env (jobRunFromGetByIDRow (sample_run 21 1 11 1 StatusPending 1)))
       (start_world (sample_db StatusPending 1))))) 21 = Some row' \<and>
     rr_status row' = StatusPending \<and> rr_attempts row' = 1 \<and> run_keeps (sample_run 21 1 11 1 StatusPending 1) row'"
  using dispatchRun_reverts [OF sample_queues(3,2) sample_db_run [of StatusPending 1]]
  by (simp add: sample_run_def in_int32_def)

text \<open>
  C30 (safety, refuted in the code): the update that queues a run does not check the stored status.
  A run that was read as pending, and that was cancelled (or changed in any other way) before the
  watcher's update, is set to queued: a cancelled run is executed after all.
\<close>

theorem dispatchRun_unguarded:
  assumes "reliable E" "queue_accepts E" "run_status run = StatusPending"
    and "find_run (w_db w) (run_id run) = Some row"
  shows "\<exists>row'. find_run (w_db (snd (run_state (dispatchRun E run) w))) (run_id run) = Some row' \<and>
    rr_status row' = StatusQueued"
proof -
  let ?a = "jobRunToUpdateStatusParams (run\<lparr>run_status := StatusQueued, run_updatedAt := e_now E (w_tick w)\<rparr>)"
  have "find_run (w_db (snd (run_state (dispatchRun E run) w))) (run_id run) =
      find_run (snd (UpdateJobRunStatus ?a (w_db w))) (run_id run)"
    unfolding find_run_def run_dispatch_accepts [OF assms(1,2,4,3)] ..
  then show ?thesis using assms(4) by (simp add: find_run_update) (simp add: set_run_status_def)
qed

theorem dispatchRun_unguarded_witness:
  "find_run (w_db (start_world (sample_db StatusCancelled 0))) 21 = Some (sample_run 21 1 11 1 StatusCancelled 0) \<and>
   (\<exists>row'. find_run (w_db (snd (run_state (dispatchRun sample_env (jobRunFromGetByIDRow (sample_run 21 1 11 1 StatusPending 0)))
        (start_world (sample_db StatusCancelled 0))))) 21 = Some row' \<and> rr_status row' = StatusQueued)"
proof -
  have "run_status (jobRunFromGetByIDRow (sample_run 21 1 11 1 StatusPending 0)) = StatusPending"
    "run_id (jobRunFromGetByIDRow (sample_run 21 1 11 1 StatusPending 0)) = 21" by (simp_all add: sample_run_def)
  then show ?thesis
    using dispatchRun_unguarded [OF sample_reliable sample_queues(1), of "jobRunFromGetByIDRow (sample_run 21 1 11 1 StatusPending 0)"]
      sample_db_run [of StatusCancelled 0] by simp
qed



text \<open>
  The watcher's buckets cover its window: between two instants they are
  exactly the full hours from the bucket of the first to that of the last, in increasing order, so
  every run scheduled in the window is filed under one of them.
\<close>

theorem bucketsInRange_cover:
  assumes "from \<le> to"
  shows "set (bucketsInRange from to) = {b. b mod 3600 = 0 \<and> bucketOf from \<le> b \<and> b \<le> bucketOf to} \<and>
    sorted_wrt (<) (bucketsInRange from to) \<and> last (bucketsInRange from to) = bucketOf to \<and>
    (from \<le> t \<and> t \<le> to \<longrightarrow> bucketOf t \<in> set (bucketsInRange from to))"
  by (rule range_cover [OF assms])

theorem bucketsInRange_cover_witness:
  "bucketOf (3900 * Second) \<in> set (bucketsInRange (3500 * Second) (7300 * Second)) \<and>
   last (bucketsInRange (3500 * Second) (7300 * Second)) = 7200"
  using bucketsInRange_cover [of "3500 * Second" "7300 * Second" "3900 * Second"]
  by (simp add: bucketOf_hours Unix_def Second_def)

end
