(* ===== verification/RunProgress.thy ===== *)
theory RunProgress
  imports TaskWorker
begin

text \<open>
  That the worker gets on with a run: with a database that answers, one delivery of a queued run
  whose tenant has a free slot ends in success, in a retry or in a failure, and never leaves the
  run running. The events of a run have fresh identifiers: a generator of identifiers does not
  repeat itself, and what was stored so far came from earlier calls.
\<close>

section \<open>Fresh identifiers\<close>

definition event_ids :: "database \<Rightarrow> RunEventID set" where
  "event_ids d = er_id ` set (d_events d)"

text \<open>None of the identifiers that the generator gives from now until tick \<open>K\<close> is taken.\<close>

definition fresh_events :: "'r env \<Rightarrow> nat \<Rightarrow> 'r world \<Rightarrow> bool" where
  "fresh_events E K w \<longleftrightarrow> (\<forall>n\<in>{w_tick w..<K}. e_NewV7 E n \<notin> event_ids (w_db w))"

text \<open>New events are identified by what the generator gave since.\<close>

definition ids_from :: "'r env \<Rightarrow> 'r world \<Rightarrow> 'r world \<Rightarrow> bool" where
  "ids_from E w w' \<longleftrightarrow> w_tick w \<le> w_tick w' \<and>
     event_ids (w_db w') \<subseteq> event_ids (w_db w) \<union> e_NewV7 E ` {w_tick w..<w_tick w'}"

lemma ids_from_trans:
  assumes "ids_from E w w'" "ids_from E w' w''"
  shows "ids_from E w w''"
proof -
  have split: "e_NewV7 E ` {w_tick w..<w_tick w''} = e_NewV7 E ` {w_tick w..<w_tick w'} \<union> e_NewV7 E ` {w_tick w'..<w_tick w''}"
    using assms by (simp add: ids_from_def ivl_disj_un(17) flip: image_Un)
  show ?thesis using assms unfolding ids_from_def split by (intro conjI) (linarith, blast)
qed

interpretation idents: evolution "ids_from E" for E
  by unfold_locales (simp add: ids_from_def, rule ids_from_trans)

lemma fresh_events_mono:
  assumes "inj_on (e_NewV7 E) {..<K}" "fresh_events E K w" "ids_from E w w'"
  shows "fresh_events E K w'"
  unfolding fresh_events_def
proof
  fix n assume n: "n \<in> {w_tick w'..<K}"
  then have "e_NewV7 E n \<notin> event_ids (w_db w)" using assms(2,3) by (simp add: fresh_events_def ids_from_def)
  moreover have "e_NewV7 E n \<notin> e_NewV7 E ` {w_tick w..<w_tick w'}" using assms(1) n by (auto dest: inj_onD)
  ultimately show "e_NewV7 E n \<notin> event_ids (w_db w')" using assms(3) by (auto simp: ids_from_def)
qed

lemma ids_prims:
  "state_io_rel (ids_from E) tick" "state_io_rel (ids_from E) (time_Now E)"
  "state_io_rel (ids_from E) (uuid_NewV7 E)" "state_io_rel (ids_from E) (observe x)"
  "state_io_rel (ids_from E) (redis_call g)"
  by (auto simp: state_io_rel_def ids_from_def run_prims)

text \<open>A statement that leaves the events alone, and one that appends an event that was just made.\<close>

lemma ids_db_exec: "(\<And>d. d_events (snd (f d)) = d_events d) \<Longrightarrow> state_io_rel (ids_from E) (db_exec E f)"
  by (auto simp: state_io_rel_def ids_from_def event_ids_def run_db_exec split: fault.split)

lemma event_ids_insert: "event_ids (snd (InsertRunEvent e d)) \<subseteq> insert (er_id e) (event_ids d)"
  by (auto simp: event_ids_def InsertRunEvent_def)

lemma run_new_event:
  "run_state (new_event E run s t p) w =
     (NewRunEvent (e_now E (Suc (w_tick w))) (e_NewV7 E (w_tick w)) (run_tenantID run) (run_jobID run) (run_id run) s t p,
      w\<lparr>w_tick := Suc (Suc (w_tick w))\<rparr>)"
  by (simp add: new_event_def run_prims)

lemma ids_AppendEvent:
  assumes "\<And>r. state_io_rel (ids_from E) (g r)"
  shows "state_io_rel (ids_from E) (new_event E run s t p \<bind> (\<lambda>ev. AppendEvent E ev \<bind> g))"
proof -
  have step: "ids_from E w (snd (run_state (AppendEvent E ev) (w\<lparr>w_tick := Suc (Suc (w_tick w))\<rparr>)))"
    if "ev_id ev = e_NewV7 E (w_tick w)" for w :: "'a world" and ev
    using that event_ids_insert [of "runEventToInsertParams ev" "w_db w"]
    by (auto simp: ids_from_def AppendEvent_def run_db_exec runEventToInsertParams_def split: fault.split)
  show ?thesis
    unfolding state_io_rel_def
  proof
    fix w :: "'a world"
    let ?ev = "fst (run_state (new_event E run s t p) w)" and ?w = "w\<lparr>w_tick := Suc (Suc (w_tick w))\<rparr>"
    obtain r w1 where w1: "run_state (AppendEvent E ?ev) ?w = (r, w1)" by fastforce
    have "ids_from E w w1" using step [of ?ev w] w1 by (simp add: run_new_event NewRunEvent_def)
    moreover have "ids_from E w1 (snd (run_state (g r) w1))" using assms by (simp add: state_io_rel_def)
    moreover have "run_state (new_event E run s t p \<bind> (\<lambda>ev. AppendEvent E ev \<bind> g)) w = run_state (g r) w1"
      using w1 by (simp add: run_new_event)
    ultimately show "ids_from E w (snd (run_state (new_event E run s t p \<bind> (\<lambda>ev. AppendEvent E ev \<bind> g)) w))"
      using ids_from_trans by metis
  qed
qed

lemmas ids_intros = ids_AppendEvent ids_prims idents.io_intros

lemma ids_store:
  "state_io_rel (ids_from E) (FindJob E i)" "state_io_rel (ids_from E) (quota_Get E t)"
  "state_io_rel (ids_from E) (ReserveDailyCost E t c l)" "state_io_rel (ids_from E) (AdjustDailyCost E t c)"
  "state_io_rel (ids_from E) (idem_Lookup E k)" "state_io_rel (ids_from E) (idem_Begin E k h i)"
  "state_io_rel (ids_from E) (idem_Complete E k h)"
  unfolding repo_defs
  by (intro ids_intros ids_db_exec;
      simp add: statement_reads ReserveDailyLLMCost_def AdjustDailyLLMCost_def BeginIdempotency_def
        CompleteIdempotency_def Let_def split: option.split)+

lemma ids_metrics:
  "state_io_rel (ids_from E) (recordLLMLatency m x)" "state_io_rel (ids_from E) (recordLLMTimeout m)"
  "state_io_rel (ids_from E) (recordLLMValidationFailure m)" "state_io_rel (ids_from E) (recordLLMCost m c)"
  unfolding metric_defs by (intro ids_intros)+

lemma ids_callModel: "state_io_rel (ids_from E) (callModel E m policy model prompt)"
  unfolding callModel_def by (intro ids_intros ids_metrics)

lemma ids_llm_attempts: "state_io_rel (ids_from E) (llm_attempts E m policy model prompt k cost err)"
  by (induction k arbitrary: cost err) (auto intro!: ids_callModel ids_metrics idents.io_intros)

lemma ids_llm_Execute: "state_io_rel (ids_from E) (llm_Execute E m policy run)"
  unfolding llm_Execute_def llm_spend_def llm_finish_def llm_defer_def llm_appendEvent_def
  by (intro ids_store ids_llm_attempts ids_intros)

lemma ids_idempotent_Execute:
  "(\<And>run. state_io_rel (ids_from E) (execute run)) \<Longrightarrow> state_io_rel (ids_from E) (idempotent_Execute E execute run)"
  unfolding idempotent_Execute_def by (intro ids_store ids_intros)

section \<open>The counter of calls\<close>

definition ticks :: "'r world \<Rightarrow> 'r world \<Rightarrow> bool" where
  "ticks w w' \<longleftrightarrow> w_tick w \<le> w_tick w'"

interpretation ticks: evolution ticks
  by unfold_locales (auto simp: ticks_def)

lemma ticks_prims:
  "state_io_rel ticks tick" "state_io_rel ticks (time_Now E)" "state_io_rel ticks (uuid_NewV7 E)"
  "state_io_rel ticks (observe x)" "state_io_rel ticks (redis_call g)" "state_io_rel ticks (db_exec E f)"
  by (auto simp: state_io_rel_def ticks_def run_prims split: fault.split)

lemma ticks_transaction:
  assumes "state_io_rel ticks body"
  shows "state_io_rel ticks (db_transaction E b c body)"
  unfolding state_io_rel_def
proof
  fix w :: "'a world"
  have "Suc (w_tick w) \<le> w_tick (snd (run_state body (w\<lparr>w_tick := Suc (w_tick w)\<rparr>)))"
    using spec [OF assms [unfolded state_io_rel_def], of "w\<lparr>w_tick := Suc (w_tick w)\<rparr>"] by (simp add: ticks_def)
  then show "ticks w (snd (run_state (db_transaction E b c body) w))"
    by (auto simp: db_transaction_def run_prims ticks_def split: fault.split sum.split tx_end.split prod.split)
qed

lemmas ticks_intros = ticks_prims ticks_transaction ticks.io_intros

lemma ticks_store:
  "state_io_rel ticks (FindChildren E i s)" "state_io_rel ticks (ListRunsByJob E t j p)" "state_io_rel ticks (SaveRun E run)"
  "state_io_rel ticks (AppendEvent E ev)" "state_io_rel ticks (PersistRunTransition E run ev)"
  "state_io_rel ticks (quota_Get E t)" "state_io_rel ticks (TryMarkRunRunning E run ev limit)"
  unfolding repo_defs by (intro ticks_intros)+

lemma ticks_worker:
  "state_io_rel ticks (worker_appendEvent E run t p)" "state_io_rel ticks (ack E k)" "state_io_rel ticks (Enqueue E msg)"
  "state_io_rel ticks (DeadLetter E msg)" "state_io_rel ticks (recordRun b run)" "state_io_rel ticks (recordDLQ b)"
  "state_io_rel ticks (new_event E run s t p)" "state_io_rel ticks (recordRunDeferred b reason)"
  "state_io_rel ticks (persistTransition E run ev)"
  unfolding worker_appendEvent_def new_event_def persistTransition_def ack_def queue_defs metric_defs by (intro ticks_store ticks_intros)+

lemma ticks_enqueueChildren: "state_io_rel ticks (enqueueChildren E parent)"
  unfolding enqueueChildren_def enqueueChild_def by (intro ticks_store ticks_worker ticks_intros)

lemmas ticks_rest = ticks_store ticks_worker ticks_enqueueChildren ticks_intros

section \<open>A transition that is stored\<close>

text \<open>What the steps after a persisted transition leave alone: stored runs and events.\<close>

definition kept :: "database \<Rightarrow> database \<Rightarrow> bool" where
  "kept d d' \<longleftrightarrow> (\<forall>i row. find_run d i = Some row \<longrightarrow> find_run d' i = Some row) \<and>
     set (d_events d) \<subseteq> set (d_events d')"

interpretation kept: child_statements kept
  by unfold_locales
    (auto simp: kept_def find_run_def find_append InsertJobRun_def InsertRunEvent_def split: option.splits)

definition has_event :: "database \<Rightarrow> JobRunID \<Rightarrow> EventType \<Rightarrow> bool" where
  "has_event d i t \<longleftrightarrow> (\<exists>ev\<in>set (d_events d). er_job_run_id ev = i \<and> er_event_type ev = t)"

lemma Update_ids: "rr_id ` set (d_runs (snd (UpdateJobRunStatus a d))) = rr_id ` set (d_runs d)"
proof -
  have "map rr_id (d_runs (snd (UpdateJobRunStatus a d))) = map rr_id (d_runs d)"
    by (simp add: UpdateJobRunStatus_def Let_def map_update_where set_run_status_def)
  then show ?thesis by (metis set_map)
qed

text \<open>The table has the run, and the event to be written is new.\<close>

definition can_store :: "JobRunID \<Rightarrow> RunRow \<Rightarrow> RunEvent \<Rightarrow> database \<Rightarrow> bool" where
  "can_store i row ev d \<longleftrightarrow> find_run d i = Some row \<and> ev_id ev \<notin> event_ids d"

lemma run_persist_fresh:
  assumes "reliable E" "status_check (run_status run)" "ev_jobRunID ev = run_id run"
    and store: "can_store (run_id run) row ev (w_db w)"
  shows "\<exists>w'. run_state (PersistRunTransition E run ev) w = (Inr (), w') \<and>
    find_run (w_db w') (run_id run) = Some (set_run_status (jobRunToUpdateStatusParams run) row) \<and>
    has_event (w_db w') (run_id run) (ev_eventType ev)"
proof -
  let ?d = "w_db w"
  have row: "find_run ?d (run_id run) = Some row" and fresh: "ev_id ev \<notin> er_id ` set (d_events ?d)"
    using store by (simp_all add: can_store_def event_ids_def)
  obtain r w' where w': "run_state (PersistRunTransition E run ev) w = (r, w')" by fastforce
  have n: "filter (\<lambda>r. rr_id r = run_id run) (d_runs ?d) \<noteq> []" using row find_run_count [of ?d "run_id run"] by simp
  have u: "fst (UpdateJobRunStatus (jobRunToUpdateStatusParams run) ?d) =
      Inr (int (length (filter (\<lambda>r. rr_id r = run_id run) (d_runs ?d))))"
    using assms(2) by (simp add: UpdateJobRunStatus_def Let_def)
  have "run_id run \<in> rr_id ` set (d_runs ?d)" using find_run_id [OF row] by (metis image_eqI)
  moreover have "d_events (snd (UpdateJobRunStatus (jobRunToUpdateStatusParams run) ?d)) = d_events ?d"
    by (simp add: UpdateJobRunStatus_def Let_def)
  ultimately have i: "fst (InsertRunEvent (runEventToInsertParams ev)
      (snd (UpdateJobRunStatus (jobRunToUpdateStatusParams run) ?d))) = Inr ()"
    using fresh assms(3) by (simp add: InsertRunEvent_def Update_ids runEventToInsertParams_def)
  have r: "r = Inr ()" "transition_ok run ev ?d" "w_db w' = transition_db run ev ?d"
    using w' assms(1) u i n
    by (auto simp: PersistRunTransition_def db_transaction_def run_prims transition_db_def transition_ok_def
        split: sum.splits if_splits)
  moreover have "has_event (w_db w') (run_id run) (ev_eventType ev)"
    using transition_effect(2) [OF r(2)] r(3) assms(3) by (auto simp: has_event_def runEventToInsertParams_def)
  ultimately show ?thesis using w' transition_effect(1) [OF r(2)] row by auto
qed

lemma triple_persist_fresh:
  assumes "reliable E" "status_check (run_status run)" "ev_jobRunID ev = run_id run" "ev_eventType ev = t"
    and rest: "state_io_rel (on_db kept) g"
  shows "triple (dbp (can_store (run_id run) row ev))
    (PersistRunTransition E run ev \<bind> (\<lambda>r. case r of Inl e \<Rightarrow> f e | Inr _ \<Rightarrow> g))
    (\<lambda>_. dbp (\<lambda>d. find_run d (run_id run) = Some (set_run_status (jobRunToUpdateStatusParams run) row) \<and>
       has_event d (run_id run) t))"
proof (rule tripleI)
  fix w a w'
  assume pre: "dbp (can_store (run_id run) row ev) w"
    and run: "run_state (PersistRunTransition E run ev \<bind> (\<lambda>r. case r of Inl e \<Rightarrow> f e | Inr _ \<Rightarrow> g)) w = (a, w')"
  obtain w1 where w1: "run_state (PersistRunTransition E run ev) w = (Inr (), w1)"
    "find_run (w_db w1) (run_id run) = Some (set_run_status (jobRunToUpdateStatusParams run) row)"
    "has_event (w_db w1) (run_id run) t"
    using run_persist_fresh [OF assms(1-3) pre [unfolded dbp_def]] assms(4) by blast
  moreover have "kept (w_db w1) (w_db w')"
    using rest run w1(1) by (auto simp: state_io_rel_def on_db_def) (metis snd_conv)
  ultimately show "dbp (\<lambda>d. find_run d (run_id run) = Some (set_run_status (jobRunToUpdateStatusParams run) row) \<and>
      has_event d (run_id run) t) w'"
    by (auto simp: dbp_def kept_def has_event_def)
qed

text \<open>A run in the table before its event is made.\<close>

definition run_waits :: "'r env \<Rightarrow> nat \<Rightarrow> JobRunID \<Rightarrow> RunRow \<Rightarrow> 'r world \<Rightarrow> bool" where
  "run_waits E K i row w \<longleftrightarrow> fresh_events E K w \<and> find_run (w_db w) i = Some row"

text \<open>What a program has reached unless it took the counter to \<open>K\<close>.\<close>

definition by_tick :: "nat \<Rightarrow> (database \<Rightarrow> bool) \<Rightarrow> 'r world \<Rightarrow> bool" where
  "by_tick K P w \<longleftrightarrow> w_tick w < K \<longrightarrow> P (w_db w)"

lemma triple_waits_now: "triple (run_waits E K i row) (time_Now E) (\<lambda>_. run_waits E K i row)"
  by (simp add: triple_def run_waits_def fresh_events_def run_prims)

lemma triple_event_then:
  assumes "\<And>ev. ev_jobRunID ev = run_id run \<Longrightarrow> ev_eventType ev = t \<Longrightarrow>
      triple (dbp (can_store i row ev)) (f ev) (\<lambda>_. dbp P)"
    and "\<And>ev. state_io_rel ticks (f ev)"
  shows "triple (run_waits E K i row) (new_event E run s t p \<bind> f) (\<lambda>_. by_tick K P)"
proof (rule tripleI)
  fix w a w'
  assume pre: "run_waits E K i row w" and run: "run_state (new_event E run s t p \<bind> f) w = (a, w')"
  let ?ev = "fst (run_state (new_event E run s t p) w)" and ?w = "w\<lparr>w_tick := Suc (Suc (w_tick w))\<rparr>"
  have f: "run_state (f ?ev) ?w = (a, w')" using run by (simp add: run_new_event)
  then have le: "w_tick w < w_tick w'"
    using assms(2) [of ?ev] unfolding state_io_rel_def ticks_def by (metis Suc_le_lessD Suc_lessD snd_conv world.select_convs(4) world.surjective world.update_convs(4))
  show "by_tick K P w'"
  proof (cases "w_tick w < K")
    case True
    have "triple (dbp (can_store i row ?ev)) (f ?ev) (\<lambda>_. dbp P)"
      by (rule assms(1)) (simp_all add: run_new_event NewRunEvent_def)
    moreover have "dbp (can_store i row ?ev) ?w"
      using pre True by (simp add: dbp_def can_store_def run_waits_def fresh_events_def run_new_event NewRunEvent_def)
    ultimately have "dbp P w'" using f tripleD by fastforce
    then show ?thesis by (simp add: dbp_def by_tick_def)
  qed (use le in \<open>simp add: by_tick_def\<close>)
qed

lemma triple_by_tick: "triple Q m (\<lambda>_. by_tick K P) \<Longrightarrow> (\<And>d. P d \<Longrightarrow> P' d) \<Longrightarrow> triple Q m (\<lambda>_. by_tick K P')"
  by (erule triple_weaken) (auto simp: by_tick_def)

section \<open>The outcome of an execution\<close>

text \<open>How the table has a run after a failure, and after an execution.\<close>

definition failed_as :: "JobRunID \<Rightarrow> RunRow \<Rightarrow> error \<Rightarrow> database \<Rightarrow> bool" where
  "failed_as i row err d \<longleftrightarrow> (\<exists>row'. find_run d i = Some row' \<and> run_keeps row row' \<and>
     rr_error_message row' = stringPtr (err_text err) \<and>
     (if rr_attempts row + 1 < maxAttempts
      then rr_status row' = StatusRetry \<and> rr_attempts row' = rr_attempts row + 1 \<and> has_event d i EventJobRunRetry
      else rr_status row' = StatusFailed \<and> rr_attempts row' = rr_attempts row \<and> has_event d i EventJobRunFailed))"

definition succeeded :: "JobRunID \<Rightarrow> RunRow \<Rightarrow> database \<Rightarrow> bool" where
  "succeeded i row d \<longleftrightarrow> (\<exists>row'. find_run d i = Some row' \<and> run_keeps row row' \<and>
     rr_status row' = StatusSuccess \<and> rr_attempts row' = rr_attempts row \<and> has_event d i EventJobRunSucceeded)"

text \<open>The run in memory that a worker executes, and its row.\<close>

definition runs_as :: "JobRunID \<Rightarrow> RunRow \<Rightarrow> JobRun \<Rightarrow> bool" where
  "runs_as i row run \<longleftrightarrow> run_id run = i \<and> run_status run = StatusRunning \<and>
     run_attempts run = rr_attempts row \<and> in_int32 (rr_attempts row)"

lemma stored_row:
  "run_keeps row (set_run_status (jobRunToUpdateStatusParams run) row)"
  "rr_status (set_run_status (jobRunToUpdateStatusParams run) row) = run_status run"
  "rr_attempts (set_run_status (jobRunToUpdateStatusParams run) row) = wrap32 (run_attempts run)"
  "rr_error_message (set_run_status (jobRunToUpdateStatusParams run) row) = stringPtr (run_errorMsg run)"
  by (simp_all add: set_run_status_def jobRunToUpdateStatusParams_def run_keeps_def)

lemma failRun_outcome:
  assumes E: "reliable E" and run: "runs_as i row run" and last: "\<not> rr_attempts row + 1 < maxAttempts"
  shows "triple (run_waits E K i row) (failRun E wk qm run err) (\<lambda>_. by_tick K (failed_as i row err))"
  unfolding failRun_def persistTransition_def
proof (intro triple_Let triple_bind [OF triple_waits_now] triple_sum, goal_cases)
  case (1 run1 now e)
  then show ?case using run by (simp add: MarkFailed_def setError_def runs_as_def)
next
  case (2 run1 now run2)
  then have run2: "run_id run2 = i" "run_status run2 = StatusFailed" "run_attempts run2 = rr_attempts row"
      "run_errorMsg run2 = err_text err" "wrap32 (rr_attempts row) = rr_attempts row"
    using run by (auto simp: MarkFailed_def setError_def runs_as_def)
  show ?case
    unfolding run2(1) [symmetric]
    by (intro triple_Let triple_event_then ticks_rest)
      (rule triple_weaken [OF triple_persist_fresh [OF E]],
        auto simp: run2 dbp_def failed_as_def last stored_row intro!: kept.child_intros kept.worker_appendEvent
        kept.enqueueChildren kept.queueing kept.metrics kept.ack)
qed

lemma retryRun_outcome:
  assumes E: "reliable E" and run: "runs_as i row run" and less: "rr_attempts row + 1 < maxAttempts"
  shows "triple (run_waits E K i row) (retryRun E wk qm run err) (\<lambda>_. by_tick K (failed_as i row err))"
  unfolding retryRun_def persistTransition_def
proof (intro triple_Let triple_bind [OF triple_waits_now] triple_sum, goal_cases)
  case (1 run1 now e)
  then show ?case using run by (simp add: MarkRetry_def setError_def runs_as_def)
next
  case (2 run1 now run2)
  have w: "wrap64 (rr_attempts row + 1) = rr_attempts row + 1" "wrap32 (rr_attempts row + 1) = rr_attempts row + 1"
    using run less by (simp_all add: in_int32_def in_int64_def maxAttempts_def runs_as_def)
  from 2 have run2: "run_id run2 = i" "run_status run2 = StatusRetry" "run_attempts run2 = rr_attempts row + 1"
      "run_errorMsg run2 = err_text err"
    using run w by (auto simp: MarkRetry_def setError_def runs_as_def)
  show ?case
    unfolding run2(1) [symmetric]
    by (intro triple_event_then ticks_rest)
      (rule triple_weaken [OF triple_persist_fresh [OF E]],
        auto simp: run2 dbp_def failed_as_def less stored_row w intro!: kept.child_intros kept.worker_appendEvent
        kept.queueing kept.metrics kept.ack)
qed

lemma handleFailure_fails:
  assumes "reliable E" "runs_as i row run"
  shows "triple (run_waits E K i row) (handleFailure E wk qm run err) (\<lambda>_. by_tick K (failed_as i row err))"
proof -
  have "wrap64 (run_attempts run + 1) = rr_attempts row + 1"
    using assms(2) by (simp add: runs_as_def in_int32_def in_int64_def)
  then show ?thesis
    unfolding handleFailure_def using failRun_outcome [OF assms] retryRun_outcome [OF assms] by simp
qed

text \<open>The promise of an executor that this needs beyond the port: its events are its own.\<close>

locale tidy_executor = executor execute for execute :: "JobRun \<Rightarrow> ('r, unit result) app" +
  fixes E :: "'r env"
  assumes own_ids: "state_io_rel (ids_from E) (execute run)"
begin

lemma triple_execute: "inj_on (e_NewV7 E) {..<K} \<Longrightarrow> triple (run_waits E K i row) (execute run) (\<lambda>_. run_waits E K i row)"
  unfolding triple_def
proof (intro allI impI)
  fix w assume "inj_on (e_NewV7 E) {..<K}" "run_waits E K i row w"
  moreover have "ids_from E w (snd (run_state (execute run) w))" "same_runs (w_db w) (w_db (snd (run_state (execute run) w)))"
    using own_ids keeps_runs by (simp_all add: state_io_rel_def on_db_def)
  ultimately show "run_waits E K i row (snd (run_state (execute run) w))"
    by (auto simp: run_waits_def find_run_def same_runs_def intro: fresh_events_mono)
qed

lemma executeRun_decides:
  assumes E: "reliable E" "inj_on (e_NewV7 E) {..<K}" and run: "runs_as i row run"
  shows "triple (run_waits E K i row) (executeRun E wk execute qm run)
    (\<lambda>_. by_tick K (\<lambda>d. succeeded i row d \<or> (\<exists>err. failed_as i row err d)))"
  unfolding executeRun_def persistTransition_def
proof (rule triple_bind [OF triple_execute [OF E(2)]], intro triple_sum triple_bind [OF triple_waits_now], goal_cases)
  case (1 r err)
  show ?case by (rule triple_by_tick [OF handleFailure_fails [OF E(1) run]]) auto
next
  case (2 r u now e)
  then show ?case using run by (simp add: MarkSuccess_def runs_as_def)
next
  case (3 r u now run1)
  then have run1: "run_id run1 = i" "run_status run1 = StatusSuccess" "run_attempts run1 = rr_attempts row"
      "wrap32 (rr_attempts row) = rr_attempts row"
    using run by (auto simp: MarkSuccess_def runs_as_def)
  show ?case
    unfolding run1(1) [symmetric]
    by (intro triple_event_then ticks_rest)
      (rule triple_weaken [OF triple_persist_fresh [OF E(1)]],
        auto simp: run1 dbp_def succeeded_def stored_row intro!: kept.child_intros kept.enqueueChildren
        kept.metrics kept.ack)
qed

end

interpretation tidy: tidy_executor "idempotent_Execute E (llm_Execute E m policy)" E
  for E :: "'r env" and m policy
  by unfold_locales (intro ids_idempotent_Execute ids_llm_Execute)

interpretation tidy_stub: tidy_executor "stub_Execute E failFunc" E for E :: "'r env" and failFunc
  by unfold_locales (auto simp: stub_Execute_def intro!: ids_intros)

section \<open>The claim of a slot\<close>

text \<open>The tenant of the row has a free slot.\<close>

definition slot_free :: "'r env \<Rightarrow> RunRow \<Rightarrow> database \<Rightarrow> bool" where
  "slot_free E row d \<longleftrightarrow> (rr_status row = StatusQueued \<or> rr_status row = StatusRetry) \<and>
     int (running_count d (rr_tenant_id row)) < MaxConcurrentRuns (tenant_quota E d (rr_tenant_id row))"

lemma run_claim:
  assumes E: "reliable E" and store: "can_store (run_id run) row ev (w_db w)" and free: "slot_free E row (w_db w)"
    and run: "run_tenantID run = rr_tenant_id row" "ev_jobRunID ev = run_id run"
    and limit: "limit = MaxConcurrentRuns (tenant_quota E (w_db w) (rr_tenant_id row))"
  shows "\<exists>w'. run_state (TryMarkRunRunning E run ev limit) w = (Inr True, w') \<and> w_tick w \<le> w_tick w' \<and>
    event_ids (w_db w') \<subseteq> insert (ev_id ev) (event_ids (w_db w)) \<and>
    find_run (w_db w') (run_id run) = Some (row\<lparr>rr_status := StatusRunning,
      rr_started_at := Some (run_startedAt run), rr_updated_at := run_updatedAt run\<rparr>)"
proof -
  let ?d = "w_db w" and ?a = "claim_params run limit"
  have row: "find_run ?d (run_id run) = Some row" "row \<in> set (d_runs ?d)" "rr_id row = run_id run"
    using store find_run_id [of ?d "run_id run" row] by (auto simp: can_store_def find_run_def find_Some_iff in_set_conv_nth)
  have hit: "fst (TryMarkJobRunRunning ?a ?d) = Inr True"
    using row(2,3) free run(1) limit
    by (auto simp: TryMarkJobRunRunning_def Let_def claim_params_def slot_free_def running_count_def)
  have "map rr_id (d_runs (snd (TryMarkJobRunRunning ?a ?d))) = map rr_id (d_runs ?d)"
    by (simp add: TryMarkJobRunRunning_def Let_def map_update_where)
  then have "rr_id ` set (d_runs (snd (TryMarkJobRunRunning ?a ?d))) = rr_id ` set (d_runs ?d)"
    by (metis set_map)
  moreover have "run_id run \<in> rr_id ` set (d_runs ?d)" using row(2,3) by (metis image_eqI)
  ultimately have ev: "fst (InsertRunEvent (runEventToInsertParams ev) (snd (TryMarkJobRunRunning ?a ?d))) = Inr ()"
    using run(2) store
    by (auto simp: InsertRunEvent_def runEventToInsertParams_def can_store_def event_ids_def TryMarkJobRunRunning_def Let_def)
  obtain r w' where w': "run_state (TryMarkRunRunning E run ev limit) w = (r, w')" by fastforce
  have "r = Inr True \<and> w_tick w \<le> w_tick w' \<and> w_db w' = claim_db run ev limit ?d"
    using w' E hit ev unfolding claim_params_def claim_db_def
    by (auto simp: TryMarkRunRunning_def db_transaction_def run_prims split: sum.splits if_splits prod.splits)
  moreover have "event_ids (claim_db run ev limit ?d) \<subseteq> insert (ev_id ev) (event_ids ?d)"
    using event_ids_insert [of "runEventToInsertParams ev" "snd (TryMarkJobRunRunning ?a ?d)"]
    by (simp add: claim_db_def event_ids_def runEventToInsertParams_def TryMarkJobRunRunning_def Let_def)
  moreover have "find_run (claim_db run ev limit ?d) (run_id run) = Some (row\<lparr>rr_status := StatusRunning,
      rr_started_at := Some (run_startedAt run), rr_updated_at := run_updatedAt run\<rparr>)"
    using row free run(1) limit by (simp add: claim_db_def find_run_claim claim_params_def slot_free_def)
  ultimately show ?thesis using w' by auto
qed

lemma decided_mono:
  assumes "run_keeps row0 row" "rr_attempts row = rr_attempts row0"
  shows "succeeded i row d \<Longrightarrow> succeeded i row0 d" "failed_as i row err d \<Longrightarrow> failed_as i row0 err d"
  using assms keeps_trans(1) by (auto simp: succeeded_def failed_as_def)

lemma run_process:
  assumes "reliable E" "ParseJobRunID (e_uuid E) (msg_JobRunID (qm_Msg qm)) = Inr i"
    and "find_run (w_db w) i = Some row" "slot_free E row d"
  shows "run_state (process E wk execute qm reclaimed) w =
    run_state (startRun E wk execute qm (jobRunFromGetByIDRow row)) (w\<lparr>w_tick := Suc (w_tick w)\<rparr>)"
  using assms by (auto simp: process_def run_FindRunByID IsTerminal_status isTerminalStatus_def slot_free_def)

context tidy_executor
begin

lemma startRun_ticks: "Suc (w_tick w) \<le> w_tick (snd (run_state (startRun E wk execute qm run) w))"
proof -
  have "ids_from E v v' \<Longrightarrow> ticks v v'" for v v' by (simp add: ids_from_def ticks_def)
  then have "state_io_rel ticks (execute r)" for r using own_ids by (auto simp: state_io_rel_def)
  then have "state_io_rel ticks (case MarkRunning now run of
       Inl e \<Rightarrow> ack E (qm_StreamID qm)
     | Inr run \<Rightarrow> do {
         startedEvent \<leftarrow> new_event E run (run_status run) EventJobRunStarted None;
         r \<leftarrow> acquireRunSlot E wk run startedEvent;
         case r of
           Inl e \<Rightarrow> State_Monad.return ()
         | Inr acquired \<Rightarrow>
             if \<not> acquired then recordRunDeferred (wk_metrics wk) ''max_concurrent_runs''
             else if \<not> wk_quota wk then do {
               r \<leftarrow> persistTransition E run startedEvent;
               case r of Inl e \<Rightarrow> State_Monad.return () | Inr _ \<Rightarrow> executeRun E wk execute qm run
             }
             else executeRun E wk execute qm run
       })" for now
    unfolding executeRun_def acquireRunSlot_def handleFailure_def failRun_def retryRun_def by (intro ticks_rest)
  from this [of "e_now E (w_tick w)", unfolded state_io_rel_def, rule_format, of "w\<lparr>w_tick := Suc (w_tick w)\<rparr>"]
  show ?thesis by (simp add: startRun_def run_time_Now ticks_def)
qed

lemma startRun_decides:
  assumes E: "reliable E" "inj_on (e_NewV7 E) {..<K}" and wk: "wk_quota wk"
    and w: "run_waits E K i row w" "slot_free E row (w_db w)" and row: "in_int32 (rr_attempts row)"
  shows "by_tick K (\<lambda>d. succeeded i row d \<or> (\<exists>err. failed_as i row err d))
    (snd (run_state (startRun E wk execute qm (jobRunFromGetByIDRow row)) w))"
proof (cases "Suc (w_tick w) < K")
  case False
  then show ?thesis using startRun_ticks [of w wk qm "jobRunFromGetByIDRow row"] by (simp add: by_tick_def)
next
  case room: True
  let ?run = "jobRunFromGetByIDRow row" and ?k = "w_tick w" and ?t = "rr_tenant_id row"
  let ?now = "e_now E ?k" and ?w = "\<lambda>n. w\<lparr>w_tick := n\<rparr>"
  let ?run1 = "?run\<lparr>run_status := StatusRunning, run_startedAt := ?now, run_updatedAt := ?now\<rparr>"
  let ?row1 = "row\<lparr>rr_status := StatusRunning, rr_started_at := Some ?now, rr_updated_at := ?now\<rparr>"
  have id: "rr_id row = i" using w(1) find_run_id by (auto simp: run_waits_def)
  have m: "MarkRunning ?now ?run = Inr ?run1" using w(2) by (auto simp: MarkRunning_def slot_free_def)
  obtain ev where ev: "run_state (new_event E ?run1 StatusRunning EventJobRunStarted None) (?w (Suc ?k)) = (ev, ?w (Suc (Suc (Suc ?k))))"
    and ev_id: "ev_id ev = e_NewV7 E (Suc ?k)" "ev_jobRunID ev = run_id ?run1"
    by (simp add: run_new_event NewRunEvent_def)
  let ?w4 = "?w (Suc (Suc (Suc (Suc ?k))))"
  have store: "can_store (run_id ?run1) row ev (w_db ?w4)"
    using w(1) id ev_id(1) room by (simp add: can_store_def run_waits_def fresh_events_def)
  obtain w' where w': "run_state (TryMarkRunRunning E ?run1 ev (MaxConcurrentRuns (tenant_quota E (w_db w) ?t))) ?w4 = (Inr True, w')"
    "w_tick ?w4 \<le> w_tick w'" "event_ids (w_db w') \<subseteq> insert (ev_id ev) (event_ids (w_db w))" "find_run (w_db w') i = Some ?row1"
    using run_claim [OF E(1) store, of "MaxConcurrentRuns (tenant_quota E (w_db w) ?t)"] w(2) ev_id(2) id by auto
  have "ids_from E w w'" using w'(2,3) ev_id(1) by (auto simp: ids_from_def)
  then have "run_waits E K i ?row1 w'"
    using w(1) w'(4) E(2) by (auto simp: run_waits_def intro: fresh_events_mono)
  moreover have "runs_as i ?row1 ?run1" using row id by (simp add: runs_as_def)
  ultimately have "by_tick K (\<lambda>d. succeeded i ?row1 d \<or> (\<exists>err. failed_as i ?row1 err d)) (snd (run_state (executeRun E wk execute qm ?run1) w'))"
    using executeRun_decides [OF E] unfolding triple_def by blast
  moreover have "run_keeps row ?row1" by (simp add: run_keeps_def)
  moreover have "run_state (startRun E wk execute qm ?run) w = run_state (executeRun E wk execute qm ?run1) w'"
    using wk E(1) ev w'(1) by (simp add: startRun_def run_time_Now m acquireRunSlot_def run_quota_Get)
  ultimately show ?thesis by (auto simp: by_tick_def dest: decided_mono [of row ?row1])
qed

lemma process_decides:
  assumes "reliable E" "inj_on (e_NewV7 E) {..<K}" "wk_quota wk"
    and "ParseJobRunID (e_uuid E) (msg_JobRunID (qm_Msg qm)) = Inr i"
    and "fresh_events E K w" "find_run (w_db w) i = Some row" "slot_free E row (w_db w)" "in_int32 (rr_attempts row)"
  shows "by_tick K (\<lambda>d. succeeded i row d \<or> (\<exists>err. failed_as i row err d))
    (snd (run_state (process E wk execute qm reclaimed) w))"
proof -
  have "run_waits E K i row (w\<lparr>w_tick := Suc (w_tick w)\<rparr>)" using assms(5,6) by (simp add: run_waits_def fresh_events_def)
  then show ?thesis
    unfolding run_process [OF assms(1,4,6,7)] using startRun_decides [OF assms(1-3)] assms(7,8) by simp
qed

end

section \<open>Properties\<close>

text \<open>
  C10 (liveness): one delivery decides a run. When no database call fails, the identifiers that the
  generator gave so far are distinct and those it gives now are not taken, and the tenant has a
  free slot, a worker that gets the message of a queued or retried run, with the executor the
  program wires up, leaves it as a success with its event, or as a retry with one more attempt
  while the budget lasts, or as a failure, with the text of the error; it is never left running,
  whatever the model and the queue do.
\<close>

theorem process_settles:
  assumes "reliable E" "wk_quota wk" "ParseJobRunID (e_uuid E) (msg_JobRunID (qm_Msg qm)) = Inr i"
    and "find_run (w_db w) i = Some row" "slot_free E row (w_db w)" "in_int32 (rr_attempts row)"
    and "w' = snd (run_state (process E wk (idempotent_Execute E (llm_Execute E m policy)) qm reclaimed) w)"
    and "inj_on (e_NewV7 E) {..w_tick w'}" "fresh_events E (Suc (w_tick w')) w"
  shows "succeeded i row (w_db w') \<or> (\<exists>err. failed_as i row err (w_db w'))"
proof -
  have K: "inj_on (e_NewV7 E) {..<Suc (w_tick w')}" using assms(8) by (simp add: lessThan_Suc_atMost)
  from tidy.process_decides [OF assms(1) K assms(2,3,9,4,5,6), of m policy reclaimed] show ?thesis
    by (simp add: by_tick_def assms(7))
qed

lemma sample_fresh: "fresh_events sample_env K (start_world (sample_db st n))"
  by (simp add: fresh_events_def event_ids_def start_world_def sample_db_def empty_db_def)

lemma sample_inj: "k < 100 \<Longrightarrow> inj_on (e_NewV7 sample_env) {..k}"
proof (rule inj_onI)
  fix a b assume k: "k < 100" and ab: "a \<in> {..k}" "b \<in> {..k}" "e_NewV7 sample_env a = e_NewV7 sample_env b"
  then have "(of_nat a :: uuid) = of_nat b" by (simp add: sample_env_sel)
  then have "unat (of_nat a :: uuid) = unat (of_nat b :: uuid)" by simp
  then show "a = b" using k ab by (simp add: unsigned_of_nat take_bit_nat_eq_self)
qed

theorem process_settles_witness:
  "let w' = snd (run_state (process sample_env sample_worker
       (idempotent_Execute sample_env (llm_Execute sample_env True (sample_policy 0))) (sample_message 21) False)
       (start_world (sample_db StatusQueued 0))) in
   succeeded 21 (sample_run 21 1 11 1 StatusQueued 0) (w_db w') \<or>
   (\<exists>err. failed_as 21 (sample_run 21 1 11 1 StatusQueued 0) err (w_db w'))"
proof -
  let ?row = "sample_run 21 1 11 1 StatusQueued 0" and ?w = "start_world (sample_db StatusQueued 0)"
  let ?w' = "snd (run_state (process sample_env sample_worker
       (idempotent_Execute sample_env (llm_Execute sample_env True (sample_policy 0))) (sample_message 21) False) ?w)"
  have free: "slot_free sample_env ?row (w_db ?w)"
    by (simp add: slot_free_def sample_run_def tenant_quota_def start_world_def sample_db_def empty_db_def sample_env_sel
        sample_quota_def running_count_def running_runs_def)
  have "w_tick (snd (run_state (startRun sample_env sample_worker
       (idempotent_Execute sample_env (llm_Execute sample_env True (sample_policy 0))) (sample_message 21)
       (jobRunFromGetByIDRow ?row)) (?w\<lparr>w_tick := Suc (w_tick ?w)\<rparr>))) < 100" by code_simp
  then have k: "w_tick ?w' < 100" unfolding run_process [OF sample_reliable sample_message_id sample_db_run free] .
  have "wk_quota sample_worker" "in_int32 (rr_attempts ?row)"
    by (simp_all add: sample_worker_def sample_run_def in_int32_def)
  moreover note free
  ultimately show ?thesis
    using process_settles [OF sample_reliable _ sample_message_id sample_db_run _ _ refl sample_inj [OF k] sample_fresh]
    unfolding Let_def by blast
qed

text \<open>
  A failed execution is retried within the budget and fails otherwise. When no
  database call fails and the identifiers the generator gives are not taken, the run that was
  running ends in status retry with one more attempt, or, if it has used its attempts, in status
  failed; the error text is stored with it, and so is the event of the transition.
\<close>

theorem handleFailure_outcome:
  assumes "reliable E" "find_run (w_db w) i = Some row" "rr_status row = StatusRunning" "in_int32 (rr_attempts row)"
    and "w' = snd (run_state (handleFailure E wk qm (jobRunFromGetByIDRow row) err) w)"
    and "fresh_events E (Suc (w_tick w')) w"
  shows "\<exists>row'. find_run (w_db w') i = Some row' \<and> rr_error_message row' = stringPtr (err_text err) \<and>
    (if rr_attempts row + 1 < maxAttempts
     then rr_status row' = StatusRetry \<and> rr_attempts row' = rr_attempts row + 1 \<and> has_event (w_db w') i EventJobRunRetry
     else rr_status row' = StatusFailed \<and> rr_attempts row' = rr_attempts row \<and> has_event (w_db w') i EventJobRunFailed)"
proof -
  have "runs_as i row (jobRunFromGetByIDRow row)" using assms(3,4) find_run_id [OF assms(2)] by (simp add: runs_as_def)
  from handleFailure_fails [OF assms(1) this, of "Suc (w_tick w')" wk qm err] have "failed_as i row err (w_db w')"
    using assms(2,5,6) by (simp add: triple_def run_waits_def by_tick_def)
  then show ?thesis by (auto simp: failed_as_def)
qed

theorem handleFailure_outcome_witness:
  "let w = start_world (sample_db StatusRunning 2); row = sample_run 21 1 11 1 StatusRunning 2;
       d' = w_db (snd (run_state (handleFailure sample_env sample_worker (sample_message 21)
              (jobRunFromGetByIDRow row) ErrLLMTimeout) w)) in
   \<exists>row'. find_run d' 21 = Some row' \<and> rr_status row' = StatusFailed \<and> has_event d' 21 EventJobRunFailed"
proof -
  let ?row = "sample_run 21 1 11 1 StatusRunning 2"
  have "rr_status ?row = StatusRunning" "rr_attempts ?row = 2" by (simp_all add: sample_run_def)
  then show ?thesis
    using handleFailure_outcome [OF sample_reliable sample_db_run [of StatusRunning 2] _ _ refl sample_fresh, of sample_worker "sample_message 21" ErrLLMTimeout]
    by (auto simp: Let_def in_int32_def maxAttempts_def)
qed

end
