(* ===== verification/TaskService.thy ===== *)
theory TaskService
  imports TaskExecutor
begin

text \<open>
  \<^verbatim>\<open>internal/task/service.go\<close>: the operations of the API on behalf of a tenant: create,
  list, status, cancel, the runs of a job and the events of a run, with the quota checks.
\<close>

section \<open>Inputs\<close>

text \<open>Whether the service has a quota repository and a recorder of rejections.\<close>

record service =
  svc_quota :: bool
  svc_rejections :: bool

record CreateInput =
  ci_Description :: string
  ci_ScheduledAt :: time
  ci_Interval :: duration
  ci_ScheduleType :: Kind
  ci_RecurrenceRule :: string
  ci_LocalTime :: string
  ci_TimezoneID :: string
  ci_OriginalUserText :: string
  ci_SideEffecting :: bool
  ci_IdempotencyScope :: string
  ci_ParentJobID :: "JobID option"
  ci_TriggerOnParentStatus :: Status
  ci_JobType :: JobType

record Identity =
  id_TenantID :: TenantID
  id_UserID :: UserID

definition identity_valid :: "Identity \<Rightarrow> bool" where
  "identity_valid ident \<longleftrightarrow> \<not> id_IsZero (id_TenantID ident) \<and> \<not> id_IsZero (id_UserID ident)"

section \<open>Creating a job\<close>

text \<open>\<open>now\<close> is the clock of the recurring case.\<close>

definition scheduleFromInput ::
  "tz_database \<Rightarrow> time \<Rightarrow> CreateInput \<Rightarrow> (ScheduleSpec \<times> time) result" where
  "scheduleFromInput db now inp =
     (let kind = (if ci_ScheduleType inp = KindOther ''''
                  then (if ci_Interval inp > 0 \<or> ci_RecurrenceRule inp \<noteq> '''' then KindRecurring
                        else KindOneOff)
                  else ci_ScheduleType inp);
          timezoneID = or_default '''' (ci_TimezoneID inp) ''UTC'';
          spec = \<lparr>
            ss_Type = kind,
            ss_ScheduledAtUTC = ci_ScheduledAt inp,
            ss_RecurrenceRule = ci_RecurrenceRule inp,
            ss_LocalTime = ci_LocalTime inp,
            ss_TimezoneID = timezoneID,
            ss_OriginalUserText = ci_OriginalUserText inp,
            ss_LegacyInterval = ci_Interval inp,
            ss_SideEffecting = ci_SideEffecting inp,
            ss_IdempotencyScope = ci_IdempotencyScope inp,
            ss_ParentJobID = ci_ParentJobID inp,
            ss_TriggerOnParentStatus = ci_TriggerOnParentStatus inp,
            ss_JobType = ci_JobType inp\<rparr>
      in if kind = KindOneOff then
           (if IsZero (ci_ScheduledAt inp) then Inl ErrInvalidSchedule
            else Inr (spec, ci_ScheduledAt inp))
         else
           let spec = spec\<lparr>ss_RecurrenceRule :=
                 or_default '''' (ss_RecurrenceRule spec) ''FREQ=DAILY''\<rparr>;
               spec = (if ss_LocalTime spec = '''' \<and> \<not> IsZero (ci_ScheduledAt inp)
                       then spec\<lparr>ss_LocalTime := Format_15_04 (In_loc (ci_ScheduledAt inp) UTC)\<rparr>
                       else spec)
           in case ParseRule (ss_RecurrenceRule spec) of
                Inl e \<Rightarrow> Inl e
              | Inr rule \<Rightarrow>
                  (case LoadLocation db (ss_TimezoneID spec) of
                     None \<Rightarrow> Inl ErrInvalidTimezone
                   | Some tz \<Rightarrow>
                       (case NextOccurrence rule (ss_LocalTime spec) (Some tz) now of
                          Inl e \<Rightarrow> Inl e
                        | Inr (occ, _) \<Rightarrow> Inr (spec\<lparr>ss_ScheduledAtUTC := occ\<rparr>, occ))))"

definition rejectQuota :: "service \<Rightarrow> string \<Rightarrow> ('r, unit result) app" where
  "rejectQuota svc reason = do {
     RecordQuotaRejection (svc_rejections svc) reason;
     State_Monad.return (Inl (ErrorfIs ErrQuotaExceeded reason))
   }"

definition checkQuota :: "'r env \<Rightarrow> service \<Rightarrow> TenantID \<Rightarrow> Kind \<Rightarrow> ('r, unit result) app" where
  "checkQuota E svc tenantID kind =
     (if \<not> svc_quota svc then State_Monad.return (Inr ())
      else do {
        r \<leftarrow> quota_Get E tenantID;
        case r of
          Inl e \<Rightarrow> State_Monad.return (Inl (Errorf ''get tenant quota'' e))
        | Inr quota \<Rightarrow> do {
            now \<leftarrow> time_Now E;
            r \<leftarrow> quota_CountJobsSince E tenantID (now - Hour_ns);
            case r of
              Inl e \<Rightarrow> State_Monad.return (Inl (Errorf ''count jobs for quota'' e))
            | Inr jobs \<Rightarrow>
                if jobs \<ge> MaxJobsPerHour quota then rejectQuota svc ''max_jobs_per_hour''
                else do {
                  r \<leftarrow> quota_CountActiveRuns E tenantID;
                  case r of
                    Inl e \<Rightarrow> State_Monad.return (Inl (Errorf ''count active runs for quota'' e))
                  | Inr activeRuns \<Rightarrow>
                      if activeRuns \<ge> MaxConcurrentRuns quota
                      then rejectQuota svc ''max_concurrent_runs_admission''
                      else if kind \<noteq> KindRecurring then State_Monad.return (Inr ())
                      else do {
                        r \<leftarrow> quota_CountActiveRecurring E tenantID;
                        case r of
                          Inl e \<Rightarrow>
                            State_Monad.return (Inl (Errorf ''count active recurring jobs for quota'' e))
                        | Inr active \<Rightarrow>
                            if active \<ge> MaxActiveRecurring quota
                            then rejectQuota svc ''max_active_recurring_jobs''
                            else State_Monad.return (Inr ())
                      }
                }
          }
      })"

definition Create :: "'r env \<Rightarrow> service \<Rightarrow> Identity \<Rightarrow> CreateInput \<Rightarrow> ('r, JobRun result) app" where
  "Create E svc ident inp =
     (if \<not> identity_valid ident then State_Monad.return (Inl ErrInvalidOwner)
      else do {
        now \<leftarrow> time_Now E;
        case scheduleFromInput (e_tz E) now inp of
          Inl e \<Rightarrow> State_Monad.return (Inl e)
        | Inr (sched, scheduledAt) \<Rightarrow> do {
            now \<leftarrow> time_Now E;
            i \<leftarrow> uuid_NewV7 E;
            case NewJob (e_tz E) now i (id_TenantID ident) (id_UserID ident) (ci_Description inp) sched of
              Inl e \<Rightarrow> State_Monad.return (Inl e)
            | Inr j \<Rightarrow> do {
                r \<leftarrow> checkQuota E svc (id_TenantID ident) (ss_Type sched);
                case r of
                  Inl e \<Rightarrow> State_Monad.return (Inl e)
                | Inr _ \<Rightarrow> do {
                    now \<leftarrow> time_Now E;
                    i \<leftarrow> uuid_NewV7 E;
                    case NewJobRun (e_uuid E) now i (id_TenantID ident) (job_id j) 1 scheduledAt of
                      Inl e \<Rightarrow> State_Monad.return (Inl e)
                    | Inr run \<Rightarrow> do {
                        ev1 \<leftarrow> new_event E run (run_status run) EventJobCreated None;
                        ev2 \<leftarrow> new_event E run (run_status run) EventJobRunCreated None;
                        r \<leftarrow> CreateJobWithRun E j run [ev1, ev2];
                        State_Monad.return (case r of
                            Inl e \<Rightarrow> Inl (Errorf ''create job'' e)
                          | Inr _ \<Rightarrow> Inr (setSchedule j run))
                      }
                  }
              }
          }
      })"

section \<open>Reading\<close>

definition List_runs ::
  "'r env \<Rightarrow> Identity \<Rightarrow> Pagination \<Rightarrow> ('r, (JobRun list \<times> int) result) app" where
  "List_runs E ident p =
     (if \<not> identity_valid ident then State_Monad.return (Inl ErrInvalidOwner)
      else do {
        r \<leftarrow> ListRuns E (id_TenantID ident) p;
        State_Monad.return (wrap_err ''list runs'' r)
      })"

text \<open>The loops of \<^verbatim>\<open>findAllChildren\<close>; \<open>out\<close> also holds what \<^verbatim>\<open>seen\<close> holds.\<close>

definition add_unseen :: "Job \<Rightarrow> Job list \<Rightarrow> Job list" where
  "add_unseen child out = (if job_id child \<in> job_id ` set out then out else out @ [child])"

primrec find_children_loop :: "'r env \<Rightarrow> JobID \<Rightarrow> Status list \<Rightarrow> Job list \<Rightarrow> ('r, Job list result) app" where
  "find_children_loop E parentJobID [] out = State_Monad.return (Inr out)"
| "find_children_loop E parentJobID (trigger # triggers) out = do {
     r \<leftarrow> FindChildren E parentJobID trigger;
     case r of
       Inl e \<Rightarrow> State_Monad.return (Inl (Errorf ''find child jobs'' e))
     | Inr children \<Rightarrow> find_children_loop E parentJobID triggers (fold add_unseen children out)
   }"

definition findAllChildren :: "'r env \<Rightarrow> JobID \<Rightarrow> ('r, Job list result) app" where
  "findAllChildren E parentJobID =
     find_children_loop E parentJobID [StatusSuccess, StatusFailed, StatusCancelled] []"

definition service_Status :: "'r env \<Rightarrow> Identity \<Rightarrow> JobID \<Rightarrow> ('r, JobRun result) app" where
  "service_Status E ident jobID =
     (if \<not> identity_valid ident then State_Monad.return (Inl ErrInvalidOwner)
      else do {
        r \<leftarrow> ListRunsByJob E (id_TenantID ident) jobID (NewPagination 1 0);
        case r of
          Inl e \<Rightarrow> State_Monad.return (Inl (Errorf ''list latest job run'' e))
        | Inr ([], _) \<Rightarrow> State_Monad.return (Inl ErrJobRunNotFound)
        | Inr (run # _, _) \<Rightarrow>
            if run_tenantID run \<noteq> id_TenantID ident then State_Monad.return (Inl ErrJobRunNotFound)
            else do {
              r \<leftarrow> FindJob E jobID;
              case r of
                Inl e \<Rightarrow> State_Monad.return (Inl (Errorf ''find job schedule'' e))
              | Inr job \<Rightarrow>
                  if job_tenantID job \<noteq> id_TenantID ident
                  then State_Monad.return (Inl ErrJobRunNotFound)
                  else do {
                    r \<leftarrow> findAllChildren E jobID;
                    State_Monad.return (case r of
                        Inl e \<Rightarrow> Inl e
                      | Inr children \<Rightarrow> Inr (setChildren children (setSchedule job run)))
                  }
            }
      })"

definition RunsForJob ::
  "'r env \<Rightarrow> Identity \<Rightarrow> JobID \<Rightarrow> Pagination \<Rightarrow> ('r, (JobRun list \<times> int) result) app" where
  "RunsForJob E ident jobID p =
     (if \<not> identity_valid ident then State_Monad.return (Inl ErrInvalidOwner)
      else do {
        r \<leftarrow> ListRunsByJob E (id_TenantID ident) jobID p;
        State_Monad.return (wrap_err ''list runs for job'' r)
      })"

definition EventsForRun ::
  "'r env \<Rightarrow> Identity \<Rightarrow> JobRunID \<Rightarrow> ('r, RunEvent list result) app" where
  "EventsForRun E ident runID =
     (if \<not> identity_valid ident then State_Monad.return (Inl ErrInvalidOwner)
      else do {
        r \<leftarrow> FindRunByID E runID;
        case r of
          Inl e \<Rightarrow> State_Monad.return (Inl e)
        | Inr run \<Rightarrow>
            if run_tenantID run \<noteq> id_TenantID ident then State_Monad.return (Inl ErrJobRunNotFound)
            else do {
              r \<leftarrow> ListEvents E (id_TenantID ident) runID;
              State_Monad.return (wrap_err ''list events'' r)
            }
      })"

section \<open>Cancelling\<close>

definition cancelJobRuns :: "'r env \<Rightarrow> TenantID \<Rightarrow> JobID \<Rightarrow> ('r, JobRun list result) app" where
  "cancelJobRuns E tenantID jobID = do {
     r \<leftarrow> CancelPendingRunsByJob E tenantID jobID;
     case r of
       Inl e \<Rightarrow> State_Monad.return (Inl e)
     | Inr runs \<Rightarrow> do {
         r \<leftarrow> for_each_err runs (\<lambda>run. do {
           ev \<leftarrow> new_event E run StatusCancelled EventJobCancelled None;
           r \<leftarrow> AppendEvent E ev;
           State_Monad.return (wrap_err ''append job cancelled event'' r)
         });
         State_Monad.return (case r of Inl e \<Rightarrow> Inl e | Inr _ \<Rightarrow> Inr runs)
       }
   }"

primrec cancel_children ::
  "'r env \<Rightarrow> TenantID \<Rightarrow> Job list \<Rightarrow> JobRun list \<Rightarrow> ('r, JobRun list result) app" where
  "cancel_children E tenantID [] cancelled = State_Monad.return (Inr cancelled)"
| "cancel_children E tenantID (child # children) cancelled = do {
     r \<leftarrow> cancelJobRuns E tenantID (job_id child);
     case r of
       Inl e \<Rightarrow> State_Monad.return (Inl e)
     | Inr childRuns \<Rightarrow> cancel_children E tenantID children (cancelled @ childRuns)
   }"

definition Cancel :: "'r env \<Rightarrow> Identity \<Rightarrow> JobID \<Rightarrow> ('r, JobRun list result) app" where
  "Cancel E ident jobID =
     (if \<not> identity_valid ident then State_Monad.return (Inl ErrInvalidOwner)
      else do {
        r \<leftarrow> FindJob E jobID;
        case r of
          Inl e \<Rightarrow> State_Monad.return (Inl e)
        | Inr job \<Rightarrow>
            if job_tenantID job \<noteq> id_TenantID ident then State_Monad.return (Inl ErrJobNotFound)
            else do {
              r \<leftarrow> cancelJobRuns E (id_TenantID ident) jobID;
              case r of
                Inl e \<Rightarrow> State_Monad.return (Inl e)
              | Inr cancelled \<Rightarrow> do {
                  r \<leftarrow> findAllChildren E jobID;
                  case r of
                    Inl e \<Rightarrow> State_Monad.return (Inl e)
                  | Inr children \<Rightarrow> cancel_children E (id_TenantID ident) children cancelled
                }
            }
      })"

section \<open>Relations kept by the service\<close>

context db_evolution
begin

lemma find_children_loop: "state_io_rel (on_db R) (find_children_loop E i ts out)"
  by (induction ts arbitrary: out) (auto intro!: reading db_intros)

lemma findAllChildren: "state_io_rel (on_db R) (findAllChildren E i)"
  unfolding findAllChildren_def by (rule find_children_loop)

lemma service_reads:
  "state_io_rel (on_db R) (List_runs E ident p)"
  "state_io_rel (on_db R) (RunsForJob E ident i p)"
  "state_io_rel (on_db R) (EventsForRun E ident i)"
  "state_io_rel (on_db R) (checkQuota E svc t k)"
  unfolding List_runs_def RunsForJob_def EventsForRun_def checkQuota_def rejectQuota_def
  by (intro reading db_intros metrics)+

lemma io_list:
  "state_io_rel (on_db R) f \<Longrightarrow> (\<And>y ys. state_io_rel (on_db R) (g y ys)) \<Longrightarrow>
   state_io_rel (on_db R) (case xs of [] \<Rightarrow> f | y # ys \<Rightarrow> g y ys)"
  by (simp split: list.split)

lemma service_Status: "state_io_rel (on_db R) (service_Status E ident i)"
  unfolding service_Status_def by (intro io_list reading findAllChildren db_intros)

end

context guarded_statements
begin

lemma Create: "state_io_rel (on_db R) (Create E svc ident inp)"
  unfolding Create_def by (intro guarded_intros event service_reads) (erule not_running)

lemma cancelJobRuns: "state_io_rel (on_db R) (cancelJobRuns E t i)"
  unfolding cancelJobRuns_def by (intro guarded_intros event)

lemma cancel_children: "state_io_rel (on_db R) (cancel_children E t cs out)"
  by (induction cs arbitrary: out) (auto intro!: guarded_intros cancelJobRuns)

lemma Cancel: "state_io_rel (on_db R) (Cancel E ident i)"
  unfolding Cancel_def by (intro guarded_intros findAllChildren cancelJobRuns cancel_children)

end

section \<open>What a tenant sees\<close>

definition all_result :: "('a \<Rightarrow> bool) \<Rightarrow> 'a result \<Rightarrow> bool" where
  "all_result P r \<longleftrightarrow> (case r of Inl _ \<Rightarrow> True | Inr a \<Rightarrow> P a)"

definition owned_runs :: "TenantID \<Rightarrow> JobRun list \<times> int \<Rightarrow> bool" where
  "owned_runs t p \<longleftrightarrow> (\<forall>run\<in>set (fst p). run_tenantID run = t)"

definition owned_job_runs :: "TenantID \<Rightarrow> JobID \<Rightarrow> JobRun list \<times> int \<Rightarrow> bool" where
  "owned_job_runs t j p \<longleftrightarrow> (\<forall>run\<in>set (fst p). run_tenantID run = t \<and> run_jobID run = j)"

definition owned_events :: "TenantID \<Rightarrow> JobRunID \<Rightarrow> RunEvent list \<Rightarrow> bool" where
  "owned_events t i es \<longleftrightarrow> (\<forall>e\<in>set es. ev_tenantID e = t \<and> ev_jobRunID e = i)"

lemma db_exec_results:
  "(\<And>d a. fst (f d) = Inr a \<Longrightarrow> P a) \<Longrightarrow> results (db_exec E f) (all_result P)"
  unfolding results_def run_db_exec all_result_def by (simp split: fault.split sum.split)

lemma ListRuns_owned: "results (ListRuns E t p) (all_result (owned_runs t))"
  unfolding ListRuns_def
proof (rule results_bind [OF db_exec_results [where P = "\<lambda>rows. \<forall>row\<in>set rows. rr_tenant_id row = t"]], goal_cases)
  case (1 d rows)
  then show ?case
    by (auto simp: ListJobRuns_def sql_page_def dest!: in_set_takeD in_set_dropD split: if_splits)
next
  case (2 r)
  then show ?case
    by (auto simp: all_result_def owned_runs_def jobRunFromListRow_def
        intro!: results_return results_bind [OF results_any] split: sum.splits)
qed

lemma ListRunsByJob_owned: "results (ListRunsByJob E t j p) (all_result (owned_job_runs t j))"
  unfolding ListRunsByJob_def
proof (rule results_bind [OF db_exec_results [where P = "\<lambda>rows. \<forall>row\<in>set rows. rr_tenant_id row = t \<and> rr_job_id row = j"]], goal_cases)
  case (1 d rows)
  then show ?case
    by (auto simp: ListJobRunsByJob_def sql_page_def dest!: in_set_takeD in_set_dropD split: if_splits)
next
  case (2 r)
  then show ?case
    by (auto simp: all_result_def owned_job_runs_def jobRunFromJobRow_def
        intro!: results_return results_bind [OF results_any] split: sum.splits)
qed

lemma events_from_rows_owned:
  "events_from_rows rows = Inr es \<Longrightarrow> \<forall>row\<in>set rows. er_tenant_id row = t \<and> er_job_run_id row = i \<Longrightarrow> owned_events t i es"
  by (induction rows arbitrary: es)
    (auto simp: owned_events_def runEventFromSqlc_def split: sum.splits)

lemma ListEvents_owned: "results (ListEvents E t i) (all_result (owned_events t i))"
  unfolding ListEvents_def
proof (rule results_bind [OF db_exec_results [where P = "\<lambda>rows. \<forall>row\<in>set rows. er_tenant_id row = t \<and> er_job_run_id row = i"]], goal_cases)
  case (1 d rows)
  then show ?case by (auto simp: ListRunEventsByRun_def)
next
  case (2 r)
  then show ?case
    by (auto simp: all_result_def intro!: results_return events_from_rows_owned split: sum.splits)
qed

lemma List_runs_owned: "results (List_runs E ident p) (all_result (owned_runs (id_TenantID ident)))"
  unfolding List_runs_def
  by (auto intro!: results_return results_bind [OF ListRuns_owned] simp: all_result_def split: sum.splits)

lemma RunsForJob_owned: "results (RunsForJob E ident j p) (all_result (owned_job_runs (id_TenantID ident) j))"
  unfolding RunsForJob_def
  by (auto intro!: results_return results_bind [OF ListRunsByJob_owned] simp: all_result_def split: sum.splits)

lemma EventsForRun_owned: "results (EventsForRun E ident i) (all_result (owned_events (id_TenantID ident) i))"
  unfolding EventsForRun_def
  by (auto intro!: results_return results_bind [OF results_any] results_bind [OF ListEvents_owned]
      simp: all_result_def split: sum.splits)

lemma service_Status_owned:
  "results (service_Status E ident j) (all_result (\<lambda>run. run_tenantID run = id_TenantID ident \<and> run_jobID run = j))"
  unfolding service_Status_def
  by (rule if_split [THEN iffD2], intro conjI impI results_return, simp add: all_result_def)
    (rule results_bind [OF ListRunsByJob_owned],
     auto simp: all_result_def owned_job_runs_def setChildren_def setSchedule_def
         intro!: results_return results_bind [OF results_any] split: sum.split list.split)

text \<open>The status of a job of which the tenant has no run.\<close>

lemma service_Status_missing:
  assumes "reliable E" "identity_valid ident"
    and "\<forall>run\<in>set (d_runs (w_db w)). \<not> (rr_tenant_id run = id_TenantID ident \<and> rr_job_id run = j)"
  shows "fst (run_state (service_Status E ident j) w) = Inl ErrJobRunNotFound"
proof -
  have p: "wrap32 (p_Limit (NewPagination 1 0)) = 1" "wrap32 (p_Offset (NewPagination 1 0)) = 0"
    by (simp_all add: NewPagination_def maxLimit_def in_int32_def)
  have none: "filter (\<lambda>r. rr_tenant_id r = id_TenantID ident \<and> rr_job_id r = j) (d_runs (w_db w)) = []"
    using assms(3) by (auto simp: filter_empty_conv)
  have "run_state (ListRunsByJob E (id_TenantID ident) j (NewPagination 1 0)) w = (Inr ([], 0), w\<lparr>w_tick := Suc (Suc (w_tick w))\<rparr>)"
    using assms(1) none
    by (simp add: ListRunsByJob_def p run_prims ListJobRunsByJob_def CountJobRunsByJob_def sql_page_def)
  then show ?thesis using assms(2) by (simp add: service_Status_def)
qed

section \<open>What a cancellation may change\<close>

definition family :: "database \<Rightarrow> JobID \<Rightarrow> JobID set" where
  "family d j = insert j {jr_id c | c. c \<in> set (d_jobs d) \<and> jr_parent_job_id c = Some j}"

definition cancels :: "TenantID \<Rightarrow> JobID set \<Rightarrow> RunRow \<Rightarrow> RunRow \<Rightarrow> bool" where
  "cancels t J r r' \<longleftrightarrow> r' = r \<or> (\<exists>i\<in>J. cancellable t i r) \<and> rr_status r' = StatusCancelled \<and> run_keeps r r'"

definition cancel_scope :: "TenantID \<Rightarrow> JobID \<Rightarrow> database \<Rightarrow> database \<Rightarrow> bool" where
  "cancel_scope t j d d' \<longleftrightarrow> d_jobs d' = d_jobs d \<and> d_quotas d' = d_quotas d \<and> d_costs d' = d_costs d \<and>
     d_idempotency d' = d_idempotency d \<and> d_users d' = d_users d \<and>
     list_all2 (cancels t (family d j)) (d_runs d) (d_runs d') \<and>
     (\<exists>es. d_events d' = d_events d @ es \<and> (\<forall>e\<in>set es. er_tenant_id e = t \<and> er_event_type e = EventJobCancelled))"

lemma cancels_trans: "cancels t J r r' \<Longrightarrow> cancels t J r' r'' \<Longrightarrow> cancels t J r r''"
  unfolding cancels_def by (metis keeps_trans(1))

lemma cancel_scope_refl: "cancel_scope t j d d"
  by (simp add: cancel_scope_def list_all2_refl cancels_def)

lemma cancel_scope_trans:
  assumes "cancel_scope t j d d'" "cancel_scope t j d' d''"
  shows "cancel_scope t j d d''"
proof -
  have f: "family d' j = family d j" using assms(1) by (simp add: cancel_scope_def family_def)
  note cancels_trans [of t "family d j"]
  then have "list_all2 (cancels t (family d j)) (d_runs d) (d_runs d'')"
    using assms list_all2_trans [of "cancels t (family d j)"] unfolding cancel_scope_def f by blast
  moreover obtain es where "d_events d' = d_events d @ es" and "\<forall>e\<in>set es. er_tenant_id e = t \<and> er_event_type e = EventJobCancelled"
    using assms(1) unfolding cancel_scope_def by blast
  moreover obtain es' where "d_events d'' = d_events d' @ es'" and "\<forall>e\<in>set es'. er_tenant_id e = t \<and> er_event_type e = EventJobCancelled"
    using assms(2) unfolding cancel_scope_def by blast
  ultimately show ?thesis using assms unfolding cancel_scope_def by auto
qed

interpretation scope: db_evolution "cancel_scope t j" for t j
  by unfold_locales (auto intro: cancel_scope_refl cancel_scope_trans)

lemma scope_CancelPending:
  assumes "i \<in> family d j"
  shows "cancel_scope t j d (snd (CancelPendingJobRuns c u t i d))"
  using assms
  by (auto simp: cancel_scope_def CancelPendingJobRuns_def Let_def update_where_def list_all2_map2 cancels_def
      run_keeps_def intro!: list.rel_refl_strong)

lemma scope_event:
  "er_tenant_id e = t \<Longrightarrow> er_event_type e = EventJobCancelled \<Longrightarrow> cancel_scope t j d (snd (InsertRunEvent e d))"
  by (auto simp: cancel_scope_def InsertRunEvent_def list_all2_refl cancels_def)

lemma cancelJobRuns_owned:
  "results (CancelPendingRunsByJob E t i) (all_result (\<lambda>runs. \<forall>run\<in>set runs. run_tenantID run = t))"
  unfolding CancelPendingRunsByJob_def
  by (intro results_bind [OF results_any] results_bind [OF db_exec_results [where P = "\<lambda>rows. \<forall>row\<in>set rows. rr_tenant_id row = t"]])
    (auto simp: CancelPendingJobRuns_def Let_def cancellable_def all_result_def map_result_def
      jobRunFromCancelPendingRow_def intro!: results_return split: sum.splits)

lemma scope_append_events:
  assumes "\<forall>run\<in>set runs. run_tenantID run = t"
  shows "state_io_rel (on_db (cancel_scope t j)) (for_each_err runs (\<lambda>run. do {
     ev \<leftarrow> new_event E run StatusCancelled EventJobCancelled None;
     r \<leftarrow> AppendEvent E ev;
     State_Monad.return (wrap_err ''append job cancelled event'' r) }))"
proof (rule scope.world.io_for_each_err)
  fix run assume "run \<in> set runs"
  then have t: "run_tenantID run = t" using assms by simp
  have ev: "results (new_event E run StatusCancelled EventJobCancelled None)
      (\<lambda>ev. ev_tenantID ev = t \<and> ev_eventType ev = EventJobCancelled)"
    by (simp add: results_def new_event_def run_prims NewRunEvent_def t)
  show "state_io_rel (on_db (cancel_scope t j)) (do {
      ev \<leftarrow> new_event E run StatusCancelled EventJobCancelled None;
      r \<leftarrow> AppendEvent E ev;
      State_Monad.return (wrap_err ''append job cancelled event'' r) })"
    by (rule scope.world.io_bind_results [OF scope.event ev], unfold AppendEvent_def)
      (intro scope.db_intros scope_event, auto simp: runEventToInsertParams_def)
qed

lemma triple_cancelJobRuns:
  assumes "i \<in> family d0 j"
  shows "triple (dbp (cancel_scope t j d0)) (cancelJobRuns E t i) (\<lambda>_. dbp (cancel_scope t j d0))"
proof -
  have rel: "triple (dbp (cancel_scope t j d0)) m (\<lambda>_. dbp (cancel_scope t j d0))"
    if "state_io_rel (on_db (cancel_scope t j)) m" for m
    using that unfolding state_io_rel_def on_db_def triple_def dbp_def by (blast intro: cancel_scope_trans)
  have "triple (dbp (cancel_scope t j d0)) (CancelPendingRunsByJob E t i) (\<lambda>_. dbp (cancel_scope t j d0))"
    unfolding CancelPendingRunsByJob_def
  proof (intro triple_bind [OF triple_prims(2)] triple_bind [OF triple_db_exec] triple_return)
    fix now d assume d: "cancel_scope t j d0 d"
    then have "i \<in> family d j" using assms by (simp add: cancel_scope_def family_def)
    from cancel_scope_trans [OF d scope_CancelPending [OF this]]
    show "cancel_scope t j d0 (snd (CancelPendingJobRuns now now t i d))" .
    then show "cancel_scope t j d0 d \<and> cancel_scope t j d0 (snd (CancelPendingJobRuns now now t i d))" using d by simp
  qed
  then show ?thesis
    unfolding cancelJobRuns_def
  proof (rule triple_bind_results [OF _ cancelJobRuns_owned])
    fix r :: "JobRun list result" assume "all_result (\<lambda>runs. \<forall>run\<in>set runs. run_tenantID run = t) r"
    then show "triple (dbp (cancel_scope t j d0)) (case r of Inl e \<Rightarrow> State_Monad.return (Inl e)
        | Inr runs \<Rightarrow> do {
            r \<leftarrow> for_each_err runs (\<lambda>run. do {
              ev \<leftarrow> new_event E run StatusCancelled EventJobCancelled None;
              r \<leftarrow> AppendEvent E ev;
              State_Monad.return (wrap_err ''append job cancelled event'' r) });
            State_Monad.return (case r of Inl e \<Rightarrow> Inl e | Inr _ \<Rightarrow> Inr runs) }) (\<lambda>_. dbp (cancel_scope t j d0))"
      by (intro rel scope.world.io_sum scope.world.io_bind scope.world.io_return scope_append_events)
        (simp add: all_result_def)
  qed
qed


text \<open>The children of a job that start on one of the given results.\<close>

definition children_of :: "database \<Rightarrow> JobID \<Rightarrow> Status set \<Rightarrow> JobID set" where
  "children_of d j T = {jr_id c | c. c \<in> set (d_jobs d) \<and> jr_parent_job_id c = Some j \<and>
     (\<exists>s\<in>T. jr_trigger_on_parent_status c = Some s)}"

lemma children_of_family: "children_of d j T \<subseteq> family d j"
  by (auto simp: children_of_def family_def)

lemma fold_add_unseen: "job_id ` set (fold add_unseen cs out) = job_id ` set out \<union> job_id ` set cs"
  by (induction cs arbitrary: out) (auto simp: add_unseen_def)

lemma run_FindChildren:
  assumes "run_state (FindChildren E j s) w = (Inr cs, w')" "s \<noteq> StatusOther ''''"
  shows "w_db w' = w_db w \<and> job_id ` set cs = children_of (w_db w) j {s}"
  using assms
  by (auto simp: FindChildren_def run_prims FindChildJobs_def children_of_def map_result_def jobFromChildRow_def
      rehydrateJob_def statusPtr_def image_iff split: fault.splits) blast

lemma run_find_children_loop:
  assumes "run_state (find_children_loop E j ts out) w = (Inr cs, w')" "StatusOther '''' \<notin> set ts"
  shows "w_db w' = w_db w \<and> job_id ` set cs = job_id ` set out \<union> children_of (w_db w) j (set ts)"
  using assms
proof (induction ts arbitrary: out w)
  case Nil
  then show ?case by (simp add: children_of_def)
next
  case (Cons s ts)
  obtain r w1 where r: "run_state (FindChildren E j s) w = (r, w1)" by fastforce
  with Cons.prems obtain cs1 where cs1: "r = Inr cs1"
    and rest: "run_state (find_children_loop E j ts (fold add_unseen cs1 out)) w1 = (Inr cs, w')"
    by (cases r) auto
  have "w_db w1 = w_db w" "job_id ` set cs1 = children_of (w_db w) j {s}"
    using run_FindChildren [OF r [unfolded cs1]] Cons.prems(2) by auto
  moreover have "children_of d j (set (s # ts)) = children_of d j {s} \<union> children_of d j (set ts)" for d
    by (auto simp: children_of_def)
  ultimately show ?case using Cons.IH [OF rest] Cons.prems(2) by (simp add: fold_add_unseen Un_assoc)
qed

abbreviation endings :: "Status set" where
  "endings \<equiv> {StatusSuccess, StatusFailed, StatusCancelled}"

lemma run_findAllChildren:
  assumes "run_state (findAllChildren E j) w = (Inr cs, w')"
  shows "w_db w' = w_db w" "job_id ` set cs = children_of (w_db w) j endings"
  using run_find_children_loop [OF assms [unfolded findAllChildren_def]] by simp_all

text \<open>What a cancellation of the jobs \<open>J\<close> that returned the runs \<open>out\<close> did.\<close>

definition cancelled_in :: "TenantID \<Rightarrow> JobID set \<Rightarrow> RunRow \<Rightarrow> RunRow \<Rightarrow> bool" where
  "cancelled_in t J r r' \<longleftrightarrow> (if \<exists>i\<in>J. cancellable t i r then rr_status r' = StatusCancelled \<and> run_keeps r r' else r' = r)"

definition cancel_done :: "TenantID \<Rightarrow> JobID set \<Rightarrow> database \<Rightarrow> JobRun list \<Rightarrow> database \<Rightarrow> bool" where
  "cancel_done t J d out d' \<longleftrightarrow> d_jobs d' = d_jobs d \<and>
     list_all2 (cancelled_in t J) (d_runs d) (d_runs d') \<and>
     run_id ` set out = rr_id ` {r \<in> set (d_runs d). \<exists>i\<in>J. cancellable t i r} \<and>
     (\<exists>es. d_events d' = d_events d @ es \<and> map er_job_run_id es = map run_id out \<and>
        (\<forall>e\<in>set es. er_tenant_id e = t \<and> er_event_type e = EventJobCancelled))"

lemma cancel_done_none: "cancel_done t {} d [] d"
  by (simp add: cancel_done_def list_all2_refl cancelled_in_def)

lemma cancelled_in_trans:
  "cancelled_in t J r r' \<Longrightarrow> cancelled_in t K r' r'' \<Longrightarrow> cancelled_in t (J \<union> K) r r''"
  using keeps_trans(1) [of r r' r'']
  by (auto simp: cancelled_in_def cancellable_def split: if_splits)

lemma cancellable_later:
  assumes "list_all2 (cancelled_in t J) rs rs'"
  shows "rr_id ` {r \<in> set rs. \<exists>i\<in>J \<union> K. cancellable t i r} =
    rr_id ` {r \<in> set rs. \<exists>i\<in>J. cancellable t i r} \<union> rr_id ` {r \<in> set rs'. \<exists>i\<in>K. cancellable t i r}"
  by (rule image_filter_pairs, rule list_all2_mono [OF assms])
    (auto simp: cancelled_in_def cancellable_def run_keeps_def split: if_splits)

lemma cancel_done_trans:
  assumes "cancel_done t J d out d'" "cancel_done t K d' out' d''"
  shows "cancel_done t (J \<union> K) d (out @ out') d''"
proof -
  have r: "list_all2 (cancelled_in t J) (d_runs d) (d_runs d')" "list_all2 (cancelled_in t K) (d_runs d') (d_runs d'')"
    using assms by (simp_all add: cancel_done_def)
  have "list_all2 (cancelled_in t (J \<union> K)) (d_runs d) (d_runs d'')"
    by (rule list_all2_trans [OF _ r]) (rule cancelled_in_trans)
  moreover have "run_id ` set (out @ out') = rr_id ` {r \<in> set (d_runs d). \<exists>i\<in>J \<union> K. cancellable t i r}"
    using assms cancellable_later [OF r(1), of K] by (simp add: cancel_done_def image_Un)
  moreover obtain es where es: "d_events d' = d_events d @ es" "map er_job_run_id es = map run_id out"
    "\<forall>e\<in>set es. er_tenant_id e = t \<and> er_event_type e = EventJobCancelled"
    using assms(1) unfolding cancel_done_def by blast
  moreover obtain es' where "d_events d'' = d_events d' @ es'" "map er_job_run_id es' = map run_id out'"
    "\<forall>e\<in>set es'. er_tenant_id e = t \<and> er_event_type e = EventJobCancelled"
    using assms(2) unfolding cancel_done_def by blast
  ultimately show ?thesis
    unfolding cancel_done_def using assms [unfolded cancel_done_def]
    by (intro conjI exI [of _ "es @ es'"]) (simp_all add: ball_Un)
qed

lemma run_AppendEvent_ok:
  "run_state (AppendEvent E ev) w = (Inr u, w') \<Longrightarrow>
   w_db w' = (w_db w)\<lparr>d_events := d_events (w_db w) @ [runEventToInsertParams ev]\<rparr>"
  by (auto simp: AppendEvent_def run_prims wrap_err_Inr InsertRunEvent_Inr split: fault.splits)

lemma run_append_cancelled:
  assumes "run_state (for_each_err runs (\<lambda>run. do {
      ev \<leftarrow> new_event E run StatusCancelled EventJobCancelled None;
      r \<leftarrow> AppendEvent E ev;
      State_Monad.return (wrap_err ''append job cancelled event'' r) })) w = (Inr u, w')"
    and "\<forall>run\<in>set runs. run_tenantID run = t"
  shows "\<exists>es. w_db w' = (w_db w)\<lparr>d_events := d_events (w_db w) @ es\<rparr> \<and> map er_job_run_id es = map run_id runs \<and>
     (\<forall>e\<in>set es. er_tenant_id e = t \<and> er_event_type e = EventJobCancelled)"
  using assms
proof (induction runs arbitrary: w)
  case (Cons run runs)
  let ?body = "\<lambda>run. do {
      ev \<leftarrow> new_event E run StatusCancelled EventJobCancelled None;
      r \<leftarrow> AppendEvent E ev;
      State_Monad.return (wrap_err ''append job cancelled event'' r) }"
  obtain r w1 where r: "run_state (?body run) w = (r, w1)" by fastforce
  have "run_state (case r of Inl e \<Rightarrow> State_Monad.return (Inl e) | Inr _ \<Rightarrow> for_each_err runs ?body) w1 = (Inr u, w')"
    using Cons.prems(1) r by (simp only: for_each_err.simps run_state_bind prod.case)
  then have rest: "r = Inr ()" "run_state (for_each_err runs ?body) w1 = (Inr u, w')"
    by (cases r; simp)+
  obtain ev w0 where ev: "run_state (new_event E run StatusCancelled EventJobCancelled None) w = (ev, w0)" by fastforce
  then have "w_db w0 = w_db w" and e: "er_job_run_id (runEventToInsertParams ev) = run_id run"
    "er_tenant_id (runEventToInsertParams ev) = t" "er_event_type (runEventToInsertParams ev) = EventJobCancelled"
    using Cons.prems(2) by (auto simp: new_event_def run_prims NewRunEvent_def runEventToInsertParams_def)
  obtain r' where "run_state (AppendEvent E ev) w0 = (r', w1)" "wrap_err ''append job cancelled event'' r' = r"
    using r by (auto simp: ev split: prod.splits)
  then have db: "w_db w1 = (w_db w)\<lparr>d_events := d_events (w_db w) @ [runEventToInsertParams ev]\<rparr>"
    using run_AppendEvent_ok [of E ev w0 "()" w1] \<open>w_db w0 = w_db w\<close> rest(1) by (simp add: wrap_err_Inr)
  obtain es where "w_db w' = (w_db w1)\<lparr>d_events := d_events (w_db w1) @ es\<rparr>" "map er_job_run_id es = map run_id runs"
     "\<forall>e\<in>set es. er_tenant_id e = t \<and> er_event_type e = EventJobCancelled"
    using Cons.IH [OF rest(2)] Cons.prems(2) by auto
  with e db show ?case by (intro exI [of _ "runEventToInsertParams ev # es"]) simp
qed simp

lemma cancel_rows_done:
  "list_all2 (cancelled_in t {i}) (d_runs d) (d_runs (snd (CancelPendingJobRuns c u t i d)))"
  by (auto simp: CancelPendingJobRuns_def Let_def update_where_def list_all2_map2 cancelled_in_def
      run_keeps_def intro!: list.rel_refl_strong)

lemma cancelJobRuns_done:
  assumes "run_state (cancelJobRuns E t i) w = (Inr out, w')"
  shows "cancel_done t {i} (w_db w) out (w_db w')"
proof -
  let ?f = "\<lambda>now. CancelPendingJobRuns now now t i (w_db w)"
  obtain r w1 where r: "run_state (CancelPendingRunsByJob E t i) w = (r, w1)" by fastforce
  with assms have ok: "r = Inr out" by (cases r) (auto simp: cancelJobRuns_def split: prod.splits sum.splits)
  from r [unfolded ok] obtain now where c: "w_db w1 = snd (?f now)" and
    out: "map_result (map jobRunFromCancelPendingRow) (fst (?f now)) = Inr out"
    by (auto simp: CancelPendingRunsByJob_def run_prims wrap_err_Inr map_result_def split: fault.splits)
  from out have own: "\<forall>run\<in>set out. run_tenantID run = t"
    and ids: "run_id ` set out = rr_id ` {r \<in> set (d_runs (w_db w)). cancellable t i r}"
    by (auto simp: CancelPendingJobRuns_def Let_def map_result_def jobRunFromCancelPendingRow_def
        cancellable_def image_image)
  from assms obtain u where "run_state (for_each_err out (\<lambda>run. do {
      ev \<leftarrow> new_event E run StatusCancelled EventJobCancelled None;
      r \<leftarrow> AppendEvent E ev;
      State_Monad.return (wrap_err ''append job cancelled event'' r) })) w1 = (Inr u, w')"
    by (auto simp: cancelJobRuns_def r ok split: prod.splits sum.splits)
  from run_append_cancelled [OF this own] obtain es where
    "w_db w' = (w_db w1)\<lparr>d_events := d_events (w_db w1) @ es\<rparr>" "map er_job_run_id es = map run_id out"
    "\<forall>e\<in>set es. er_tenant_id e = t \<and> er_event_type e = EventJobCancelled" by blast
  then show ?thesis
    using cancel_rows_done [of t i "w_db w" now now] ids
    by (simp add: cancel_done_def c CancelPendingJobRuns_def Let_def)
qed

lemma cancel_children_done:
  assumes "run_state (cancel_children E t cs out) w = (Inr res, w')"
    and "cancel_done t J d out (w_db w)"
  shows "cancel_done t (J \<union> job_id ` set cs) d res (w_db w')"
  using assms
proof (induction cs arbitrary: J out w)
  case (Cons c cs)
  obtain r w1 where r: "run_state (cancelJobRuns E t (job_id c)) w = (r, w1)" by fastforce
  with Cons.prems(1) obtain cr where cr: "r = Inr cr" "run_state (cancel_children E t cs (out @ cr)) w1 = (Inr res, w')"
    by (cases r) auto
  from Cons.IH [OF cr(2) cancel_done_trans [OF Cons.prems(2) cancelJobRuns_done [OF r [unfolded cr(1)]]]]
  show ?case by simp
qed simp

lemma Cancel_done:
  assumes "run_state (Cancel E ident j) w = (Inr out, w')"
  shows "cancel_done (id_TenantID ident) (insert j (children_of (w_db w) j endings)) (w_db w) out (w_db w')"
proof -
  let ?t = "id_TenantID ident"
  obtain r1 w1 where 1: "run_state (FindJob E j) w = (r1, w1)" by fastforce
  obtain r2 w2 where 2: "run_state (cancelJobRuns E ?t j) w1 = (r2, w2)" by fastforce
  obtain r3 w3 where 3: "run_state (findAllChildren E j) w2 = (r3, w3)" by fastforce
  from assms obtain out1 cs where ok: "r2 = Inr out1" "r3 = Inr cs"
    and last: "run_state (cancel_children E ?t cs out1) w3 = (Inr out, w')"
    by (auto simp: Cancel_def 1 2 3 split: if_splits sum.splits)
  have w1: "w_db w1 = w_db w" using 1 by (auto simp: FindJob_def run_prims reads split: fault.splits)
  have fst: "cancel_done ?t {j} (w_db w) out1 (w_db w3)"
    using cancelJobRuns_done [OF 2 [unfolded ok(1)]] run_findAllChildren(1) [OF 3 [unfolded ok(2)]] w1 by simp
  moreover have "job_id ` set cs = children_of (w_db w) j endings"
    using run_findAllChildren [OF 3 [unfolded ok(2)]] fst by (simp add: cancel_done_def children_of_def)
  ultimately show ?thesis using cancel_children_done [OF last] by fastforce
qed

lemma cancelJobRuns_scope:
  "i \<in> family (w_db w) j \<Longrightarrow> cancel_scope t j (w_db w) (w_db (snd (run_state (cancelJobRuns E t i) w)))"
  using triple_cancelJobRuns [of i "w_db w" j t E] by (simp add: triple_def dbp_def cancel_scope_refl)

lemma cancel_children_scope:
  assumes "cancel_scope t j d (w_db w)" "job_id ` set cs \<subseteq> family d j"
  shows "cancel_scope t j d (w_db (snd (run_state (cancel_children E t cs out) w)))"
  using assms
proof (induction cs arbitrary: out w)
  case (Cons c cs)
  obtain r w1 where r: "run_state (cancelJobRuns E t (job_id c)) w = (r, w1)" by fastforce
  have "family (w_db w) j = family d j" using Cons.prems(1) by (simp add: cancel_scope_def family_def)
  then have "cancel_scope t j d (w_db w1)"
    using cancel_scope_trans [OF Cons.prems(1) cancelJobRuns_scope [of "job_id c" w j t E]] Cons.prems(2) r by simp
  then show ?case using Cons.IH Cons.prems(2) by (simp add: r split: sum.split)
qed simp

definition owns_job :: "database \<Rightarrow> TenantID \<Rightarrow> JobID \<Rightarrow> bool" where
  "owns_job d t j \<longleftrightarrow> (\<exists>row\<in>set (d_jobs d). jr_id row = j \<and> jr_tenant_id row = t)"

lemma FindJob_owner:
  assumes "run_state (FindJob E j) w = (r, w')"
  shows "w_db w' = w_db w \<and> (\<forall>job. r = Inr job \<longrightarrow> owns_job (w_db w) (job_tenantID job) j)"
  using assms
  by (auto simp: FindJob_def run_prims reads GetJobByID_def owns_job_def jobFromSqlc_def rehydrateJob_def
      split: fault.splits option.splits if_splits dest!: find_SomeD)

lemma Cancel_scope:
  assumes "run_state (Cancel E ident j) w = (r, w')"
  shows "cancel_scope (id_TenantID ident) j (w_db w) (w_db w')"
    and "\<not> owns_job (w_db w) (id_TenantID ident) j \<Longrightarrow> w_db w' = w_db w \<and> (\<exists>e. r = Inl e)"
proof -
  let ?t = "id_TenantID ident" and ?d = "w_db w"
  obtain r1 w1 where 1: "run_state (FindJob E j) w = (r1, w1)" by fastforce
  obtain r2 w2 where 2: "run_state (cancelJobRuns E ?t j) w1 = (r2, w2)" by fastforce
  obtain r3 w3 where 3: "run_state (findAllChildren E j) w2 = (r3, w3)" by fastforce
  note w1 = FindJob_owner [OF 1]
  have "cancel_scope ?t j ?d (w_db w2)"
    using cancelJobRuns_scope [of j w1 j ?t E] 2 w1 by (simp add: family_def)
  moreover have w3: "w_db w3 = w_db w2"
    using untouched.findAllChildren [of E j] 3 by (auto simp: state_io_rel_def on_db_def dest: spec [of _ w2])
  moreover have "job_id ` set cs \<subseteq> family ?d j" if "r3 = Inr cs" for cs
    using run_findAllChildren(2) [OF 3 [unfolded that]] calculation(1) children_of_family [of "w_db w2" j endings]
    by (auto simp: cancel_scope_def family_def)
  ultimately have "cancel_scope ?t j ?d (w_db (snd (run_state (cancel_children E ?t cs out) w3)))" if "r3 = Inr cs" for cs out
    using that by (simp add: cancel_children_scope)
  then show "cancel_scope ?t j ?d (w_db w')"
    using assms w1 \<open>cancel_scope ?t j ?d (w_db w2)\<close> w3
    by (auto simp: Cancel_def 1 2 3 cancel_scope_refl split: if_splits sum.splits) (metis snd_conv)
  assume "\<not> owns_job ?d ?t j"
  then show "w_db w' = w_db w \<and> (\<exists>e. r = Inl e)"
    using assms w1 by (auto simp: Cancel_def 1 2 3 split: if_splits sum.splits)
qed

section \<open>Admission\<close>

definition admitted :: "'r env \<Rightarrow> database \<Rightarrow> TenantID \<Rightarrow> time \<Rightarrow> Kind \<Rightarrow> bool" where
  "admitted E d t since k \<longleftrightarrow>
     int (length (filter (\<lambda>r. jr_tenant_id r = t \<and> since \<le> jr_created_at r) (d_jobs d)))
       < MaxJobsPerHour (tenant_quota E d t) \<and>
     (\<exists>n < MaxConcurrentRuns (tenant_quota E d t). CountActiveRuns t d = (Inr n, d)) \<and>
     (k = KindRecurring \<longrightarrow>
        (\<exists>n < MaxActiveRecurring (tenant_quota E d t). CountActiveRecurringJobs t d = (Inr n, d)))"


lemma run_counts:
  "run_state (quota_CountJobsSince E t since) w = (Inr n, w1) \<Longrightarrow>
   n = int (length (filter (\<lambda>r. jr_tenant_id r = t \<and> since \<le> jr_created_at r) (d_jobs (w_db w))))"
  "run_state (quota_CountActiveRuns E t) w = (Inr n, w1) \<Longrightarrow> CountActiveRuns t (w_db w) = (Inr n, w_db w)"
  "run_state (quota_CountActiveRecurring E t) w = (Inr n, w1) \<Longrightarrow> CountActiveRecurringJobs t (w_db w) = (Inr n, w_db w)"
  by (auto simp: quota_CountJobsSince_def quota_CountActiveRuns_def quota_CountActiveRecurring_def run_prims
      CountJobsCreatedSince_def CountActiveRuns_def CountActiveRecurringJobs_def wrap_err_Inr split: fault.splits)

lemma checkQuota_admits:
  assumes run: "run_state (checkQuota E svc t k) w = (Inr u, w')" and "honest E" "svc_quota svc"
  shows "\<exists>n. admitted E (w_db w) t (e_now E n - Hour_ns) k"
proof -
  obtain r1 w1 where 1: "run_state (quota_Get E t) w = (r1, w1)" by fastforce
  let ?w = "w1\<lparr>w_tick := Suc (w_tick w1)\<rparr>" and ?since = "e_now E (w_tick w1) - Hour_ns"
  obtain r2 w2 where 2: "run_state (quota_CountJobsSince E t ?since) ?w = (r2, w2)" by fastforce
  obtain r3 w3 where 3: "run_state (quota_CountActiveRuns E t) w2 = (r3, w3)" by fastforce
  obtain r4 w4 where 4: "run_state (quota_CountActiveRecurring E t) w3 = (r4, w4)" by fastforce
  have db: "w_db w1 = w_db w" "w_db w2 = w_db w" "w_db w3 = w_db w"
    using untouched_run [OF untouched.reading(9) 1] untouched_run [OF untouched.reading(10) 2]
      untouched_run [OF untouched.reading(12) 3] by simp_all
  from run assms(3) obtain q jobs active where r: "r1 = Inr q" "r2 = Inr jobs" "r3 = Inr active"
    and lim: "jobs < MaxJobsPerHour q" "active < MaxConcurrentRuns q"
    and rec: "k = KindRecurring \<longrightarrow> (\<exists>n. r4 = Inr n \<and> n < MaxActiveRecurring q)"
    by (cases r1; cases r2; cases r3; cases r4)
      (auto simp: checkQuota_def rejectQuota_def 1 2 3 4 run_prims split: if_splits prod.splits)
  have q: "q = tenant_quota E (w_db w) t"
    by (rule quota_Get_result [OF 1 [unfolded r(1)] assms(2)])
  have "admitted E (w_db w) t ?since k"
    using lim rec run_counts(1) [OF 2 [unfolded r(2)]] run_counts(2) [OF 3 [unfolded r(3)]] run_counts(3) [of E t w3 _ w4] 4
    unfolding admitted_def q [symmetric] by (auto simp: db)
  then show ?thesis by blast
qed

definition created :: "Identity \<Rightarrow> Job \<Rightarrow> JobRun \<Rightarrow> RunEvent list \<Rightarrow> bool" where
  "created ident j run evs \<longleftrightarrow>
     job_tenantID j = id_TenantID ident \<and> job_userID j = id_UserID ident \<and>
     run_tenantID run = id_TenantID ident \<and> run_jobID run = job_id j \<and> run_sequence run = 1 \<and>
     run_status run = StatusPending \<and> run_attempts run = 0 \<and> run_timeBucket run = bucketOf (run_scheduledAt run) \<and>
     map ev_eventType evs = [EventJobCreated, EventJobRunCreated] \<and>
     (\<forall>e\<in>set evs. ev_tenantID e = id_TenantID ident \<and> ev_jobID e = job_id j \<and> ev_jobRunID e = run_id run)"

lemma run_Create:
  assumes run: "run_state (Create E svc ident inp) w = (r, w')"
  shows "(w_db w' = w_db w \<and> (\<exists>e. r = Inl e)) \<or>
    (\<exists>j jr evs w1 w2. w_db w' = create_db j jr evs (w_db w) \<and> created ident j jr evs \<and>
       (\<forall>out. r = Inr out \<longrightarrow> out = setSchedule j jr) \<and>
       (reliable E \<and> w_db w' \<noteq> w_db w \<longrightarrow> r = Inr (setSchedule j jr)) \<and> w_db w1 = w_db w \<and>
       run_state (checkQuota E svc (id_TenantID ident) (job_kind j)) w1 = (Inr (), w2))"
proof -
  let ?t = "id_TenantID ident" and ?u = "id_UserID ident"
  let ?now1 = "e_now E (w_tick w)" and ?now2 = "e_now E (Suc (w_tick w))" and ?i = "e_NewV7 E (Suc (Suc (w_tick w)))"
  let ?w1 = "w\<lparr>w_tick := Suc (Suc (Suc (w_tick w)))\<rparr>"
  show ?thesis
  proof (cases "\<not> identity_valid ident \<or> (\<exists>e. scheduleFromInput (e_tz E) ?now1 inp = Inl e)")
    case True
    then show ?thesis using run by (cases "identity_valid ident") (auto simp: Create_def run_prims)
  next
    case False
    then obtain sched due where sched: "scheduleFromInput (e_tz E) ?now1 inp = Inr (sched, due)"
      and v: "identity_valid ident" by (metis old.sum.exhaust surj_pair)
    let ?new = "NewJob (e_tz E) ?now2 ?i ?t ?u (ci_Description inp) sched"
    obtain rq w2 where q: "run_state (checkQuota E svc ?t (ss_Type sched)) ?w1 = (rq, w2)" by fastforce
    have w2: "w_db w2 = w_db w" using untouched_run [OF untouched.service_reads(4) q] by simp
    show ?thesis
    proof (cases "(\<exists>e. ?new = Inl e) \<or> (\<exists>e. rq = Inl e)")
      case True
      then show ?thesis using run v w2 by (auto simp: Create_def run_prims sched q split: sum.splits)
    next
      case False
      then obtain j where j: "?new = Inr j" and rq: "rq = Inr ()" by (metis old.sum.exhaust old.unit.exhaust)
      let ?run = "NewJobRun (e_uuid E) (e_now E (w_tick w2)) (e_NewV7 E (Suc (w_tick w2))) ?t (job_id j) 1 due"
      let ?w3 = "w2\<lparr>w_tick := Suc (Suc (w_tick w2))\<rparr>"
      show ?thesis
      proof (cases ?run)
        case (Inl e)
        show ?thesis using run v w2 by (auto simp: Create_def run_prims sched q j rq Inl)
      next
        case (Inr jr)
        obtain ev1 w4 where 1: "run_state (new_event E jr (run_status jr) EventJobCreated None) ?w3 = (ev1, w4)" by fastforce
        obtain ev2 w5 where 2: "run_state (new_event E jr (run_status jr) EventJobRunCreated None) w4 = (ev2, w5)" by fastforce
        obtain r6 where 3: "run_state (CreateJobWithRun E j jr [ev1, ev2]) w5 = (r6, w')"
          and r: "r = (case r6 of Inl e \<Rightarrow> Inl (Errorf ''create job'' e) | Inr _ \<Rightarrow> Inr (setSchedule j jr))"
          using run v by (auto simp: Create_def run_prims sched q j rq Inr 1 2 split: prod.splits)
        have w5: "w_db w5 = w_db w"
          using untouched_run [OF untouched.event 1] untouched_run [OF untouched.event 2] w2 by simp
        have "created ident j jr [ev1, ev2]"
          using NewJobRun_ok [OF Inr] NewJob_fields [OF j] 1 2
          by (auto simp: created_def new_event_def run_prims NewRunEvent_def)
        moreover have "job_kind j = ss_Type sched" using NewJob_fields [OF j] by simp
        ultimately have "\<exists>w1 w2. created ident j jr [ev1, ev2] \<and> w_db w1 = w_db w \<and>
            run_state (checkQuota E svc ?t (job_kind j)) w1 = (Inr (), w2)"
          using q rq by (intro exI [of _ ?w1] exI [of _ w2]) simp
        then show ?thesis
          using run_CreateJobWithRun [OF 3] CreateJobWithRun_reliable [of E j jr "[ev1, ev2]" w5 _ w'] 3 r w5
          by (cases r6) (simp; blast)+
      qed
    qed
  qed
qed

section \<open>Properties\<close>

text \<open>
  C7 (safety): a cancellation changes only what it may, whatever call fails on the way. If the
  job is not the tenant's, nothing. Otherwise only runs of the tenant that belong to the job or to
  one of its child jobs, and only from pending, queued or retry to cancelled; the only other
  change is cancellation events of the tenant. When it returns without an error, every such run of
  the job and of its children is cancelled, exactly those are returned, and each has its event.
\<close>

theorem Cancel_contract:
  "let t = id_TenantID ident; d = w_db w; (r, w') = run_state (Cancel E ident j) w in
     (if owns_job d t j then cancel_scope t j d (w_db w')
      else w_db w' = d \<and> (\<exists>e. r = Inl e)) \<and>
     (case r of Inl _ \<Rightarrow> True
      | Inr out \<Rightarrow> cancel_done t (insert j (children_of d j endings)) d out (w_db w'))"
proof -
  obtain r w' where run: "run_state (Cancel E ident j) w = (r, w')" by fastforce
  show ?thesis
    using Cancel_scope [OF run] Cancel_done [of E ident j w _ w'] run by (auto simp: Let_def split: sum.split)
qed


text \<open>
  C8 (invariant): creating a job stores the tenant's job, its first pending run, filed under its
  hour, and the two events, or it fails and stores nothing (or its reply was lost); with a quota
  repository it stores them only while the tenant is below its limits of jobs in the last hour, of
  active runs and, for a recurring job, of active recurring jobs.
\<close>

theorem Create_contract:
  assumes "honest E"
  shows "let (r, w') = run_state (Create E svc ident inp) w in
    (w_db w' = w_db w \<and> (\<exists>e. r = Inl e)) \<or>
    (\<exists>j run evs n. w_db w' = create_db j run evs (w_db w) \<and> created ident j run evs \<and>
       (svc_quota svc \<longrightarrow> admitted E (w_db w) (id_TenantID ident) (e_now E n - Hour_ns) (job_kind j)) \<and>
       (\<forall>out. r = Inr out \<longrightarrow> out = setSchedule j run))"
proof -
  obtain r w' where run: "run_state (Create E svc ident inp) w = (r, w')" by fastforce
  have "\<exists>n. svc_quota svc \<longrightarrow> admitted E (w_db w) t (e_now E n - Hour_ns) k"
    if "run_state (checkQuota E svc t k) w1 = (Inr (), w2)" "w_db w1 = w_db w" for t k w1 w2
    using checkQuota_admits [OF that(1) assms] that(2) by auto
  with run_Create [OF run] show ?thesis unfolding run prod.case Let_def by meson
qed

definition sample_ident :: Identity where
  "sample_ident = \<lparr>id_TenantID = 1, id_UserID = 7\<rparr>"

definition sample_input :: CreateInput where
  "sample_input = \<lparr>ci_Description = ''report'', ci_ScheduledAt = 1767225600 * Second, ci_Interval = 0,
     ci_ScheduleType = KindOneOff, ci_RecurrenceRule = '''', ci_LocalTime = '''', ci_TimezoneID = '''',
     ci_OriginalUserText = '''', ci_SideEffecting = False, ci_IdempotencyScope = '''', ci_ParentJobID = None,
     ci_TriggerOnParentStatus = StatusOther '''', ci_JobType = JobTypeOther ''''\<rparr>"

theorem Create_contract_witness:
  "honest sample_env \<and> (let svc = \<lparr>svc_quota = True, svc_rejections = True\<rparr>;
      (r, w') = run_state (Create sample_env svc sample_ident sample_input) (start_world empty_db) in
     length (d_runs (w_db w')) = 1 \<and>
     (\<exists>j run evs n. w_db w' = create_db j run evs empty_db \<and> created sample_ident j run evs \<and>
        admitted sample_env empty_db 1 (e_now sample_env n - Hour_ns) (job_kind j)))"
proof -
  have h: "honest sample_env" by (simp add: honest_def sample_env_def)
  let ?run = "run_state (Create sample_env \<lparr>svc_quota = True, svc_rejections = True\<rparr> sample_ident sample_input)
    (start_world empty_db)"
  obtain r w' where run: "?run = (r, w')" by fastforce
  have n: "length (d_runs (w_db (snd ?run))) = 1" by code_simp
  have "w_db (start_world empty_db) = empty_db" "id_TenantID sample_ident = 1" "d_runs empty_db = []"
    by (simp_all add: start_world_def sample_ident_def empty_db_def)
  then show ?thesis
    using h n Create_contract [OF h, of "\<lparr>svc_quota = True, svc_rejections = True\<rparr>" sample_ident sample_input "start_world empty_db"]
    unfolding Let_def run prod.case by auto
qed

end
