(* ===== verification/AuthTokens.thy ===== *)
theory AuthTokens
  imports Sample
begin

text \<open>
  \<^verbatim>\<open>internal/platform/auth\<close>: issuing and verifying the bearer tokens, and the middleware
  that lets a request through. The package \<^verbatim>\<open>golang-jwt\<close> is the parameter
  \<open>jwt_pkg\<close>: signing, parsing with a function that chooses the key, and the truncation of a
  time to a numeric date. The last field, which no definition uses, says when a text is a token
  with given claims, signed by a method under a key; the hypotheses \<open>jwt_sound\<close> and
  \<open>jwt_complete\<close> are what the package documents of it.
\<close>

section \<open>The token package\<close>

datatype signing_method = SigningMethodHMAC string | SigningMethodOther string

record RegisteredClaims =
  cl_Issuer :: string
  cl_Subject :: string
  cl_IssuedAt :: time
  cl_ExpiresAt :: time

record jwt_pkg =
  jwt_NewNumericDate :: "time \<Rightarrow> time"
  jwt_SignedString :: "signing_method \<Rightarrow> RegisteredClaims \<Rightarrow> string \<Rightarrow> string result"
  jwt_ParseWithClaims :: "time \<Rightarrow> string \<Rightarrow> (signing_method \<Rightarrow> string result) \<Rightarrow>
    (RegisteredClaims \<times> bool) result"
  jwt_signed :: "signing_method \<Rightarrow> RegisteredClaims \<Rightarrow> string \<Rightarrow> string \<Rightarrow> bool"

text \<open>
  A token is parsed without an error only if its signature is valid under the key chosen for its
  method and it has not expired.
\<close>

definition jwt_sound :: "jwt_pkg \<Rightarrow> bool" where
  "jwt_sound J \<longleftrightarrow> (\<forall>now raw key_of c v. jwt_ParseWithClaims J now raw key_of = Inr (c, v) \<longrightarrow>
     now < cl_ExpiresAt c \<and> (\<exists>m key. key_of m = Inr key \<and> jwt_signed J m c key raw))"

text \<open>
  What is signed is a token, and a token is parsed until it expires when the function chooses the
  key it was signed with; an expired one is refused with \<^verbatim>\<open>jwt.ErrTokenExpired\<close>. A
  numeric date has the precision of a second.
\<close>

definition jwt_complete :: "jwt_pkg \<Rightarrow> bool" where
  "jwt_complete J \<longleftrightarrow>
     (\<forall>m c key raw. jwt_SignedString J m c key = Inr raw \<longrightarrow> jwt_signed J m c key raw) \<and>
     (\<forall>now raw key_of m c key. jwt_signed J m c key raw \<and> key_of m = Inr key \<longrightarrow>
        (if now < cl_ExpiresAt c then jwt_ParseWithClaims J now raw key_of = Inr (c, True)
         else \<exists>e. jwt_ParseWithClaims J now raw key_of = Inl e \<and> err_is e jwt_ErrTokenExpired)) \<and>
     (\<forall>t. t - Second < jwt_NewNumericDate J t \<and> jwt_NewNumericDate J t \<le> t)"

section \<open>The manager (jwt.go)\<close>

record Manager =
  m_secret :: string
  m_issuer :: string
  m_ttl :: duration

definition Issue :: "'r env \<Rightarrow> jwt_pkg \<Rightarrow> Manager \<Rightarrow> string \<Rightarrow> ('r, string result) app" where
  "Issue E J m subject = do {
     now \<leftarrow> time_Now E;
     let c = \<lparr>cl_Issuer = m_issuer m, cl_Subject = subject,
              cl_IssuedAt = jwt_NewNumericDate J now,
              cl_ExpiresAt = jwt_NewNumericDate J (now + m_ttl m)\<rparr>;
     State_Monad.return
       (wrap_err ''sign token'' (jwt_SignedString J (SigningMethodHMAC ''HS256'') c (m_secret m)))
   }"

definition key_func :: "Manager \<Rightarrow> signing_method \<Rightarrow> string result" where
  "key_func m method = (case method of
       SigningMethodHMAC _ \<Rightarrow> Inr (m_secret m)
     | SigningMethodOther _ \<Rightarrow> Inl ErrInvalidToken)"

definition Verify :: "jwt_pkg \<Rightarrow> Manager \<Rightarrow> time \<Rightarrow> string \<Rightarrow> RegisteredClaims result" where
  "Verify J m now raw = (case jwt_ParseWithClaims J now raw (key_func m) of
       Inl e \<Rightarrow> if err_is e jwt_ErrTokenExpired then Inl ErrExpiredToken else Inl ErrInvalidToken
     | Inr (c, valid) \<Rightarrow> if \<not> valid then Inl ErrInvalidToken else Inr c)"

section \<open>The middleware (middleware.go)\<close>

text \<open>
  A response is a status and either the error text of \<^verbatim>\<open>gin.H{"error": ...}\<close> or a body.
  The gin context is what the middleware stored in it, if it ran.
\<close>

record 'b http_response =
  rs_status :: int
  rs_body :: "string + 'b"

abbreviation http_error :: "int \<Rightarrow> string \<Rightarrow> 'b http_response" where
  "http_error s msg \<equiv> \<lparr>rs_status = s, rs_body = Inl msg\<rparr>"

abbreviation http_ok :: "int \<Rightarrow> 'b \<Rightarrow> 'b http_response" where
  "http_ok s b \<equiv> \<lparr>rs_status = s, rs_body = Inr b\<rparr>"

definition bearerPrefix :: string where "bearerPrefix = ''Bearer ''"

text \<open>\<open>handler\<close> is the rest of the chain, run with the context's user id set.\<close>

definition Middleware :: "'r env \<Rightarrow> jwt_pkg \<Rightarrow> Manager \<Rightarrow> string \<Rightarrow>
    (string option \<Rightarrow> ('r, 'b http_response) app) \<Rightarrow> ('r, 'b http_response) app" where
  "Middleware E J m header handler =
     (if \<not> HasPrefix header bearerPrefix
      then State_Monad.return (http_error 401 ''missing bearer token'')
      else do {
        now \<leftarrow> time_Now E;
        case Verify J m now (TrimPrefix header bearerPrefix) of
          Inl _ \<Rightarrow> State_Monad.return (http_error 401 ''invalid token'')
        | Inr claims \<Rightarrow> handler (Some (cl_Subject claims))
      })"

definition UserIDFromContext :: "string option \<Rightarrow> string" where
  "UserIDFromContext c = (case c of None \<Rightarrow> '''' | Some s \<Rightarrow> s)"

context db_evolution
begin

lemma Middleware:
  "(\<And>c. state_io_rel (on_db R) (handler c)) \<Longrightarrow> state_io_rel (on_db R) (Middleware E J m header handler)"
  unfolding Middleware_def by (intro db_intros)

end

section \<open>Lemmas\<close>

lemma Verify_ok:
  assumes "jwt_sound J" "Verify J m now raw = Inr c"
  shows "now < cl_ExpiresAt c \<and> (\<exists>h. jwt_signed J (SigningMethodHMAC h) c (m_secret m) raw)"
proof -
  from assms(2) have "jwt_ParseWithClaims J now raw (key_func m) = Inr (c, True)"
    by (auto simp: Verify_def split: sum.splits if_splits)
  with assms(1) obtain s key where "now < cl_ExpiresAt c" "key_func m s = Inr key" "jwt_signed J s c key raw"
    unfolding jwt_sound_def by blast
  then show ?thesis by (auto simp: key_func_def split: signing_method.splits)
qed

lemma run_Issue:
  assumes "run_state (Issue E J m s) w = (Inr raw, w')" "jwt_complete J"
  shows "jwt_signed J (SigningMethodHMAC ''HS256'')
    \<lparr>cl_Issuer = m_issuer m, cl_Subject = s, cl_IssuedAt = jwt_NewNumericDate J (e_now E (w_tick w)),
     cl_ExpiresAt = jwt_NewNumericDate J (e_now E (w_tick w) + m_ttl m)\<rparr> (m_secret m) raw"
  using assms by (auto simp: Issue_def run_prims wrap_err_Inr jwt_complete_def Let_def)

lemma Verify_signed:
  assumes "jwt_complete J" "jwt_signed J (SigningMethodHMAC h) c (m_secret m) raw"
  shows "Verify J m now raw = (if now < cl_ExpiresAt c then Inr c else Inl ErrExpiredToken)"
proof -
  have "key_func m (SigningMethodHMAC h) = Inr (m_secret m)" by (simp add: key_func_def)
  with assms have "if now < cl_ExpiresAt c then jwt_ParseWithClaims J now raw (key_func m) = Inr (c, True)
      else \<exists>e. jwt_ParseWithClaims J now raw (key_func m) = Inl e \<and> err_is e jwt_ErrTokenExpired"
    unfolding jwt_complete_def by blast
  then show ?thesis by (auto simp: Verify_def split: if_splits)
qed

lemma HasPrefix_iff: "HasPrefix s p \<longleftrightarrow> (\<exists>r. s = p @ r)"
  unfolding HasPrefix_def by (metis append_take_drop_id append_eq_conv_conj)

section \<open>A concrete token package\<close>

text \<open>
  For the examples: a token is the text of its fields with the key in place of the signature. Every
  character is escaped, so the fields can be read back.
\<close>

definition escape_field :: "string \<Rightarrow> string" where
  "escape_field s = concat (map (\<lambda>c. [CHR ''x'', c]) s) @ '';''"

fun read_fields :: "string \<Rightarrow> string list" where
  "read_fields [] = []"
| "read_fields [c] = [[]]"
| "read_fields (x # c # s) =
     (if x = CHR '';'' then [] # read_fields (c # s)
      else (case read_fields s of [] \<Rightarrow> [[c]] | f # fs \<Rightarrow> (c # f) # fs))"

lemma read_escape: "read_fields (escape_field f @ s) = f # read_fields s"
proof (induction f)
  case Nil
  show ?case by (cases s) (simp_all add: escape_field_def)
next
  case (Cons c f)
  then show ?case by (simp add: escape_field_def)
qed

definition int_field :: "int \<Rightarrow> string" where
  "int_field i = (if i < 0 then CHR ''-'' else CHR ''+'') # nat_digits (nat \<bar>i\<bar>)"

definition field_int :: "string \<Rightarrow> int" where
  "field_int s = (if hd s = CHR ''-'' then - int (digits_val (tl s)) else int (digits_val (tl s)))"

lemma field_int_field [simp]: "field_int (int_field i) = i"
  by (simp add: int_field_def field_int_def digits_val_nat_digits)

definition method_field :: "signing_method \<Rightarrow> string" where
  "method_field m = (case m of SigningMethodHMAC h \<Rightarrow> CHR ''H'' # h | SigningMethodOther h \<Rightarrow> CHR ''O'' # h)"

definition field_method :: "string \<Rightarrow> signing_method" where
  "field_method s = (if hd s = CHR ''H'' then SigningMethodHMAC (tl s) else SigningMethodOther (tl s))"

lemma field_method_field [simp]: "field_method (method_field m) = m"
  by (cases m) (simp_all add: method_field_def field_method_def)

definition token_text :: "signing_method \<Rightarrow> RegisteredClaims \<Rightarrow> string \<Rightarrow> string" where
  "token_text m c key = concat (map escape_field
     [method_field m, cl_Issuer c, cl_Subject c, int_field (cl_IssuedAt c), int_field (cl_ExpiresAt c), key])"

definition read_token :: "string \<Rightarrow> (signing_method \<times> RegisteredClaims \<times> string) option" where
  "read_token s = (case read_fields s of
       [m, iss, sub, iat, ex, key] \<Rightarrow> Some (field_method m,
         \<lparr>cl_Issuer = iss, cl_Subject = sub, cl_IssuedAt = field_int iat, cl_ExpiresAt = field_int ex\<rparr>, key)
     | _ \<Rightarrow> None)"

lemma read_token_text [simp]: "read_token (token_text m c key) = Some (m, c, key)"
proof -
  have "read_fields (escape_field f) = [f]" for f using read_escape [of f "[]"] by simp
  then show ?thesis by (simp add: token_text_def read_token_def read_escape)
qed

definition sample_jwt :: jwt_pkg where
  "sample_jwt = \<lparr>
     jwt_NewNumericDate = (\<lambda>t. t div Second * Second),
     jwt_SignedString = (\<lambda>m c key. Inr (token_text m c key)),
     jwt_ParseWithClaims = (\<lambda>now raw key_of. case read_token raw of
         None \<Rightarrow> Inl (ErrText ''token is malformed'')
       | Some (m, c, key) \<Rightarrow> (case key_of m of
             Inl e \<Rightarrow> Inl (Errorf ''token is unverifiable'' e)
           | Inr k \<Rightarrow> if k \<noteq> key then Inl (ErrText ''token signature is invalid'')
                     else if now < cl_ExpiresAt c then Inr (c, True)
                     else Inl (Errorf ''token has invalid claims'' jwt_ErrTokenExpired))),
     jwt_signed = (\<lambda>m c key raw. read_token raw = Some (m, c, key))\<rparr>"

lemma sample_jwt_ok: "jwt_sound sample_jwt" "jwt_complete sample_jwt"
proof -
  show "jwt_sound sample_jwt"
    by (auto simp: jwt_sound_def sample_jwt_def split: option.splits sum.splits if_splits)
  have "t - Second < t div Second * Second \<and> t div Second * Second \<le> t" for t :: int
  proof -
    have "0 < Second" by (simp add: Second_def)
    from pos_mod_bound [OF this, of t] pos_mod_sign [OF this, of t] minus_mod_eq_div_mult [of t Second]
    show ?thesis by linarith
  qed
  then show "jwt_complete sample_jwt"
    by (auto simp: jwt_complete_def sample_jwt_def)
qed

definition sample_manager :: Manager where
  "sample_manager = \<lparr>m_secret = ''local-dev-secret'', m_issuer = ''go-chatgpt-tasks'', m_ttl = 24 * Hour_ns\<rparr>"

section \<open>Properties\<close>

text \<open>
  C33 (roundtrip): a token verifies to the subject it was issued for until it expires and is
  refused as expired afterwards: within the time to live, up to the second a numeric date drops,
  the claims carry the subject and the issuer; from the end of the time to live on the error is
  \<^verbatim>\<open>ErrExpiredToken\<close>.
\<close>

theorem Issue_Verify:
  assumes "jwt_complete J" "run_state (Issue E J m subject) w = (Inr raw, w')"
  shows "if now \<le> e_now E (w_tick w) + m_ttl m - Second
     then (\<exists>c. Verify J m now raw = Inr c \<and> cl_Subject c = subject \<and> cl_Issuer c = m_issuer m)
     else e_now E (w_tick w) + m_ttl m \<le> now \<longrightarrow> Verify J m now raw = Inl ErrExpiredToken"
proof -
  let ?t = "e_now E (w_tick w) + m_ttl m"
  have "?t - Second < jwt_NewNumericDate J ?t" "jwt_NewNumericDate J ?t \<le> ?t"
    using assms(1) unfolding jwt_complete_def by blast+
  then show ?thesis
    using Verify_signed [OF assms(1) run_Issue [OF assms(2,1)], of now] by auto
qed

theorem Issue_Verify_witness:
  "\<exists>raw w'. run_state (Issue sample_env sample_jwt sample_manager ''7'') (start_world empty_db) = (Inr raw, w') \<and>
     (\<exists>c. Verify sample_jwt sample_manager (1767225700 * Second) raw = Inr c \<and> cl_Subject c = ''7'') \<and>
     Verify sample_jwt sample_manager (1767312000 * Second) raw = Inl ErrExpiredToken"
proof -
  obtain raw w' where run: "run_state (Issue sample_env sample_jwt sample_manager ''7'') (start_world empty_db) = (Inr raw, w')"
    by (simp add: Issue_def run_prims sample_jwt_def Let_def)
  have t: "e_now sample_env (w_tick (start_world empty_db)) + m_ttl sample_manager = 1767312000 * Second"
    by (simp add: sample_env_sel start_world_def sample_manager_def Hour_ns_def Second_def)
  from Issue_Verify [OF sample_jwt_ok(2) run, of "1767225700 * Second"]
    Issue_Verify [OF sample_jwt_ok(2) run, of "1767312000 * Second"] run
  show ?thesis unfolding t by (auto simp: Second_def)
qed

text \<open>
  A handler behind the middleware runs only for a token that was signed with the
  manager's secret by an HMAC method and has not expired, and it runs with that token's subject;
  every other request gets status 401 and changes nothing in the database or the queue.
\<close>

theorem Middleware_guard:
  assumes "jwt_sound J" "run_state (Middleware E J m header handler) w = (r, w')"
  shows "(rs_status r = 401 \<and> w_db w' = w_db w \<and> w_redis w' = w_redis w) \<or>
    (\<exists>raw h c. header = bearerPrefix @ raw \<and> jwt_signed J (SigningMethodHMAC h) c (m_secret m) raw \<and>
       e_now E (w_tick w) < cl_ExpiresAt c \<and>
       run_state (handler (Some (cl_Subject c))) (w\<lparr>w_tick := Suc (w_tick w)\<rparr>) = (r, w'))"
proof (cases "HasPrefix header bearerPrefix")
  case True
  then obtain raw where raw: "header = bearerPrefix @ raw" by (auto simp: HasPrefix_iff)
  show ?thesis
  proof (cases "Verify J m (e_now E (w_tick w)) raw")
    case (Inl e)
    then show ?thesis using assms(2) by (auto simp: Middleware_def raw run_prims)
  next
    case (Inr c)
    then have "run_state (handler (Some (cl_Subject c))) (w\<lparr>w_tick := Suc (w_tick w)\<rparr>) = (r, w')"
      using assms(2) by (simp add: Middleware_def raw run_prims)
    then show ?thesis using Verify_ok [OF assms(1) Inr] raw by blast
  qed
qed (use assms(2) in \<open>auto simp: Middleware_def\<close>)

theorem Middleware_guard_witness:
  "jwt_sound sample_jwt \<and>
   (let raw = token_text (SigningMethodOther ''none'')
       \<lparr>cl_Issuer = '''', cl_Subject = ''7'', cl_IssuedAt = 0, cl_ExpiresAt = 2000000000 * Second\<rparr> '''';
     (r, w') = run_state (Middleware sample_env sample_jwt sample_manager (bearerPrefix @ raw)
       (\<lambda>c. State_Monad.return (http_ok 200 (UserIDFromContext c)))) (start_world empty_db)
    in rs_status r = 401 \<and> w_db w' = empty_db)"
proof -
  let ?raw = "token_text (SigningMethodOther ''none'')
       \<lparr>cl_Issuer = '''', cl_Subject = ''7'', cl_IssuedAt = 0, cl_ExpiresAt = 2000000000 * Second\<rparr> ''''"
  let ?h = "\<lambda>c. State_Monad.return (http_ok 200 (UserIDFromContext c))"
  obtain r w' where run: "run_state (Middleware sample_env sample_jwt sample_manager (bearerPrefix @ ?raw) ?h)
      (start_world empty_db) = (r, w')" by fastforce
  have "\<not> (\<exists>h c. jwt_signed sample_jwt (SigningMethodHMAC h) c (m_secret sample_manager) ?raw)"
    by (simp add: sample_jwt_def)
  with Middleware_guard [OF sample_jwt_ok(1) run] show ?thesis
    using sample_jwt_ok(1) unfolding Let_def run prod.case by (auto simp: start_world_def)
qed

end
