(* ===== verification/GoRFC3339.thy ===== *)
theory GoRFC3339
  imports SharedKernel
begin

text \<open>
  The layout \<^verbatim>\<open>time.RFC3339\<close> of Go's \<^verbatim>\<open>time\<close> package, which the HTTP and MCP
  interfaces read and print: \<^verbatim>\<open>Format\<close> and \<^verbatim>\<open>Parse\<close> with what the parser
  accepts beyond the standard (an hour of one digit, a fraction of a second after a period or a comma,
  offsets of up to 24:60). A location enters through the offset in force at the instant.
\<close>

section \<open>Printing\<close>

definition Second_of :: "int \<Rightarrow> int" where "Second_of l = l mod 60"

text \<open>\<^verbatim>\<open>appendInt\<close>: at least \<open>width\<close> digits.\<close>

definition append_int :: "int \<Rightarrow> nat \<Rightarrow> string" where
  "append_int x width =
     (let ds = nat_digits (nat \<bar>x\<bar>)
      in (if x < 0 then ''-'' else '''') @ replicate (width - length ds) (CHR ''0'') @ ds)"

text \<open>The wall clock \<open>l\<close> at the offset \<open>off\<close>, as \<^verbatim>\<open>appendFormatRFC3339\<close> prints it.\<close>

definition format_zone :: "int \<Rightarrow> string" where
  "format_zone off =
     (if off = 0 then ''Z''
      else let zone = (if off < 0 then - (- off div 60) else off div 60);
               z = \<bar>zone\<bar>
           in (if zone < 0 then ''-'' else ''+'') @ append_int (z div 60) 2 @ '':'' @ append_int (z mod 60) 2)"

definition format_wall :: "int \<Rightarrow> string" where
  "format_wall l =
     append_int (Year l) 4 @ ''-'' @ two_digits (Month l) @ ''-'' @ two_digits (Day l) @ ''T'' @
     two_digits (Hour l) @ '':'' @ two_digits (Minute l) @ '':'' @ two_digits (Second_of l)"

definition Format_RFC3339 :: "Location \<Rightarrow> time \<Rightarrow> string" where
  "Format_RFC3339 loc t = format_wall (In_loc t loc) @ format_zone (zone_offset loc (Unix t))"

section \<open>Parsing\<close>

definition daysIn :: "int \<Rightarrow> int \<Rightarrow> int" where
  "daysIn m y =
     (if m = 2 \<and> leap y then 29 else [31, 28, 31, 30, 31, 30, 31, 31, 30, 31, 30, 31] ! nat (m - 1))"

fun parse_year :: "string \<Rightarrow> (int \<times> string) option" where
  "parse_year (a # b # c # d # s) =
     (if list_all is_digit [a, b, c, d] then Some (int (digits_val [a, b, c, d]), s) else None)"
| "parse_year s = None"

definition skip :: "char \<Rightarrow> string \<Rightarrow> string option" where
  "skip c s = (case s of [] \<Rightarrow> None | x # r \<Rightarrow> if x = c then Some r else None)"

text \<open>A fraction of at most nine digits counts; more are read and dropped.\<close>

definition parseNanoseconds :: "string \<Rightarrow> int" where
  "parseNanoseconds ds = (let d = take 9 ds in int (digits_val d) * 10 ^ (9 - length d))"

definition parse_fraction :: "string \<Rightarrow> int \<times> string" where
  "parse_fraction s = (case s of
       c # d # _ \<Rightarrow>
         if (c = CHR ''.'' \<or> c = CHR '','') \<and> is_digit d
         then (parseNanoseconds (takeWhile is_digit (tl s)), dropWhile is_digit (tl s))
         else (0, s)
     | _ \<Rightarrow> (0, s))"

definition parse_zone :: "string \<Rightarrow> (int \<times> string) option" where
  "parse_zone s = (case s of
       [] \<Rightarrow> None
     | sign # r \<Rightarrow>
         if sign = CHR ''Z'' then Some (0, r)
         else (case r of
             h1 # h2 # colon # m1 # m2 # r \<Rightarrow>
               if colon \<noteq> CHR '':'' then None
               else (case (getnum [h1, h2] True, getnum [m1, m2] True) of
                   (Some (hr, _), Some (mm, _)) \<Rightarrow>
                     if hr > 24 \<or> mm > 60 then None
                     else if sign = CHR ''+'' then Some ((hr * 60 + mm) * 60, r)
                     else if sign = CHR ''-'' then Some (- ((hr * 60 + mm) * 60), r)
                     else None
                 | _ \<Rightarrow> None)
           | _ \<Rightarrow> None))"

definition Parse_RFC3339 :: "string \<Rightarrow> time option" where
  "Parse_RFC3339 s = do {
     (y, s) \<leftarrow> parse_year s;
     s \<leftarrow> skip (CHR ''-'') s;
     (m, s) \<leftarrow> getnum s True;
     s \<leftarrow> (if m \<le> 0 \<or> 12 < m then None else skip (CHR ''-'') s);
     (d, s) \<leftarrow> getnum s True;
     s \<leftarrow> skip (CHR ''T'') s;
     (hh, s) \<leftarrow> getnum s False;
     s \<leftarrow> (if \<not> hh < 24 then None else skip (CHR '':'') s);
     (mm, s) \<leftarrow> getnum s True;
     s \<leftarrow> (if \<not> mm < 60 then None else skip (CHR '':'') s);
     (ss, s) \<leftarrow> getnum s True;
     (ns, s) \<leftarrow> (if \<not> ss < 60 then None else Some (parse_fraction s));
     (off, s) \<leftarrow> parse_zone s;
     if s \<noteq> [] \<or> d < 1 \<or> daysIn m y < d then None
     else Some ((date_secs y m d hh mm + ss - off) * Second + ns)
   }"

section \<open>Round trip\<close>

lemma min_div:
  fixes x b :: int
  assumes "0 \<le> x" "0 < b"
  shows "0 \<le> min 3 (x div b) \<and> min 3 (x div b) \<le> 3 \<and> 0 \<le> x - b * min 3 (x div b) \<and>
    (min 3 (x div b) < 3 \<longrightarrow> x - b * min 3 (x div b) < b)"
proof (cases "3 \<le> x div b")
  case True
  have "b * 3 \<le> b * (x div b)" using assms True by (simp add: mult_le_cancel_left)
  also have "\<dots> \<le> x" using assms minus_mod_eq_mult_div [of x b] by (metis diff_le_eq le_add_same_cancel1 pos_mod_sign)
  finally show ?thesis using True by simp
next
  case False
  then show ?thesis using assms by (simp add: minus_mult_div_eq_mod pos_imp_zdiv_nonneg_iff)
qed

lemma year_yday_bounds:
  assumes "year_yday d = (y, k)"
  shows "0 \<le> k \<and> k < (if leap y then 366 else 365)"
proof -
  define q where "q = d div 146097"
  define d1 where "d1 = d mod 146097"
  define c where "c = min 3 (d1 div 36524)"
  define d2 where "d2 = d1 - 36524 * c"
  define f where "f = d2 div 1461"
  define d3 where "d3 = d2 - 1461 * f"
  define g where "g = min 3 (d3 div 365)"
  have d1: "0 \<le> d1" "d1 < 146097" by (simp_all add: d1_def)
  have c: "0 \<le> c" "c \<le> 3" "0 \<le> d2" "c < 3 \<Longrightarrow> d2 < 36524"
    using min_div [of d1 36524] d1 unfolding c_def d2_def by simp_all
  then have "c < 3 \<or> c = 3" by linarith
  then have d2: "0 \<le> d2" "d2 < 36525" using c d1 by (auto simp: d2_def)
  have "d3 = d2 mod 1461" by (simp add: d3_def f_def minus_mult_div_eq_mod)
  then have d3: "0 \<le> d3" "d3 < 1461" "d2 = 1461 * f + d3" by (simp_all add: d3_def)
  then have f: "0 \<le> f" "f \<le> 24" "f = 24 \<Longrightarrow> c < 3 \<Longrightarrow> d3 < 1460" using d2 c by linarith+
  have g: "0 \<le> g" "g \<le> 3" "0 \<le> d3 - 365 * g" "g < 3 \<Longrightarrow> d3 - 365 * g < 365"
    using min_div [of d3 365] d3 unfolding g_def by simp_all
  then have g366: "d3 - 365 * g < 366" using d3 by linarith
  have "year_yday d = (400 * q + 100 * c + 4 * f + g + 1, d3 - 365 * g)"
    unfolding year_yday_def Let_def q_def d1_def c_def d2_def f_def d3_def g_def by (rule refl)
  with assms have y: "y = 400 * q + 100 * c + 4 * f + g + 1" and k: "k = d3 - 365 * g" by simp_all
  have "y = (g + 1) + (100 * q + 25 * c + f) * 4" "y = (4 * f + g + 1) + (4 * q + c) * 100"
    "y = (100 * c + 4 * f + g + 1) + q * 400"
    using y by simp_all
  then have m: "y mod 4 = (g + 1) mod 4" "y mod 100 = (4 * f + g + 1) mod 100"
    "y mod 400 = (100 * c + 4 * f + g + 1) mod 400"
    by (metis mod_mult_self1)+
  have "leap y" if "k = 365"
  proof -
    have g3: "g = 3" "d3 = 1460" using that g g366 d3 k by linarith+
    then have "c = 3 \<or> f < 24" using f c by force
    moreover have "y mod 100 \<noteq> 0" if "f < 24" using m(2) that f g3 by simp
    ultimately show ?thesis using m g3 f by (cases "f = 24") (auto simp: leap_def)
  qed
  then show ?thesis using g g366 k by (cases "k = 365") auto
qed


definition month_days_ok :: "bool \<Rightarrow> int \<Rightarrow> bool" where
  "month_days_ok lp k =
     (let m = month_of_yday lp k; d = k - days_before_month lp m + 1
      in 1 \<le> m \<and> m \<le> 12 \<and> 1 \<le> d \<and>
         d \<le> (if m = 2 \<and> lp then 29 else [31, 28, 31, 30, 31, 30, 31, 31, 30, 31, 30, 31] ! nat (m - 1)))"

lemma month_days: "0 \<le> k \<Longrightarrow> k < (if lp then 366 else 365) \<Longrightarrow> month_days_ok lp k"
proof (cases lp)
  case True
  assume "0 \<le> k" "k < (if lp then 366 else 365)"
  with True consider "0 \<le> k" "k < 31" | "31 \<le> k" "k < 60" | "60 \<le> k" "k < 91" | "91 \<le> k" "k < 121" | "121 \<le> k" "k < 152" | "152 \<le> k" "k < 182" | "182 \<le> k" "k < 213" | "213 \<le> k" "k < 244" | "244 \<le> k" "k < 274" | "274 \<le> k" "k < 305" | "305 \<le> k" "k < 335" | "335 \<le> k" "k < 366"
    by (atomize_elim, simp, linarith)
  then show ?thesis
    by cases (simp_all add: True month_days_ok_def month_of_yday_def days_before_month_def)
next
  case False
  assume "0 \<le> k" "k < (if lp then 366 else 365)"
  with False consider "0 \<le> k" "k < 31" | "31 \<le> k" "k < 59" | "59 \<le> k" "k < 90" | "90 \<le> k" "k < 120" | "120 \<le> k" "k < 151" | "151 \<le> k" "k < 181" | "181 \<le> k" "k < 212" | "212 \<le> k" "k < 243" | "243 \<le> k" "k < 273" | "273 \<le> k" "k < 304" | "304 \<le> k" "k < 334" | "334 \<le> k" "k < 365"
    by (atomize_elim, simp, linarith)
  then show ?thesis
    by cases (simp_all add: False month_days_ok_def month_of_yday_def days_before_month_def)
qed

lemma civil_bounds:
  "1 \<le> Month l" "Month l \<le> 12" "1 \<le> Day l" "Day l \<le> daysIn (Month l) (Year l)"
proof -
  have "year_yday (wall_day l + 719162) = (Year l, yday0 l)" by (simp add: Year_def yday0_def)
  from month_days [of "yday0 l" "leap (Year l)"] year_yday_bounds [OF this]
  have "month_days_ok (leap (Year l)) (yday0 l)" by simp
  then show "1 \<le> Month l" "Month l \<le> 12" "1 \<le> Day l" "Day l \<le> daysIn (Month l) (Year l)"
    by (simp_all add: month_days_ok_def Let_def Month_def Day_def daysIn_def)
qed

lemma Second_of_bounds: "0 \<le> Second_of l" "Second_of l < 60"
  by (simp_all add: Second_of_def)

lemma daysIn_le: "1 \<le> m \<Longrightarrow> m \<le> 12 \<Longrightarrow> daysIn m y \<le> 31"
proof -
  assume "1 \<le> m" "m \<le> 12"
  then have "nat (m - 1) \<in> set [0..<12]" by auto
  moreover have "\<forall>n\<in>set [0..<12]. [31, 28, 31, 30, 31, 30, 31, 31, 30, 31, 30, 31] ! n \<le> (31::int)" by code_simp
  ultimately show ?thesis by (auto simp: daysIn_def)
qed

lemma wall_split: "date_secs (Year l) (Month l) (Day l) (Hour l) (Minute l) + Second_of l = l"
proof -
  have "l mod 86400 mod 3600 = l mod 3600" "l mod 3600 mod 60 = l mod 60"
    by (simp_all add: mod_mod_cancel)
  then have "l div 86400 * 86400 + (l mod 86400) div 3600 * 3600 + (l mod 3600) div 60 * 60 + l mod 60 = l"
    using div_mult_mod_eq [of l 86400] div_mult_mod_eq [of "l mod 86400" 3600] div_mult_mod_eq [of "l mod 3600" 60]
    by linarith
  then show ?thesis
    using date_secs_wall [of l 0 "Hour l" "Minute l"] by (simp add: wall_day_def Hour_def Minute_def Second_of_def)
qed

lemma append_int_2: "0 \<le> n \<Longrightarrow> n < 100 \<Longrightarrow> append_int n 2 = two_digits n"
proof -
  assume n: "0 \<le> n" "n < 100"
  have "nat_digits k = (if k < 10 then [digit_char k] else [digit_char (k div 10), digit_char (k mod 10)])" if "k < 100" for k
    using that nat_digits.simps [of k] nat_digits.simps [of "k div 10"] by auto
  moreover have "digit_char 0 = CHR ''0''" by code_simp
  ultimately show ?thesis
    using n by (simp add: append_int_def two_digits_def Let_def nat_less_iff)
qed

lemma length_nat_digits: "n < 10 ^ k \<Longrightarrow> 0 < k \<Longrightarrow> length (nat_digits n) \<le> k"
proof (induction n arbitrary: k rule: nat_digits.induct)
  case (1 n)
  show ?case
  proof (cases "n < 10")
    case False
    then obtain j where j: "k = Suc j" "0 < j" using 1(2) by (cases k; cases "k - 1") auto
    then have "n div 10 < 10 ^ j" using 1(2) by (simp add: div_less_iff_less_mult mult.commute)
    with 1(1) [OF False this j(2)] j False show ?thesis by (subst nat_digits.simps) simp
  qed (use 1 in \<open>subst nat_digits.simps, simp\<close>)
qed

lemma digits_val_zeros: "digits_val (replicate k (CHR ''0'') @ ds) = digits_val ds"
  by (induction k) (simp_all add: digits_val_def digit_val_def byte_def)

lemma parse_year_append: 
  assumes "0 \<le> y" "y < 10000"
  shows "parse_year (append_int y 4 @ s) = Some (y, s)"
proof -
  let ?ds = "append_int y 4"
  have "length ?ds = 4"
    using assms length_nat_digits [of "nat y" 4] by (simp add: append_int_def Let_def nat_less_iff)
  then obtain a b c d where ds: "?ds = [a, b, c, d]"
    by (auto simp: numeral_eq_Suc length_Suc_conv)
  have "list_all is_digit ?ds"
    using assms nat_digits_are_digits [of "nat y"]
    by (auto simp: append_int_def Let_def list_all_iff is_digit_def byte_def)
  moreover have "digits_val ?ds = nat y"
    using assms by (simp add: append_int_def Let_def digits_val_zeros digits_val_nat_digits)
  ultimately show ?thesis using assms unfolding ds by simp
qed

lemma parse_zone_format:
  assumes "off mod 60 = 0" "\<bar>off\<bar> \<le> 86400"
  shows "parse_zone (format_zone off) = Some (off, [])"
proof (cases "off = 0")
  case False
  define z where "z = \<bar>off\<bar> div 60"
  have z: "\<bar>off\<bar> = z * 60" "0 < z" "z \<le> 1440" using assms False by (auto simp: z_def abs_if)
  have two: "append_int (z div 60) 2 = two_digits (z div 60)" "append_int (z mod 60) 2 = two_digits (z mod 60)"
    using z by (auto intro!: append_int_2)
  have fmt: "format_zone off = (if off < 0 then ''-'' else ''+'') @ two_digits (z div 60) @ '':'' @ two_digits (z mod 60)"
  proof -
    have "(if off < 0 then - (- off div 60) else off div 60) = (if off < 0 then - z else z)" by (simp add: z_def)
    then show ?thesis using z(2) False two by (simp add: format_zone_def Let_def)
  qed
  have "getnum (two_digits (z div 60) @ []) True = Some (z div 60, [])" "getnum (two_digits (z mod 60) @ []) True = Some (z mod 60, [])"
    by (rule getnum_two_digits; use z in auto)+
  moreover have "(z div 60 * 60 + z mod 60) * 60 = \<bar>off\<bar>" using z by simp
  moreover have "z div 60 \<le> 24" "z mod 60 \<le> 60" using z by auto
  ultimately show ?thesis
    unfolding fmt by (auto simp: parse_zone_def two_digits_def abs_if)
qed (simp add: parse_zone_def format_zone_def)

lemma parse_fraction_zone: "parse_fraction (format_zone off) = (0, format_zone off)"
  by (auto simp: parse_fraction_def format_zone_def Let_def split: list.split)

lemma Parse_Format_wall:
  assumes "0 \<le> Year l" "Year l < 10000" "off mod 60 = 0" "\<bar>off\<bar> \<le> 86400"
  shows "Parse_RFC3339 (format_wall l @ format_zone off) = Some ((l - off) * Second)"
proof -
  have m: "Month l < 100" "0 \<le> Month l" and d: "Day l < 100" "0 \<le> Day l"
    using civil_bounds [of l] daysIn_le [of "Month l" "Year l"] by auto
  have "Hour l < 100" "Minute l < 100" "Second_of l < 100"
    using Hour_bounds [of l] Minute_bounds [of l] Second_of_bounds [of l] by linarith+
  then have num: "getnum (two_digits (Hour l) @ s) f = Some (Hour l, s)" "getnum (two_digits (Minute l) @ s) f = Some (Minute l, s)"
    "getnum (two_digits (Second_of l) @ s) f = Some (Second_of l, s)" for s f
    by (simp_all add: getnum_two_digits Second_of_bounds)
  show ?thesis
    using assms civil_bounds [of l] m d Hour_bounds [of l] Minute_bounds [of l] Second_of_bounds [of l] wall_split [of l]
    by (simp add: Parse_RFC3339_def format_wall_def parse_year_append skip_def getnum_two_digits num
        parse_fraction_zone parse_zone_format)
qed

text \<open>
  A printed time reads back as the same instant up to the second: for every location whose offset at
  the instant is of whole minutes and at most a day, and every year of four digits.
\<close>

lemma Parse_Format_RFC3339:
  assumes "0 \<le> Year (In_loc t loc)" "Year (In_loc t loc) < 10000"
    and "zone_offset loc (Unix t) mod 60 = 0" "\<bar>zone_offset loc (Unix t)\<bar> \<le> 86400"
  shows "Parse_RFC3339 (Format_RFC3339 loc t) = Some (Unix t * Second)"
  using Parse_Format_wall [OF assms] by (simp add: Format_RFC3339_def In_loc_def)

end
