(* ===== verification/HttpApi.thy ===== *)
theory HttpApi
  imports TaskService AuthTokens GoRFC3339
begin

text \<open>
  \<^verbatim>\<open>internal/task/handler_http.go\<close>, \<^verbatim>\<open>dto_http.go\<close> and
  \<^verbatim>\<open>routes.go\<close>: the HTTP interface of the task feature. The binding of a JSON body to
  the request with its validation tags, by gin, is a parameter, and so is the resolver of a user's
  tenant. A handler takes the gin context (the user id the middleware stored), the path parameter and
  the query texts, and returns a response. Times read from the database carry the process's local
  zone, times the domain made carry UTC.
\<close>

section \<open>Requests and responses (dto_http.go)\<close>

record CreateJobRequest =
  cr_Description :: string
  cr_ScheduledAt :: string
  cr_RecurringIntervalSeconds :: int
  cr_ScheduleType :: Kind
  cr_RecurrenceRule :: string
  cr_LocalTime :: string
  cr_TimezoneID :: string
  cr_OriginalUserText :: string
  cr_SideEffecting :: bool
  cr_IdempotencyScope :: string
  cr_ParentJobID :: "JobID option"
  cr_TriggerOnParentStatus :: Status
  cr_JobType :: JobType

definition toInput :: "CreateJobRequest \<Rightarrow> CreateInput result" where
  "toInput r =
     (case (if cr_ScheduledAt r \<noteq> ''''
            then (case Parse_RFC3339 (cr_ScheduledAt r) of
                    None \<Rightarrow> Inl ErrInvalidSchedule | Some t \<Rightarrow> Inr t)
            else Inr zero_time) of
        Inl e \<Rightarrow> Inl e
      | Inr scheduledAt \<Rightarrow> Inr \<lparr>
          ci_Description = cr_Description r,
          ci_ScheduledAt = scheduledAt,
          ci_Interval = wrap64 (cr_RecurringIntervalSeconds r * Second),
          ci_ScheduleType = cr_ScheduleType r,
          ci_RecurrenceRule = cr_RecurrenceRule r,
          ci_LocalTime = cr_LocalTime r,
          ci_TimezoneID = cr_TimezoneID r,
          ci_OriginalUserText = cr_OriginalUserText r,
          ci_SideEffecting = cr_SideEffecting r,
          ci_IdempotencyScope = cr_IdempotencyScope r,
          ci_ParentJobID = cr_ParentJobID r,
          ci_TriggerOnParentStatus = cr_TriggerOnParentStatus r,
          ci_JobType = cr_JobType r\<rparr>)"

text \<open>\<^verbatim>\<open>string(status)\<close> and \<^verbatim>\<open>string(kind)\<close>.\<close>

fun status_text :: "Status \<Rightarrow> string" where
  "status_text StatusPending = ''pending''"
| "status_text StatusQueued = ''queued''"
| "status_text StatusRunning = ''running''"
| "status_text StatusSuccess = ''success''"
| "status_text StatusRetry = ''retry''"
| "status_text StatusFailed = ''failed''"
| "status_text StatusCancelled = ''cancelled''"
| "status_text (StatusOther s) = s"

fun kind_text :: "Kind \<Rightarrow> string" where
  "kind_text KindOneOff = ''one_off''"
| "kind_text KindRecurring = ''recurring''"
| "kind_text (KindOther s) = s"

record RunResponse =
  rn_ID :: JobRunID
  rn_TenantID :: TenantID
  rn_JobID :: JobID
  rn_Status :: string
  rn_ScheduledAt :: string
  rn_Sequence :: int
  rn_Attempts :: int
  rn_ErrorCode :: string
  rn_ErrorMessage :: string
  rn_StartedAt :: string
  rn_CompletedAt :: string
  rn_FailedAt :: string
  rn_CreatedAt :: string
  rn_UpdatedAt :: string
  rn_ScheduleType :: string
  rn_RecurrenceRule :: string
  rn_LocalTime :: string
  rn_TimezoneID :: string
  rn_NextRunAtUTC :: string
  rn_ParentJobID :: "JobID option"
  rn_ChildJobIDs :: "JobID list"

record ListRunsResponse =
  lr_Runs :: "RunResponse list"
  lr_Total :: int
  lr_Limit :: int
  lr_Offset :: int

record RunEventResponse =
  re_ID :: RunEventID
  re_TenantID :: TenantID
  re_JobID :: JobID
  re_JobRunID :: JobRunID
  re_Status :: string
  re_EventType :: string
  re_Payload :: payload
  re_CreatedAt :: string

record CancelJobResponse =
  cj_JobID :: JobID
  cj_CancelledRuns :: int
  cj_RunningRunsUnaffected :: bool

definition formatTime :: "Location \<Rightarrow> time \<Rightarrow> string" where
  "formatTime loc t = (if IsZero t then '''' else Format_RFC3339 loc t)"

definition runToHTTPResponse :: "Location \<Rightarrow> JobRun \<Rightarrow> RunResponse" where
  "runToHTTPResponse loc run = \<lparr>
     rn_ID = run_id run,
     rn_TenantID = run_tenantID run,
     rn_JobID = run_jobID run,
     rn_Status = status_text (run_status run),
     rn_ScheduledAt = Format_RFC3339 loc (run_scheduledAt run),
     rn_Sequence = run_sequence run,
     rn_Attempts = run_attempts run,
     rn_ErrorCode = run_errorCode run,
     rn_ErrorMessage = run_errorMsg run,
     rn_StartedAt = formatTime loc (run_startedAt run),
     rn_CompletedAt = formatTime loc (run_completedAt run),
     rn_FailedAt = formatTime loc (run_failedAt run),
     rn_CreatedAt = Format_RFC3339 loc (run_createdAt run),
     rn_UpdatedAt = Format_RFC3339 loc (run_updatedAt run),
     rn_ScheduleType = kind_text (run_scheduleType run),
     rn_RecurrenceRule = run_recurrenceRule run,
     rn_LocalTime = run_localTime run,
     rn_TimezoneID = run_timezoneID run,
     rn_NextRunAtUTC = Format_RFC3339 loc (run_scheduledAt run),
     rn_ParentJobID = run_parentJobID run,
     rn_ChildJobIDs = run_childJobIDs run\<rparr>"

definition eventToHTTPResponse :: "Location \<Rightarrow> RunEvent \<Rightarrow> RunEventResponse" where
  "eventToHTTPResponse loc event = \<lparr>
     re_ID = ev_id event,
     re_TenantID = ev_tenantID event,
     re_JobID = ev_jobID event,
     re_JobRunID = ev_jobRunID event,
     re_Status = status_text (ev_status event),
     re_EventType = event_text (ev_eventType event),
     re_Payload = ev_payload event,
     re_CreatedAt = Format_RFC3339 loc (ev_createdAt event)\<rparr>"

datatype job_body =
    RunBody RunResponse
  | ListRunsBody ListRunsResponse
  | CancelBody CancelJobResponse
  | ListEventsBody "RunEventResponse list"

section \<open>Handlers (handler_http.go)\<close>

record task_http =
  th_resolver :: "UserID \<Rightarrow> TenantID result"
  th_bind :: "string \<Rightarrow> CreateJobRequest result"

definition writeError :: "error \<Rightarrow> job_body http_response" where
  "writeError err =
     (if err_is err ErrJobNotFound \<or> err_is err ErrJobRunNotFound then http_error 404 (err_text err)
      else if err_is err ErrQuotaExceeded then http_error 429 (err_text err)
      else if err_is err ErrInvalidDescription \<or> err_is err ErrInvalidSchedule \<or>
              err_is err ErrInvalidTimezone \<or> err_is err ErrInvalidRecurrence \<or>
              err_is err ErrInvalidOwner
      then http_error 400 (err_text err)
      else http_error 500 ''internal error'')"

definition parseInt :: "string \<Rightarrow> int" where
  "parseInt s = (if s = '''' then 0 else (case Atoi s of None \<Rightarrow> 0 | Some n \<Rightarrow> n))"

text \<open>\<^verbatim>\<open>identity\<close>: the response it wrote, or the identity.\<close>

definition http_identity :: "uuid_pkg \<Rightarrow> task_http \<Rightarrow> string option \<Rightarrow> job_body http_response + Identity" where
  "http_identity U H c =
     (let sub = UserIDFromContext c
      in if sub = '''' then Inl (http_error 401 ''unauthenticated'')
         else (case ParseUserID U sub of
             Inl _ \<Rightarrow> Inl (http_error 401 ''invalid subject'')
           | Inr userID \<Rightarrow> (case th_resolver H userID of
                 Inl e \<Rightarrow> Inl (writeError e)
               | Inr tenantID \<Rightarrow> Inr \<lparr>id_TenantID = tenantID, id_UserID = userID\<rparr>)))"

definition http_runID ::
  "uuid_pkg \<Rightarrow> task_http \<Rightarrow> string option \<Rightarrow> string \<Rightarrow> job_body http_response + Identity \<times> JobRunID" where
  "http_runID U H c param = (case http_identity U H c of
       Inl r \<Rightarrow> Inl r
     | Inr ident \<Rightarrow> (case ParseJobRunID U param of
           Inl _ \<Rightarrow> Inl (http_error 400 ''invalid id'')
         | Inr runID \<Rightarrow> Inr (ident, runID)))"

definition http_create ::
  "'r env \<Rightarrow> service \<Rightarrow> task_http \<Rightarrow> string option \<Rightarrow> string \<Rightarrow> ('r, job_body http_response) app" where
  "http_create E svc H c body = (case http_identity (e_uuid E) H c of
       Inl r \<Rightarrow> State_Monad.return r
     | Inr ident \<Rightarrow> (case th_bind H body of
           Inl e \<Rightarrow> State_Monad.return (http_error 400 (err_text e))
         | Inr req \<Rightarrow> (case toInput req of
               Inl e \<Rightarrow> State_Monad.return (writeError e)
             | Inr inp \<Rightarrow> do {
                 r \<leftarrow> Create E svc ident inp;
                 State_Monad.return (case r of
                     Inl e \<Rightarrow> writeError e
                   | Inr run \<Rightarrow> http_ok 201 (RunBody (runToHTTPResponse UTC run)))
               })))"

definition runs_body :: "Location \<Rightarrow> Pagination \<Rightarrow> JobRun list \<times> int \<Rightarrow> job_body" where
  "runs_body loc p = (\<lambda>(runs, total). ListRunsBody \<lparr>
     lr_Runs = map (runToHTTPResponse loc) runs,
     lr_Total = total,
     lr_Limit = p_Limit p,
     lr_Offset = p_Offset p\<rparr>)"

definition http_list ::
  "'r env \<Rightarrow> task_http \<Rightarrow> string option \<Rightarrow> string \<Rightarrow> string \<Rightarrow> ('r, job_body http_response) app" where
  "http_list E H c limit offset = (case http_identity (e_uuid E) H c of
       Inl r \<Rightarrow> State_Monad.return r
     | Inr ident \<Rightarrow>
         let p = NewPagination (parseInt limit) (parseInt offset)
         in do {
           r \<leftarrow> List_runs E ident p;
           State_Monad.return (case r of
               Inl e \<Rightarrow> writeError e
             | Inr runs \<Rightarrow> http_ok 200 (runs_body (tz_local (e_tz E)) p runs))
         })"

definition http_status ::
  "'r env \<Rightarrow> task_http \<Rightarrow> string option \<Rightarrow> string \<Rightarrow> ('r, job_body http_response) app" where
  "http_status E H c param = (case http_identity (e_uuid E) H c of
       Inl r \<Rightarrow> State_Monad.return r
     | Inr ident \<Rightarrow> (case ParseJobID (e_uuid E) param of
           Inl _ \<Rightarrow> State_Monad.return (http_error 400 ''invalid id'')
         | Inr jobID \<Rightarrow> do {
             r \<leftarrow> service_Status E ident jobID;
             State_Monad.return (case r of
                 Inl e \<Rightarrow> writeError e
               | Inr run \<Rightarrow> http_ok 200 (RunBody (runToHTTPResponse (tz_local (e_tz E)) run)))
           }))"

definition http_cancel ::
  "'r env \<Rightarrow> task_http \<Rightarrow> string option \<Rightarrow> string \<Rightarrow> ('r, job_body http_response) app" where
  "http_cancel E H c param = (case http_identity (e_uuid E) H c of
       Inl r \<Rightarrow> State_Monad.return r
     | Inr ident \<Rightarrow> (case ParseJobID (e_uuid E) param of
           Inl _ \<Rightarrow> State_Monad.return (http_error 400 ''invalid id'')
         | Inr jobID \<Rightarrow> do {
             r \<leftarrow> Cancel E ident jobID;
             State_Monad.return (case r of
                 Inl e \<Rightarrow> writeError e
               | Inr runs \<Rightarrow> http_ok 200 (CancelBody \<lparr>cj_JobID = jobID,
                   cj_CancelledRuns = int (length runs), cj_RunningRunsUnaffected = True\<rparr>))
           }))"

definition http_runsForJob ::
  "'r env \<Rightarrow> task_http \<Rightarrow> string option \<Rightarrow> string \<Rightarrow> string \<Rightarrow> string \<Rightarrow> ('r, job_body http_response) app" where
  "http_runsForJob E H c param limit offset = (case http_identity (e_uuid E) H c of
       Inl r \<Rightarrow> State_Monad.return r
     | Inr ident \<Rightarrow> (case ParseJobID (e_uuid E) param of
           Inl _ \<Rightarrow> State_Monad.return (http_error 400 ''invalid id'')
         | Inr jobID \<Rightarrow>
             let p = NewPagination (parseInt limit) (parseInt offset)
             in do {
               r \<leftarrow> RunsForJob E ident jobID p;
               State_Monad.return (case r of
                   Inl e \<Rightarrow> writeError e
                 | Inr runs \<Rightarrow> http_ok 200 (runs_body (tz_local (e_tz E)) p runs))
             }))"

definition http_eventsForRun ::
  "'r env \<Rightarrow> task_http \<Rightarrow> string option \<Rightarrow> string \<Rightarrow> ('r, job_body http_response) app" where
  "http_eventsForRun E H c param = (case http_runID (e_uuid E) H c param of
       Inl r \<Rightarrow> State_Monad.return r
     | Inr (ident, runID) \<Rightarrow> do {
         r \<leftarrow> EventsForRun E ident runID;
         State_Monad.return (case r of
             Inl e \<Rightarrow> writeError e
           | Inr events \<Rightarrow> http_ok 200 (ListEventsBody (map (eventToHTTPResponse (tz_local (e_tz E))) events)))
       })"

section \<open>Routes (routes.go)\<close>

datatype task_route =
    PostJobs string
  | GetJobs string string
  | GetJobRuns string string string
  | GetJob string
  | PostJobCancel string
  | GetRunEvents string

definition task_handler ::
  "'r env \<Rightarrow> service \<Rightarrow> task_http \<Rightarrow> task_route \<Rightarrow> string option \<Rightarrow> ('r, job_body http_response) app" where
  "task_handler E svc H route c = (case route of
       PostJobs body \<Rightarrow> http_create E svc H c body
     | GetJobs limit offset \<Rightarrow> http_list E H c limit offset
     | GetJobRuns i limit offset \<Rightarrow> http_runsForJob E H c i limit offset
     | GetJob i \<Rightarrow> http_status E H c i
     | PostJobCancel i \<Rightarrow> http_cancel E H c i
     | GetRunEvents i \<Rightarrow> http_eventsForRun E H c i)"

definition RegisterRoutes :: "'r env \<Rightarrow> service \<Rightarrow> task_http \<Rightarrow> jwt_pkg \<Rightarrow> Manager \<Rightarrow> string \<Rightarrow> task_route \<Rightarrow>
    ('r, job_body http_response) app" where
  "RegisterRoutes E svc H J authMW header route = Middleware E J authMW header (task_handler E svc H route)"

section \<open>What the handlers do to the database\<close>

context db_evolution
begin

lemma http_reads:
  "state_io_rel (on_db R) (http_list E H c limit offset)"
  "state_io_rel (on_db R) (http_status E H c i)"
  "state_io_rel (on_db R) (http_runsForJob E H c i limit offset)"
  "state_io_rel (on_db R) (http_eventsForRun E H c i)"
  unfolding http_list_def http_status_def http_runsForJob_def http_eventsForRun_def
  by (intro service_reads service_Status db_intros)+

end

context guarded_statements
begin

lemma task_handler: "state_io_rel (on_db R) (task_handler E svc H route c)"
  unfolding task_handler_def
  by (cases route)
    (auto simp: http_create_def http_cancel_def intro!: http_reads Create Cancel db_intros)

lemma RegisterRoutes: "state_io_rel (on_db R) (RegisterRoutes E svc H J m header route)"
  unfolding RegisterRoutes_def by (intro Middleware task_handler)

end

section \<open>What a response shows\<close>

definition body_owned :: "TenantID \<Rightarrow> job_body \<Rightarrow> bool" where
  "body_owned t b = (case b of
       RunBody r \<Rightarrow> rn_TenantID r = t
     | ListRunsBody l \<Rightarrow> \<forall>r\<in>set (lr_Runs l). rn_TenantID r = t
     | CancelBody _ \<Rightarrow> True
     | ListEventsBody es \<Rightarrow> \<forall>e\<in>set es. re_TenantID e = t)"

definition response_owned :: "uuid_pkg \<Rightarrow> task_http \<Rightarrow> string option \<Rightarrow> job_body http_response \<Rightarrow> bool" where
  "response_owned U H c rsp \<longleftrightarrow> (case rs_body rsp of Inl _ \<Rightarrow> True
     | Inr b \<Rightarrow> \<exists>ident. http_identity U H c = Inr ident \<and> body_owned (id_TenantID ident) b)"

lemma response_error [simp]:
  "response_owned U H c (http_error s m)" "response_owned U H c (writeError e)"
  "http_identity U H c = Inl r \<Longrightarrow> response_owned U H c r"
  by (auto simp: response_owned_def writeError_def http_identity_def Let_def split: if_splits sum.splits)

lemma response_ok [simp]:
  "http_identity U H c = Inr ident \<Longrightarrow> response_owned U H c (http_ok s b) = body_owned (id_TenantID ident) b"
  by (simp add: response_owned_def)

lemma Create_owned: "results (Create E svc ident inp) (all_result (\<lambda>run. run_tenantID run = id_TenantID ident))"
  unfolding results_def
proof
  fix w :: "'a world"
  obtain r w' where run: "run_state (Create E svc ident inp) w = (r, w')" by fastforce
  from run_Create [OF run] show "all_result (\<lambda>run. run_tenantID run = id_TenantID ident) (fst (run_state (Create E svc ident inp) w))"
    by (auto simp: run all_result_def created_def setSchedule_def split: sum.split)
qed

lemma runs_body_owned: "owned_runs t r \<Longrightarrow> body_owned t (runs_body loc p r)"
  by (cases r) (auto simp: runs_body_def body_owned_def owned_runs_def runToHTTPResponse_def)

lemma owned_job_runs_runs: "owned_job_runs t j r \<Longrightarrow> owned_runs t r"
  by (simp add: owned_job_runs_def owned_runs_def)

lemma http_create_owned: "results (http_create E svc H c body) (response_owned (e_uuid E) H c)"
  unfolding http_create_def
  by (auto intro!: results_return results_bind [OF Create_owned] simp: all_result_def body_owned_def runToHTTPResponse_def
      split: sum.split)

lemma http_list_owned: "results (http_list E H c limit offset) (response_owned (e_uuid E) H c)"
  unfolding http_list_def Let_def
  by (auto intro!: results_return results_bind [OF List_runs_owned] runs_body_owned simp: all_result_def split: sum.split)

lemma http_runsForJob_owned: "results (http_runsForJob E H c i limit offset) (response_owned (e_uuid E) H c)"
  unfolding http_runsForJob_def Let_def
  by (auto intro!: results_return results_bind [OF RunsForJob_owned] runs_body_owned owned_job_runs_runs
      simp: all_result_def split: sum.split)

lemma http_status_owned: "results (http_status E H c i) (response_owned (e_uuid E) H c)"
  unfolding http_status_def
  by (auto intro!: results_return results_bind [OF service_Status_owned] simp: all_result_def body_owned_def
      runToHTTPResponse_def split: sum.split)

lemma http_cancel_owned: "results (http_cancel E H c i) (response_owned (e_uuid E) H c)"
  unfolding http_cancel_def
  by (auto intro!: results_return results_bind [OF results_any] simp: body_owned_def split: sum.split)

lemma http_eventsForRun_owned: "results (http_eventsForRun E H c i) (response_owned (e_uuid E) H c)"
  unfolding http_eventsForRun_def http_runID_def
  by (auto intro!: results_return results_bind [OF EventsForRun_owned] simp: all_result_def body_owned_def owned_events_def
      eventToHTTPResponse_def split: sum.split)

lemmas handlers_owned = http_create_owned http_list_owned http_runsForJob_owned http_status_owned http_cancel_owned
  http_eventsForRun_owned

lemma task_handler_owned: "results (task_handler E svc H route c) (response_owned (e_uuid E) H c)"
  unfolding task_handler_def by (cases route) (simp_all add: handlers_owned)

lemma create_db_changes: "create_db j run evs d \<noteq> d"
proof
  assume "create_db j run evs d = d"
  then have "length (d_jobs (create_db j run evs d)) = length (d_jobs d)" by simp
  then show False by (simp add: create_db_def)
qed

lemma Create_reliable:
  assumes "reliable E" "run_state (Create E svc ident inp) w = (r, w')"
  shows "case r of Inl _ \<Rightarrow> w_db w' = w_db w
    | Inr out \<Rightarrow> \<exists>j run evs. w_db w' = create_db j run evs (w_db w) \<and> created ident j run evs \<and> out = setSchedule j run"
  using run_Create [OF assms(2)] assms(1) create_db_changes by (cases r) fastforce+

section \<open>Properties\<close>

text \<open>
  C32 (safety): whatever the database holds and whatever call fails, no HTTP response of the task
  feature shows a run or an event of another tenant: a response with a body was written for an
  authenticated user, and everything in it belongs to the tenant the resolver gave for that user.
\<close>

theorem http_tenant_isolation:
  "results (task_handler E svc H route c) (\<lambda>rsp. case rs_body rsp of Inl _ \<Rightarrow> True
     | Inr b \<Rightarrow> \<exists>ident. http_identity (e_uuid E) H c = Inr ident \<and> body_owned (id_TenantID ident) b)"
  using task_handler_owned [of E svc H route c] unfolding response_owned_def .


definition sample_request :: CreateJobRequest where
  "sample_request = \<lparr>cr_Description = ''report'', cr_ScheduledAt = ''2026-01-01T00:00:00Z'', cr_RecurringIntervalSeconds = 0,
     cr_ScheduleType = KindOneOff, cr_RecurrenceRule = '''', cr_LocalTime = '''', cr_TimezoneID = '''',
     cr_OriginalUserText = '''', cr_SideEffecting = False, cr_IdempotencyScope = '''', cr_ParentJobID = None,
     cr_TriggerOnParentStatus = StatusOther '''', cr_JobType = JobTypeOther ''''\<rparr>"

definition sample_http :: task_http where
  "sample_http = \<lparr>th_resolver = (\<lambda>u. ParseTenantID canonical_uuid (uuid_String canonical_uuid u)),
     th_bind = (\<lambda>body. Inr sample_request)\<rparr>"

definition user_seven :: string where
  "user_seven = ''00000000-0000-0000-0000-000000000007''"

lemma user_seven_identity: "http_identity canonical_uuid sample_http (Some user_seven) = Inr \<lparr>id_TenantID = 7, id_UserID = 7\<rparr>"
proof -
  have "uuid_Parse canonical_uuid user_seven = Some 7" by code_simp
  moreover have "user_seven \<noteq> ''''" by (simp add: user_seven_def)
  moreover have "uuid_Parse canonical_uuid (uuid_String canonical_uuid 7) = Some 7"
    using canonical_uuid_ok by (simp add: uuid_ok_def)
  ultimately show ?thesis
    by (simp add: http_identity_def UserIDFromContext_def ParseUserID_def ParseTenantID_def sample_http_def)
qed


text \<open>
  Asking for the status of a job does not tell whether it exists for somebody else:
  when no call fails and the tenant has no run of the job, whether the job is another tenant's or
  does not exist at all, the answer is the same 404.
\<close>

theorem http_status_hides:
  assumes "reliable E" "http_identity (e_uuid E) H c = Inr ident" "identity_valid ident"
    and "ParseJobID (e_uuid E) i = Inr j"
    and "\<forall>run\<in>set (d_runs (w_db w)). \<not> (rr_tenant_id run = id_TenantID ident \<and> rr_job_id run = j)"
  shows "fst (run_state (http_status E H c i) w) = http_error 404 ''job run not found''"
proof -
  have "fst (run_state (service_Status E ident j) w) = Inl ErrJobRunNotFound"
    by (rule service_Status_missing [OF assms(1,3,5)])
  then show ?thesis
    using assms(2,4) by (auto simp: http_status_def writeError_def split: prod.split)
qed

theorem http_status_hides_witness:
  "reliable sample_env \<and> fst (run_state (http_status sample_env sample_http (Some user_seven)
      ''00000000-0000-0000-0000-00000000000b'') (start_world (sample_db StatusPending 0))) =
    http_error 404 ''job run not found''"
proof -
  have E: "reliable sample_env" by (simp add: reliable_def sample_env_def)
  have "http_identity (e_uuid sample_env) sample_http (Some user_seven) = Inr \<lparr>id_TenantID = 7, id_UserID = 7\<rparr>"
    by (simp add: sample_env_sel user_seven_identity)
  moreover have "ParseJobID (e_uuid sample_env) ''00000000-0000-0000-0000-00000000000b'' = Inr 11" by code_simp
  moreover have "\<forall>run\<in>set (d_runs (w_db (start_world (sample_db StatusPending 0)))). rr_tenant_id run \<noteq> 7"
    by (simp add: start_world_def sample_db_def sample_run_def)
  ultimately show ?thesis
    using E http_status_hides [OF E, of sample_http "Some user_seven" "\<lparr>id_TenantID = 7, id_UserID = 7\<rparr>"
      "''00000000-0000-0000-0000-00000000000b''" 11 "start_world (sample_db StatusPending 0)"]
    by (simp add: identity_valid_def id_IsZero_def)
qed

text \<open>
  C37 (roundtrip, bounds): what a response prints a request can send back: the scheduled time of a
  run, printed in UTC and given as \<^verbatim>\<open>scheduled_at\<close>, is read as the same second, for
  every year of four digits; and the interval of a request becomes that many seconds exactly when
  it fits the 64 bits of a duration in nanoseconds, so above 9223372036 seconds it is another value.
\<close>

theorem toInput_reads_back:
  assumes "0 \<le> Year (Unix (run_scheduledAt run))" "Year (Unix (run_scheduledAt run)) < 10000"
  shows "\<exists>inp. toInput (req\<lparr>cr_ScheduledAt := rn_ScheduledAt (runToHTTPResponse UTC run)\<rparr>) = Inr inp \<and>
    ci_ScheduledAt inp = Unix (run_scheduledAt run) * Second \<and>
    (ci_Interval inp = cr_RecurringIntervalSeconds req * Second \<longleftrightarrow> in_int64 (cr_RecurringIntervalSeconds req * Second))"
proof -
  let ?s = "Format_RFC3339 UTC (run_scheduledAt run)"
  have "Parse_RFC3339 ?s = Some (Unix (run_scheduledAt run) * Second)"
    using assms by (intro Parse_Format_RFC3339) (simp_all add: In_loc_def)
  moreover have "?s \<noteq> ''''" by (simp add: Format_RFC3339_def format_wall_def)
  moreover have "wrap64 x = x \<longleftrightarrow> in_int64 x" for x
    by (auto simp: wrap64_def in_int64_def signed_take_bit_int_eq_self_iff)
  ultimately show ?thesis by (simp add: toInput_def runToHTTPResponse_def)
qed

theorem toInput_reads_back_witness:
  "\<exists>inp. toInput (sample_request\<lparr>cr_RecurringIntervalSeconds := 9223372037, cr_ScheduledAt := rn_ScheduledAt
       (runToHTTPResponse UTC (jobRunFromGetByIDRow (sample_run 21 1 11 1 StatusPending 0)))\<rparr>) = Inr inp \<and>
    ci_ScheduledAt inp = 1767225600 * Second \<and> ci_Interval inp \<noteq> 9223372037 * Second"
proof -
  let ?run = "jobRunFromGetByIDRow (sample_run 21 1 11 1 StatusPending 0)"
  have t: "run_scheduledAt ?run = 1767225600 * Second"
    by (simp add: jobRunFromGetByIDRow_def rehydrateJobRun_def sample_run_def)
  have "Unix (run_scheduledAt ?run) = 1767225600" "Year 1767225600 = 2026"
    unfolding t by code_simp+
  then show ?thesis
    using toInput_reads_back [of ?run "sample_request\<lparr>cr_RecurringIntervalSeconds := 9223372037\<rparr>"]
    by (auto simp: in_int64_def Second_def)
qed

end
