(* ===== verification/McpTools.thy ===== *)
theory McpTools
  imports HttpApi
begin

text \<open>
  \<^verbatim>\<open>internal/task/mcp\<close> and \<^verbatim>\<open>cmd/mcp/main.go\<close>: the tools of the MCP server.
  A tool is registered under its name, takes the raw JSON of its arguments and returns a result; the
  server binds every tool to the handler of the registry. The JSON text of arguments and results
  (\<^verbatim>\<open>encoding/json\<close> on the tagged structs) is the parameter \<open>mcp_codec\<close>.
\<close>

section \<open>Arguments and results (tools.go)\<close>

record CreateArgs =
  ca_Description :: string
  ca_ScheduledAt :: string
  ca_RecurringIntervalSecond :: int
  ca_ScheduleType :: Kind
  ca_RecurrenceRule :: string
  ca_LocalTime :: string
  ca_TimezoneID :: string
  ca_OriginalUserText :: string
  ca_SideEffecting :: bool
  ca_IdempotencyScope :: string
  ca_ParentJobID :: string
  ca_TriggerOnParentStatus :: Status
  ca_JobType :: JobType

record ListArgs =
  la_Limit :: int
  la_Offset :: int

record RunRef =
  rf_JobID :: string

record JobRef =
  jf_JobID :: string
  jf_Limit :: int
  jf_Offset :: int

record runResponse =
  mr_JobID :: string
  mr_Status :: string
  mr_ScheduledAt :: string
  mr_Sequence :: int
  mr_ScheduleType :: string
  mr_RecurrenceRule :: string
  mr_LocalTime :: string
  mr_TimezoneID :: string
  mr_NextRunAtUTC :: string
  mr_ParentJobID :: string
  mr_ChildJobIDs :: "string list"

record listResponse =
  ml_Runs :: "runResponse list"
  ml_Total :: int
  ml_Limit :: int
  ml_Offset :: int

record eventResponse =
  me_JobID :: string
  me_JobRunID :: string
  me_Status :: string
  me_EventType :: string
  me_Payload :: payload
  me_CreatedAt :: string

text \<open>What a handler returns; the last is the map of \<^verbatim>\<open>task.cancel\<close>.\<close>

datatype tool_result =
    ToolRun runResponse
  | ToolRuns listResponse
  | ToolEvents "eventResponse list"
  | ToolCancel string int bool

datatype tool_args =
    ArgsCreate CreateArgs
  | ArgsList ListArgs
  | ArgsRunRef RunRef
  | ArgsJobRef JobRef

record mcp_codec =
  um_CreateArgs :: "string \<Rightarrow> CreateArgs result"
  um_ListArgs :: "string \<Rightarrow> ListArgs result"
  um_RunRef :: "string \<Rightarrow> RunRef result"
  um_JobRef :: "string \<Rightarrow> JobRef result"
  ma_args :: "tool_args \<Rightarrow> string result"
  ma_result :: "tool_result \<Rightarrow> string result"
  um_map :: "string \<Rightarrow> (string \<times> json) list result"

definition decodeArgs :: "(string \<Rightarrow> 'a result) \<Rightarrow> string \<Rightarrow> 'a result" where
  "decodeArgs um raw =
     wrap_err ''decode args'' (um (if raw = '''' then ''{}'' else raw))"

definition runToResponse :: "uuid_pkg \<Rightarrow> Location \<Rightarrow> JobRun \<Rightarrow> runResponse" where
  "runToResponse U loc run = \<lparr>
     mr_JobID = uuid_String U (run_id run),
     mr_Status = status_text (run_status run),
     mr_ScheduledAt = Format_RFC3339 loc (run_scheduledAt run),
     mr_Sequence = run_sequence run,
     mr_ScheduleType = kind_text (run_scheduleType run),
     mr_RecurrenceRule = run_recurrenceRule run,
     mr_LocalTime = run_localTime run,
     mr_TimezoneID = run_timezoneID run,
     mr_NextRunAtUTC = Format_RFC3339 loc (run_scheduledAt run),
     mr_ParentJobID = (case run_parentJobID run of None \<Rightarrow> '''' | Some p \<Rightarrow> uuid_String U p),
     mr_ChildJobIDs = map (uuid_String U) (run_childJobIDs run)\<rparr>"

definition eventToResponse :: "uuid_pkg \<Rightarrow> Location \<Rightarrow> RunEvent \<Rightarrow> eventResponse" where
  "eventToResponse U loc event = \<lparr>
     me_JobID = uuid_String U (ev_jobID event),
     me_JobRunID = uuid_String U (ev_jobRunID event),
     me_Status = status_text (ev_status event),
     me_EventType = event_text (ev_eventType event),
     me_Payload = ev_payload event,
     me_CreatedAt = Format_RFC3339 loc (ev_createdAt event)\<rparr>"

definition runIDFromArgs :: "uuid_pkg \<Rightarrow> mcp_codec \<Rightarrow> string \<Rightarrow> JobRunID result" where
  "runIDFromArgs U C raw = (case decodeArgs (um_RunRef C) raw of
       Inl e \<Rightarrow> Inl e
     | Inr ref \<Rightarrow> wrap_err ''parse job_id'' (ParseJobRunID U (rf_JobID ref)))"

section \<open>Tools (tools.go, registry.go)\<close>

type_synonym 'r ToolHandler = "string \<Rightarrow> ('r, tool_result result) app"
type_synonym 'r Registry = "string \<rightharpoonup> 'r ToolHandler"

definition NewRegistry :: "'r Registry" where
  "NewRegistry = Map.empty"

definition reg_Register :: "string \<Rightarrow> 'r ToolHandler \<Rightarrow> 'r Registry \<Rightarrow> 'r Registry" where
  "reg_Register name h r = r(name \<mapsto> h)"

text \<open>The fields of the arguments that need parsing: the scheduled time and the parent.\<close>

definition create_input :: "uuid_pkg \<Rightarrow> CreateArgs \<Rightarrow> CreateInput result" where
  "create_input U args =
     (case (if ca_ScheduledAt args \<noteq> ''''
            then (case Parse_RFC3339 (ca_ScheduledAt args) of
                    None \<Rightarrow> Inl (Errorf ''parse scheduled_at'' (ErrText ''parsing time''))
                  | Some t \<Rightarrow> Inr t)
            else Inr zero_time) of
        Inl e \<Rightarrow> Inl e
      | Inr scheduledAt \<Rightarrow>
          (case (if ca_ParentJobID args \<noteq> ''''
                 then map_result Some (wrap_err ''parse parent_job_id'' (ParseJobID U (ca_ParentJobID args)))
                 else Inr None) of
             Inl e \<Rightarrow> Inl e
           | Inr parentJobID \<Rightarrow> Inr \<lparr>
               ci_Description = ca_Description args,
               ci_ScheduledAt = scheduledAt,
               ci_Interval = wrap64 (ca_RecurringIntervalSecond args * Second),
               ci_ScheduleType = ca_ScheduleType args,
               ci_RecurrenceRule = ca_RecurrenceRule args,
               ci_LocalTime = ca_LocalTime args,
               ci_TimezoneID = ca_TimezoneID args,
               ci_OriginalUserText = ca_OriginalUserText args,
               ci_SideEffecting = ca_SideEffecting args,
               ci_IdempotencyScope = ca_IdempotencyScope args,
               ci_ParentJobID = parentJobID,
               ci_TriggerOnParentStatus = ca_TriggerOnParentStatus args,
               ci_JobType = ca_JobType args\<rparr>))"

definition tool_create :: "'r env \<Rightarrow> mcp_codec \<Rightarrow> service \<Rightarrow> Identity \<Rightarrow> 'r ToolHandler" where
  "tool_create E C svc ident raw = (case decodeArgs (um_CreateArgs C) raw of
       Inl e \<Rightarrow> State_Monad.return (Inl e)
     | Inr args \<Rightarrow> (case create_input (e_uuid E) args of
           Inl e \<Rightarrow> State_Monad.return (Inl e)
         | Inr inp \<Rightarrow> do {
             r \<leftarrow> Create E svc ident inp;
             State_Monad.return (map_result (\<lambda>run. ToolRun (runToResponse (e_uuid E) UTC run)) r)
           }))"

definition tool_runs :: "'r env \<Rightarrow> Pagination \<Rightarrow> (JobRun list \<times> int) result \<Rightarrow> tool_result result" where
  "tool_runs E p = map_result (\<lambda>(runs, total). ToolRuns \<lparr>
     ml_Runs = map (runToResponse (e_uuid E) (tz_local (e_tz E))) runs,
     ml_Total = total,
     ml_Limit = p_Limit p,
     ml_Offset = p_Offset p\<rparr>)"

definition tool_list :: "'r env \<Rightarrow> mcp_codec \<Rightarrow> Identity \<Rightarrow> 'r ToolHandler" where
  "tool_list E C ident raw = (case decodeArgs (um_ListArgs C) raw of
       Inl e \<Rightarrow> State_Monad.return (Inl e)
     | Inr args \<Rightarrow>
         let p = NewPagination (la_Limit args) (la_Offset args)
         in do { r \<leftarrow> List_runs E ident p; State_Monad.return (tool_runs E p r) })"

definition tool_status :: "'r env \<Rightarrow> mcp_codec \<Rightarrow> Identity \<Rightarrow> 'r ToolHandler" where
  "tool_status E C ident raw = (case decodeArgs (um_JobRef C) raw of
       Inl e \<Rightarrow> State_Monad.return (Inl e)
     | Inr args \<Rightarrow> (case ParseJobID (e_uuid E) (jf_JobID args) of
           Inl e \<Rightarrow> State_Monad.return (Inl e)
         | Inr i \<Rightarrow> do {
             r \<leftarrow> service_Status E ident i;
             State_Monad.return (map_result (\<lambda>run. ToolRun (runToResponse (e_uuid E) (tz_local (e_tz E)) run)) r)
           }))"

text \<open>The argument of \<^verbatim>\<open>task.cancel\<close> is an anonymous struct with the one field of \<open>RunRef\<close>.\<close>

definition tool_cancel :: "'r env \<Rightarrow> mcp_codec \<Rightarrow> Identity \<Rightarrow> 'r ToolHandler" where
  "tool_cancel E C ident raw = (case decodeArgs (um_RunRef C) raw of
       Inl e \<Rightarrow> State_Monad.return (Inl e)
     | Inr args \<Rightarrow> (case ParseJobID (e_uuid E) (rf_JobID args) of
           Inl e \<Rightarrow> State_Monad.return (Inl e)
         | Inr i \<Rightarrow> do {
             r \<leftarrow> Cancel E ident i;
             State_Monad.return
               (map_result (\<lambda>runs. ToolCancel (uuid_String (e_uuid E) i) (int (length runs)) True) r)
           }))"

definition tool_runsForJob :: "'r env \<Rightarrow> mcp_codec \<Rightarrow> Identity \<Rightarrow> 'r ToolHandler" where
  "tool_runsForJob E C ident raw = (case decodeArgs (um_JobRef C) raw of
       Inl e \<Rightarrow> State_Monad.return (Inl e)
     | Inr ref \<Rightarrow> (case wrap_err ''parse job_id'' (ParseJobID (e_uuid E) (jf_JobID ref)) of
           Inl e \<Rightarrow> State_Monad.return (Inl e)
         | Inr jobID \<Rightarrow>
             let p = NewPagination (jf_Limit ref) (jf_Offset ref)
             in do { r \<leftarrow> RunsForJob E ident jobID p; State_Monad.return (tool_runs E p r) }))"

definition tool_events :: "'r env \<Rightarrow> mcp_codec \<Rightarrow> Identity \<Rightarrow> 'r ToolHandler" where
  "tool_events E C ident raw = (case runIDFromArgs (e_uuid E) C raw of
       Inl e \<Rightarrow> State_Monad.return (Inl e)
     | Inr i \<Rightarrow> do {
         r \<leftarrow> EventsForRun E ident i;
         State_Monad.return
           (map_result (\<lambda>events. ToolEvents (map (eventToResponse (e_uuid E) (tz_local (e_tz E))) events)) r)
       })"

definition Register_tools :: "'r env \<Rightarrow> mcp_codec \<Rightarrow> service \<Rightarrow> Identity \<Rightarrow> 'r Registry \<Rightarrow> 'r Registry" where
  "Register_tools E C svc ident reg =
     reg_Register ''task.events'' (tool_events E C ident)
       (reg_Register ''task.runs'' (tool_runsForJob E C ident)
         (reg_Register ''task.cancel'' (tool_cancel E C ident)
           (reg_Register ''task.status'' (tool_status E C ident)
             (reg_Register ''task.list'' (tool_list E C ident)
               (reg_Register ''task.create'' (tool_create E C svc ident) reg)))))"

section \<open>The server (cmd/mcp/main.go)\<close>

definition toMap :: "mcp_codec \<Rightarrow> tool_result \<Rightarrow> (string \<times> json) list result" where
  "toMap C v = (case ma_result C v of
       Inl e \<Rightarrow> Inl (Errorf ''marshal result'' e)
     | Inr b \<Rightarrow> wrap_err ''decode result'' (um_map C b))"

definition callRegistryTool :: "mcp_codec \<Rightarrow> 'r ToolHandler option \<Rightarrow> tool_args \<Rightarrow>
    ('r, (string \<times> json) list result) app" where
  "callRegistryTool C handler inp = (case handler of
       None \<Rightarrow> State_Monad.return (Inl (ErrText ''tool handler not registered''))
     | Some h \<Rightarrow> (case ma_args C inp of
           Inl e \<Rightarrow> State_Monad.return (Inl (Errorf ''marshal args'' e))
         | Inr raw \<Rightarrow> do {
             out \<leftarrow> h raw;
             State_Monad.return (case out of Inl e \<Rightarrow> Inl e | Inr v \<Rightarrow> toMap C v)
           }))"

text \<open>A call the server accepts: the tool, with arguments of the type it was added with.\<close>

datatype tool_call =
    CallCreate CreateArgs
  | CallList ListArgs
  | CallStatus RunRef
  | CallCancel RunRef
  | CallRuns JobRef
  | CallEvents RunRef

definition bindRegistry :: "mcp_codec \<Rightarrow> 'r Registry \<Rightarrow> tool_call \<Rightarrow> ('r, (string \<times> json) list result) app" where
  "bindRegistry C handlers call = (case call of
       CallCreate inp \<Rightarrow> callRegistryTool C (handlers ''task.create'') (ArgsCreate inp)
     | CallList inp \<Rightarrow> callRegistryTool C (handlers ''task.list'') (ArgsList inp)
     | CallStatus inp \<Rightarrow> callRegistryTool C (handlers ''task.status'') (ArgsRunRef inp)
     | CallCancel inp \<Rightarrow> callRegistryTool C (handlers ''task.cancel'') (ArgsRunRef inp)
     | CallRuns inp \<Rightarrow> callRegistryTool C (handlers ''task.runs'') (ArgsJobRef inp)
     | CallEvents inp \<Rightarrow> callRegistryTool C (handlers ''task.events'') (ArgsRunRef inp))"

text \<open>\<open>getenv\<close> is \<^verbatim>\<open>os.Getenv\<close>.\<close>

definition mcpIdentity :: "uuid_pkg \<Rightarrow> (string \<Rightarrow> string) \<Rightarrow> Identity result" where
  "mcpIdentity U getenv =
     (let tenantRaw = or_default '''' (getenv ''MCP_TENANT_ID'') ''00000000-0000-0000-0000-0000000000cc'';
          userRaw = or_default '''' (getenv ''MCP_USER_ID'') ''00000000-0000-0000-0000-0000000000dd''
      in case wrap_err ''parse MCP_TENANT_ID'' (ParseTenantID U tenantRaw) of
           Inl e \<Rightarrow> Inl e
         | Inr tenantID \<Rightarrow> (case wrap_err ''parse MCP_USER_ID'' (ParseUserID U userRaw) of
               Inl e \<Rightarrow> Inl e
             | Inr userID \<Rightarrow> Inr \<lparr>id_TenantID = tenantID, id_UserID = userID\<rparr>))"

text \<open>The tools of the server for an identity.\<close>

definition mcp_server :: "'r env \<Rightarrow> mcp_codec \<Rightarrow> service \<Rightarrow> Identity \<Rightarrow> tool_call \<Rightarrow>
    ('r, (string \<times> json) list result) app" where
  "mcp_server E C svc ident = bindRegistry C (Register_tools E C svc ident NewRegistry)"

section \<open>What the tools do to the database\<close>

context guarded_statements
begin

lemma tools:
  "state_io_rel (on_db R) (tool_create E C svc ident raw)"
  "state_io_rel (on_db R) (tool_list E C ident raw)"
  "state_io_rel (on_db R) (tool_status E C ident raw)"
  "state_io_rel (on_db R) (tool_cancel E C ident raw)"
  "state_io_rel (on_db R) (tool_runsForJob E C ident raw)"
  "state_io_rel (on_db R) (tool_events E C ident raw)"
  unfolding tool_create_def tool_list_def tool_status_def tool_cancel_def tool_runsForJob_def tool_events_def
  by (intro Create Cancel service_reads service_Status db_intros)+

lemma callRegistryTool:
  "(\<And>h raw. handler = Some h \<Longrightarrow> state_io_rel (on_db R) (h raw)) \<Longrightarrow>
   state_io_rel (on_db R) (callRegistryTool C handler inp)"
  unfolding callRegistryTool_def by (intro db_intros) simp

lemma mcp_server: "state_io_rel (on_db R) (mcp_server E C svc ident call)"
  unfolding mcp_server_def bindRegistry_def
  by (cases call) (auto simp: Register_tools_def reg_Register_def intro!: callRegistryTool tools)

end

section \<open>Properties\<close>

lemma map_result_Inr: "map_result f r = Inr b \<longleftrightarrow> (\<exists>a. r = Inr a \<and> b = f a)"
  by (cases r) (auto simp: map_result_def)

lemma tool_create_ok:
  assumes "run_state (tool_create E C svc ident raw) w = (Inr v, w')"
  shows "\<exists>inp run. run_state (Create E svc ident inp) w = (Inr run, w') \<and> v = ToolRun (runToResponse (e_uuid E) UTC run)"
  using assms by (auto simp: tool_create_def map_result_Inr split: sum.splits prod.splits)

lemma Cancel_missing:
  assumes "reliable E" "identity_valid ident" "\<forall>row\<in>set (d_jobs (w_db w)). jr_id row \<noteq> j"
  shows "fst (run_state (Cancel E ident j) w) = Inl ErrJobNotFound"
proof -
  have "find (\<lambda>r. jr_id r = j) (d_jobs (w_db w)) = None" using assms(3) by (simp add: find_None_iff)
  then show ?thesis
    using assms by (simp add: Cancel_def FindJob_def run_prims GetJobByID_def)
qed

lemma Create_identity: "run_state (Create E svc ident inp) w = (Inr out, w') \<Longrightarrow> identity_valid ident"
  by (auto simp: Create_def split: if_splits)

text \<open>
  C38 (roundtrip, refuted in the code): the \<^verbatim>\<open>job_id\<close> a tool returns cannot be given to
  the other tools. \<^verbatim>\<open>task.create\<close> returns the identifier of the run under that name;
  \<^verbatim>\<open>task.status\<close> and \<^verbatim>\<open>task.cancel\<close> read it as the identifier of a job. So
  when no call fails and identifiers are not reused, the status of the job just created is
  \<^verbatim>\<open>ErrJobRunNotFound\<close>, cancelling it is \<^verbatim>\<open>ErrJobNotFound\<close>.
\<close>

theorem tool_create_id_unusable:
  assumes "reliable E" "uuid_ok (e_uuid E)" "db_wf (w_db w')"
    and create: "run_state (tool_create E C svc ident raw) w = (Inr (ToolRun rsp), w')"
    and fresh: "\<forall>row\<in>set (d_jobs (w_db w')). uuid_String (e_uuid E) (jr_id row) \<noteq> mr_JobID rsp"
    and args: "decodeArgs (um_JobRef C) raw1 = Inr ref1" "jf_JobID ref1 = mr_JobID rsp"
      "decodeArgs (um_RunRef C) raw2 = Inr ref2" "rf_JobID ref2 = mr_JobID rsp"
  shows "fst (run_state (tool_status E C ident raw1) w') = Inl ErrJobRunNotFound \<and>
    fst (run_state (tool_cancel E C ident raw2) w') = Inl ErrJobNotFound"
proof -
  from tool_create_ok [OF create] obtain inp run where run: "run_state (Create E svc ident inp) w = (Inr run, w')"
    and id: "mr_JobID rsp = uuid_String (e_uuid E) (run_id run)" by (auto simp: runToResponse_def)
  have v: "identity_valid ident" by (rule Create_identity [OF run])
  have parse: "ParseJobID (e_uuid E) (mr_JobID rsp) = Inr (run_id run)"
    using assms(2) by (simp add: id)
  have job: "\<forall>row\<in>set (d_jobs (w_db w')). jr_id row \<noteq> run_id run" using fresh id by auto
  then have "\<forall>r\<in>set (d_runs (w_db w')). \<not> (rr_tenant_id r = id_TenantID ident \<and> rr_job_id r = run_id run)"
    using assms(3) unfolding db_wf_def by fastforce
  from service_Status_missing [OF assms(1) v this] Cancel_missing [OF assms(1) v job]
  show ?thesis
    by (auto simp: tool_status_def tool_cancel_def args parse map_result_def split: prod.split)
qed

definition sample_args :: CreateArgs where
  "sample_args = \<lparr>ca_Description = ''report'', ca_ScheduledAt = ''2026-01-01T00:00:00Z'', ca_RecurringIntervalSecond = 0,
     ca_ScheduleType = KindOneOff, ca_RecurrenceRule = '''', ca_LocalTime = '''', ca_TimezoneID = '''',
     ca_OriginalUserText = '''', ca_SideEffecting = False, ca_IdempotencyScope = '''', ca_ParentJobID = '''',
     ca_TriggerOnParentStatus = StatusOther '''', ca_JobType = JobTypeOther ''''\<rparr>"

definition sample_mcp :: mcp_codec where
  "sample_mcp = \<lparr>
     um_CreateArgs = (\<lambda>raw. Inr sample_args),
     um_ListArgs = (\<lambda>raw. Inr \<lparr>la_Limit = 0, la_Offset = 0\<rparr>),
     um_RunRef = (\<lambda>raw. Inr \<lparr>rf_JobID = raw\<rparr>),
     um_JobRef = (\<lambda>raw. Inr \<lparr>jf_JobID = raw, jf_Limit = 0, jf_Offset = 0\<rparr>),
     ma_args = (\<lambda>a. Inr (case a of ArgsRunRef r \<Rightarrow> rf_JobID r | _ \<Rightarrow> ''{}'')),
     ma_result = (\<lambda>v. Inr ''{}''),
     um_map = (\<lambda>b. Inr [])\<rparr>"

theorem tool_create_id_unusable_witness:
  "let svc = \<lparr>svc_quota = True, svc_rejections = True\<rparr> in
   \<exists>rsp w'. run_state (tool_create sample_env sample_mcp svc sample_ident ''{}'') (start_world empty_db) =
       (Inr (ToolRun rsp), w') \<and>
     fst (run_state (tool_status sample_env sample_mcp sample_ident (mr_JobID rsp)) w') = Inl ErrJobRunNotFound \<and>
     fst (run_state (tool_cancel sample_env sample_mcp sample_ident (mr_JobID rsp)) w') = Inl ErrJobNotFound"
proof -
  let ?svc = "\<lparr>svc_quota = True, svc_rejections = True\<rparr>"
  let ?create = "run_state (Create sample_env ?svc sample_ident sample_input) (start_world empty_db)"
  have E: "reliable sample_env" and U: "uuid_ok (e_uuid sample_env)"
    by (simp_all add: reliable_def sample_env_sel canonical_uuid_ok)
  obtain r w' where run: "?create = (r, w')" by fastforce
  have "map jr_id (d_jobs (w_db (snd ?create))) = [1002]" "map rr_id (d_runs (w_db (snd ?create))) \<noteq> []"
    "1002 \<notin> rr_id ` set (d_runs (w_db (snd ?create)))" by code_simp+
  then have ids: "map jr_id (d_jobs (w_db w')) = [1002]" "map rr_id (d_runs (w_db w')) \<noteq> []"
    "1002 \<notin> rr_id ` set (d_runs (w_db w'))" unfolding run by simp_all
  moreover have "d_runs (w_db (start_world empty_db)) = []" by (simp add: start_world_def empty_db_def)
  ultimately have "w_db w' \<noteq> w_db (start_world empty_db)" by auto
  then obtain j jr evs where r: "r = Inr (setSchedule j jr)" and db: "w_db w' = create_db j jr evs (w_db (start_world empty_db))"
    using Create_reliable [OF E run] by (cases r) auto
  let ?rsp = "runToResponse (e_uuid sample_env) UTC (setSchedule j jr)"
  have "create_input (e_uuid sample_env) sample_args = Inr sample_input" by code_simp
  then have tool: "run_state (tool_create sample_env sample_mcp ?svc sample_ident ''{}'') (start_world empty_db) = (Inr (ToolRun ?rsp), w')"
    using run r by (simp add: tool_create_def decodeArgs_def sample_mcp_def map_result_def)
  have wf: "db_wf (w_db w')"
    using step_wf [OF step.Create, of "start_world empty_db" sample_env ?svc sample_ident sample_input] run
    by (simp add: start_world_def empty_db_def db_wf_def)
  have "run_id jr \<noteq> 1002" using ids(3) by (auto simp: db create_db_def)
  then have fresh: "\<forall>row\<in>set (d_jobs (w_db w')). uuid_String (e_uuid sample_env) (jr_id row) \<noteq> mr_JobID ?rsp"
    using ids(1) uuid_String_inj [OF U] by (auto simp: runToResponse_def setSchedule_def map_eq_Cons_conv)
  have "mr_JobID ?rsp \<noteq> ''''"
  proof
    assume "mr_JobID ?rsp = ''''"
    then have "uuid_Parse canonical_uuid '''' = Some (run_id jr)"
      using U by (simp add: runToResponse_def setSchedule_def uuid_ok_def sample_env_sel) (metis)
    moreover have "uuid_Parse canonical_uuid '''' = None" by code_simp
    ultimately show False by simp
  qed
  then have args: "decodeArgs (um_JobRef sample_mcp) (mr_JobID ?rsp) = Inr \<lparr>jf_JobID = mr_JobID ?rsp, jf_Limit = 0, jf_Offset = 0\<rparr>"
    "decodeArgs (um_RunRef sample_mcp) (mr_JobID ?rsp) = Inr \<lparr>rf_JobID = mr_JobID ?rsp\<rparr>"
    by (simp_all add: decodeArgs_def sample_mcp_def)
  from tool_create_id_unusable [OF E U wf tool fresh args(1) _ args(2)] tool show ?thesis by (simp add: Let_def)
qed

end
