(* ===== verification/UserFeature.thy ===== *)
theory UserFeature
  imports AuthTokens TaskStore GoRFC3339
begin

text \<open>
  \<^verbatim>\<open>internal/user\<close>: registration, login and the profile. Third-party code enters as
  the parameter \<open>user_pkg\<close>: bcrypt, whose salt depends on the tick, the binding of a JSON
  body with its validation tags by gin, and \<^verbatim>\<open>strings.ToLower\<close> of text that is not
  ASCII, which the Unicode tables decide.
\<close>

section \<open>The domain (domain.go)\<close>

record User =
  u_id :: UserID
  u_email :: string
  u_passwordHash :: string
  u_displayName :: string
  u_createdAt :: time
  u_updatedAt :: time

record RegisterRequest =
  rq_Email :: string
  rq_Password :: string
  rq_DisplayName :: string

record LoginRequest =
  lq_Email :: string
  lq_Password :: string

record user_pkg =
  bcrypt_DefaultCost :: int
  bcrypt_GenerateFromPassword :: "nat \<Rightarrow> string \<Rightarrow> int \<Rightarrow> string result"
  bcrypt_CompareHashAndPassword :: "string \<Rightarrow> string \<Rightarrow> error option"
  unicode_ToLower :: "string \<Rightarrow> string"
  bind_RegisterRequest :: "string \<Rightarrow> RegisterRequest result"
  bind_LoginRequest :: "string \<Rightarrow> LoginRequest result"

definition lower_byte :: "char \<Rightarrow> char" where
  "lower_byte c = (if 65 \<le> byte c \<and> byte c \<le> 90 then char_of (byte c + 32) else c)"

definition ToLower :: "user_pkg \<Rightarrow> string \<Rightarrow> string" where
  "ToLower P s = (if list_all (\<lambda>c. byte c < 128) s then map lower_byte s else unicode_ToLower P s)"

definition NewUser :: "user_pkg \<Rightarrow> time \<Rightarrow> UserID \<Rightarrow> string \<Rightarrow> string \<Rightarrow> string \<Rightarrow> User result" where
  "NewUser P now newID email passwordHash displayName =
     (let email = ToLower P (TrimSpace email)
      in if email = '''' \<or> CHR ''@'' \<notin> set email then Inl ErrInvalidEmail
         else if passwordHash = '''' then Inl ErrInvalidPassword
         else Inr \<lparr>
           u_id = newID,
           u_email = email,
           u_passwordHash = passwordHash,
           u_displayName = TrimSpace displayName,
           u_createdAt = now,
           u_updatedAt = now\<rparr>)"

definition rehydrate where
  "rehydrate i email passwordHash displayName createdAt updatedAt = \<lparr>
     u_id = i,
     u_email = email,
     u_passwordHash = passwordHash,
     u_displayName = displayName,
     u_createdAt = createdAt,
     u_updatedAt = updatedAt\<rparr>"

definition Rename :: "time \<Rightarrow> string \<Rightarrow> User \<Rightarrow> error option \<times> User" where
  "Rename now newName u =
     (let newName = TrimSpace newName
      in if newName = '''' then (Some ErrInvalidDisplayName, u)
         else (None, u\<lparr>u_displayName := newName, u_updatedAt := now\<rparr>))"

section \<open>Rows (dto_internal.go)\<close>

definition userFromSqlc :: "UserRow \<Rightarrow> User" where
  "userFromSqlc r = rehydrate (ur_id r) (ur_email r) (ur_password_hash r) (ur_display_name r)
     (ur_created_at r) (ur_updated_at r)"

definition userToInsertParams :: "User \<Rightarrow> UserRow" where
  "userToInsertParams u = \<lparr>
     ur_id = u_id u,
     ur_email = u_email u,
     ur_password_hash = u_passwordHash u,
     ur_display_name = u_displayName u,
     ur_created_at = u_createdAt u,
     ur_updated_at = u_updatedAt u\<rparr>"

section \<open>The repository (repo_postgres.go)\<close>

definition user_Save :: "'r env \<Rightarrow> User \<Rightarrow> ('r, unit result) app" where
  "user_Save E u = do {
     r \<leftarrow> db_exec E (InsertUser (userToInsertParams u));
     State_Monad.return (case r of
         Inl e \<Rightarrow> if as_PgError e = Some ''23505'' then Inl ErrEmailAlreadyExists
                  else Inl (Errorf ''insert user'' e)
       | Inr _ \<Rightarrow> Inr ())
   }"

definition user_FindByID :: "'r env \<Rightarrow> UserID \<Rightarrow> ('r, User result) app" where
  "user_FindByID E i = do {
     r \<leftarrow> db_exec E (GetUserByID i);
     State_Monad.return (case r of
         Inl e \<Rightarrow> if err_is e ErrNoRows then Inl ErrUserNotFound
                  else Inl (Errorf ''query user by id'' e)
       | Inr row \<Rightarrow> Inr (userFromSqlc row))
   }"

definition user_FindByEmail :: "'r env \<Rightarrow> string \<Rightarrow> ('r, User result) app" where
  "user_FindByEmail E email = do {
     r \<leftarrow> db_exec E (GetUserByEmail email);
     State_Monad.return (case r of
         Inl e \<Rightarrow> if err_is e ErrNoRows then Inl ErrUserNotFound
                  else Inl (Errorf ''query user by email'' e)
       | Inr row \<Rightarrow> Inr (userFromSqlc row))
   }"

section \<open>Password hashing (hasher_bcrypt.go)\<close>

definition NewBcryptHasher :: "user_pkg \<Rightarrow> int \<Rightarrow> int" where
  "NewBcryptHasher P cost = (if cost = 0 then bcrypt_DefaultCost P else cost)"

definition bcrypt_Hash :: "user_pkg \<Rightarrow> int \<Rightarrow> string \<Rightarrow> ('r, string result) app" where
  "bcrypt_Hash P cost plain = do {
     n \<leftarrow> tick;
     State_Monad.return (wrap_err ''bcrypt hash'' (bcrypt_GenerateFromPassword P n plain cost))
   }"

definition bcrypt_Compare :: "user_pkg \<Rightarrow> string \<Rightarrow> string \<Rightarrow> error option" where
  "bcrypt_Compare P hashed plain = (case bcrypt_CompareHashAndPassword P hashed plain of
       None \<Rightarrow> None
     | Some e \<Rightarrow> Some (if err_is e ErrMismatchedHashAndPassword then ErrInvalidCredentials
                       else Errorf ''bcrypt compare'' e))"

section \<open>The use cases (service.go)\<close>

text \<open>What the service is made of: the hasher's cost and the token manager.\<close>

record user_service =
  us_cost :: int
  us_tokens :: Manager

definition Register ::
  "'r env \<Rightarrow> user_pkg \<Rightarrow> jwt_pkg \<Rightarrow> user_service \<Rightarrow> RegisterRequest \<Rightarrow> ('r, (User \<times> string) result) app" where
  "Register E P J svc inp = do {
     existing \<leftarrow> user_FindByEmail E (rq_Email inp);
     case existing of
       Inr _ \<Rightarrow> State_Monad.return (Inl ErrEmailAlreadyExists)
     | Inl e \<Rightarrow>
         if \<not> err_is e ErrUserNotFound then State_Monad.return (Inl (Errorf ''find by email'' e))
         else do {
           r \<leftarrow> bcrypt_Hash P (us_cost svc) (rq_Password inp);
           case r of
             Inl e \<Rightarrow> State_Monad.return (Inl (Errorf ''hash password'' e))
           | Inr hash \<Rightarrow> do {
               now \<leftarrow> time_Now E;
               i \<leftarrow> uuid_NewV7 E;
               case NewUser P now i (rq_Email inp) hash (rq_DisplayName inp) of
                 Inl e \<Rightarrow> State_Monad.return (Inl e)
               | Inr u \<Rightarrow> do {
                   r \<leftarrow> user_Save E u;
                   case r of
                     Inl e \<Rightarrow> State_Monad.return (Inl (Errorf ''save user'' e))
                   | Inr _ \<Rightarrow> do {
                       r \<leftarrow> Issue E J (us_tokens svc) (uuid_String (e_uuid E) (u_id u));
                       State_Monad.return (case r of
                           Inl e \<Rightarrow> Inl (Errorf ''issue token'' e)
                         | Inr token \<Rightarrow> Inr (u, token))
                     }
                 }
             }
         }
   }"

definition Login ::
  "'r env \<Rightarrow> user_pkg \<Rightarrow> jwt_pkg \<Rightarrow> user_service \<Rightarrow> LoginRequest \<Rightarrow> ('r, (User \<times> string) result) app" where
  "Login E P J svc inp = do {
     r \<leftarrow> user_FindByEmail E (lq_Email inp);
     case r of
       Inl e \<Rightarrow> State_Monad.return
         (Inl (if err_is e ErrUserNotFound then ErrInvalidCredentials else Errorf ''find by email'' e))
     | Inr u \<Rightarrow> (case bcrypt_Compare P (u_passwordHash u) (lq_Password inp) of
           Some _ \<Rightarrow> State_Monad.return (Inl ErrInvalidCredentials)
         | None \<Rightarrow> do {
             r \<leftarrow> Issue E J (us_tokens svc) (uuid_String (e_uuid E) (u_id u));
             State_Monad.return (case r of
                 Inl e \<Rightarrow> Inl (Errorf ''issue token'' e)
               | Inr token \<Rightarrow> Inr (u, token))
           })
   }"

definition GetByID :: "'r env \<Rightarrow> UserID \<Rightarrow> ('r, User result) app" where
  "GetByID E i = user_FindByID E i"

section \<open>HTTP (dto_http.go, handler_http.go)\<close>

record user_response =
  ursp_ID :: UserID
  ursp_Email :: string
  ursp_DisplayName :: string
  ursp_CreatedAt :: string

record authResponse =
  ar_User :: user_response
  ar_Token :: string

text \<open>\<open>loc\<close> is the location the entity's times carry.\<close>

definition toUserResponse :: "Location \<Rightarrow> User \<Rightarrow> user_response" where
  "toUserResponse loc u = \<lparr>
     ursp_ID = u_id u,
     ursp_Email = u_email u,
     ursp_DisplayName = u_displayName u,
     ursp_CreatedAt = Format_RFC3339 loc (u_createdAt u)\<rparr>"

definition toAuthResponse :: "Location \<Rightarrow> User \<Rightarrow> string \<Rightarrow> authResponse" where
  "toAuthResponse loc u token = \<lparr>ar_User = toUserResponse loc u, ar_Token = token\<rparr>"

definition user_writeError :: "error \<Rightarrow> 'b http_response" where
  "user_writeError err =
     (if err_is err ErrInvalidCredentials then http_error 401 ''invalid credentials''
      else if err_is err ErrEmailAlreadyExists then http_error 409 ''email already exists''
      else if err_is err ErrUserNotFound then http_error 404 ''user not found''
      else if err_is err ErrInvalidEmail \<or> err_is err ErrInvalidPassword \<or>
              err_is err ErrInvalidDisplayName
      then http_error 400 (err_text err)
      else http_error 500 ''internal error'')"

definition register_handler :: "'r env \<Rightarrow> user_pkg \<Rightarrow> jwt_pkg \<Rightarrow> user_service \<Rightarrow> string \<Rightarrow>
    ('r, authResponse http_response) app" where
  "register_handler E P J svc body = (case bind_RegisterRequest P body of
       Inl e \<Rightarrow> State_Monad.return (http_error 400 (err_text e))
     | Inr req \<Rightarrow> do {
         r \<leftarrow> Register E P J svc req;
         State_Monad.return (case r of
             Inl e \<Rightarrow> user_writeError e
           | Inr (u, token) \<Rightarrow> http_ok 201 (toAuthResponse UTC u token))
       })"

definition login_handler :: "'r env \<Rightarrow> user_pkg \<Rightarrow> jwt_pkg \<Rightarrow> user_service \<Rightarrow> string \<Rightarrow>
    ('r, authResponse http_response) app" where
  "login_handler E P J svc body = (case bind_LoginRequest P body of
       Inl e \<Rightarrow> State_Monad.return (http_error 400 (err_text e))
     | Inr req \<Rightarrow> do {
         r \<leftarrow> Login E P J svc req;
         State_Monad.return (case r of
             Inl e \<Rightarrow> user_writeError e
           | Inr (u, token) \<Rightarrow> http_ok 200 (toAuthResponse (tz_local (e_tz E)) u token))
       })"

definition me_handler :: "'r env \<Rightarrow> string option \<Rightarrow> ('r, user_response http_response) app" where
  "me_handler E c =
     (let sub = UserIDFromContext c
      in if sub = '''' then State_Monad.return (http_error 401 ''unauthenticated'')
         else (case ParseUserID (e_uuid E) sub of
             Inl _ \<Rightarrow> State_Monad.return (http_error 401 ''invalid subject'')
           | Inr i \<Rightarrow> do {
               r \<leftarrow> GetByID E i;
               State_Monad.return (case r of
                   Inl e \<Rightarrow> user_writeError e
                 | Inr u \<Rightarrow> http_ok 200 (toUserResponse (tz_local (e_tz E)) u))
             }))"

section \<open>What the use cases do to the database\<close>

context db_evolution
begin

lemma user_reads:
  "state_io_rel (on_db R) (user_FindByID E i)"
  "state_io_rel (on_db R) (user_FindByEmail E email)"
  "state_io_rel (on_db R) (bcrypt_Hash P cost plain)"
  "state_io_rel (on_db R) (Issue E J m subject)"
  unfolding user_FindByID_def user_FindByEmail_def bcrypt_Hash_def Issue_def
  by (intro db_intros; simp add: statement_reads db_refl)+

lemma Login: "state_io_rel (on_db R) (Login E P J svc inp)"
  unfolding Login_def by (intro user_reads db_intros)

lemma login_handler: "state_io_rel (on_db R) (login_handler E P J svc body)"
  unfolding login_handler_def by (intro Login db_intros)

lemma me_handler: "state_io_rel (on_db R) (me_handler E c)"
  unfolding me_handler_def GetByID_def by (intro user_reads db_intros)

end

context user_statements
begin

lemma user_Save: "state_io_rel (on_db R) (user_Save E u)"
  unfolding user_Save_def by (intro db_intros InsertUser)

lemma Register: "state_io_rel (on_db R) (Register E P J svc inp)"
  unfolding Register_def by (intro user_Save user_reads db_intros)

lemma register_handler: "state_io_rel (on_db R) (register_handler E P J svc body)"
  unfolding register_handler_def by (intro Register db_intros)

end

lemma user_row_roundtrip: "userFromSqlc (userToInsertParams u) = u"
  by (simp add: userFromSqlc_def userToInsertParams_def rehydrate_def)

definition find_email :: "database \<Rightarrow> string \<Rightarrow> UserRow option" where
  "find_email d email = find (\<lambda>r. ur_email r = email) (d_users d)"

lemma run_FindByEmail:
  "reliable E \<Longrightarrow> run_state (user_FindByEmail E email) w =
     ((case find_email (w_db w) email of None \<Rightarrow> Inl ErrUserNotFound | Some r \<Rightarrow> Inr (userFromSqlc r)),
      w\<lparr>w_tick := Suc (w_tick w)\<rparr>)"
  by (simp add: user_FindByEmail_def run_prims find_email_def GetUserByEmail_def split: option.split)

lemma NewUser_ok:
  assumes "NewUser P now i email hash name = Inr u"
  shows "u_id u = i" "u_email u = ToLower P (TrimSpace email)" "u_passwordHash u = hash" "CHR ''@'' \<in> set (u_email u)"
    "u_displayName u = TrimSpace name" "hash \<noteq> ''''"
  using assms by (auto simp: NewUser_def Let_def split: if_splits)

text \<open>
  A registration stores the row of one new user, whose address is the normalised one and whose hash
  came from bcrypt, or it stores nothing and fails.
\<close>

definition registered :: "user_pkg \<Rightarrow> user_service \<Rightarrow> RegisterRequest \<Rightarrow> User \<Rightarrow> bool" where
  "registered P svc inp u \<longleftrightarrow> u_email u = ToLower P (TrimSpace (rq_Email inp)) \<and> CHR ''@'' \<in> set (u_email u) \<and>
     u_passwordHash u \<noteq> '''' \<and>
     (\<exists>n. bcrypt_GenerateFromPassword P n (rq_Password inp) (us_cost svc) = Inr (u_passwordHash u))"

lemma run_user_Save:
  assumes "run_state (user_Save E u) w = (r, w')"
  shows "(w_db w' = w_db w \<and> (\<exists>e. r = Inl e)) \<or>
    (w_db w' = (w_db w)\<lparr>d_users := d_users (w_db w) @ [userToInsertParams u]\<rparr> \<and>
     ur_email (userToInsertParams u) \<notin> ur_email ` set (d_users (w_db w)))"
  using assms
  by (auto simp: user_Save_def run_prims InsertUser_def split: fault.splits if_splits sum.splits)

lemma run_Register:
  assumes "run_state (Register E P J svc inp) w = (r, w')"
  shows "(w_db w' = w_db w \<and> (\<exists>e. r = Inl e)) \<or>
    (\<exists>u. registered P svc inp u \<and> w_db w' = (w_db w)\<lparr>d_users := d_users (w_db w) @ [userToInsertParams u]\<rparr> \<and>
       u_email u \<notin> ur_email ` set (d_users (w_db w)) \<and> (\<forall>u' tok. r = Inr (u', tok) \<longrightarrow> u' = u))"
proof -
  obtain r1 w1 where 1: "run_state (user_FindByEmail E (rq_Email inp)) w = (r1, w1)" by fastforce
  have w1: "w_db w1 = w_db w"
    using 1 by (auto simp: user_FindByEmail_def run_prims statement_reads split: fault.splits)
  obtain r2 w2 where 2: "run_state (bcrypt_Hash P (us_cost svc) (rq_Password inp)) w1 = (r2, w2)" by fastforce
  then have w2: "w_db w2 = w_db w1" and gen: "\<And>h. r2 = Inr h \<Longrightarrow> \<exists>n. bcrypt_GenerateFromPassword P n (rq_Password inp) (us_cost svc) = Inr h"
    by (auto simp: bcrypt_Hash_def run_prims wrap_err_Inr)
  let ?new = "\<lambda>h. NewUser P (e_now E (w_tick w2)) (e_NewV7 E (Suc (w_tick w2))) (rq_Email inp) h (rq_DisplayName inp)"
  let ?w3 = "w2\<lparr>w_tick := Suc (Suc (w_tick w2))\<rparr>"
  show ?thesis
  proof (cases "\<exists>e h u. r1 = Inl e \<and> err_is e ErrUserNotFound \<and> r2 = Inr h \<and> ?new h = Inr u")
    case False
    then show ?thesis
      using assms w1 w2 by (auto simp: Register_def 1 2 run_prims split: sum.splits if_splits)
  next
    case True
    then obtain e h u where ok: "r1 = Inl e" "err_is e ErrUserNotFound" "r2 = Inr h" "?new h = Inr u" by blast
    have reg: "registered P svc inp u"
      using NewUser_ok [OF ok(4)] gen [OF ok(3)] by (auto simp: registered_def)
    obtain r4 w4 where 4: "run_state (user_Save E u) ?w3 = (r4, w4)" by fastforce
    have "w_db w' = w_db w4" and "(\<exists>e. r4 = Inl e) \<Longrightarrow> \<exists>e. r = Inl e" and "\<forall>u' tok. r = Inr (u', tok) \<longrightarrow> u' = u"
      using assms ok by (auto simp: Register_def 1 2 4 run_prims Issue_def split: sum.splits)
    then show ?thesis using run_user_Save [OF 4] reg w1 w2 by (auto simp: userToInsertParams_def)
  qed
qed

lemma Register_unknown:
  assumes "reliable E" "run_state (Register E P J svc inp) w = (Inr out, w')"
  shows "find_email (w_db w) (rq_Email inp) = None"
  using assms by (auto simp: Register_def run_FindByEmail split: option.splits)

lemma Login_result:
  assumes "reliable E"
  shows "fst (run_state (Login E P J svc inp) w) = (case find_email (w_db w) (lq_Email inp) of
       None \<Rightarrow> Inl ErrInvalidCredentials
     | Some row \<Rightarrow>
         if bcrypt_CompareHashAndPassword P (ur_password_hash row) (lq_Password inp) \<noteq> None
         then Inl ErrInvalidCredentials
         else map_result (Pair (userFromSqlc row)) (wrap_err ''issue token'' (fst (run_state
           (Issue E J (us_tokens svc) (uuid_String (e_uuid E) (ur_id row))) (w\<lparr>w_tick := Suc (w_tick w)\<rparr>)))))"
  by (auto simp: Login_def run_FindByEmail [OF assms] bcrypt_Compare_def userFromSqlc_def rehydrate_def map_result_def
      split: option.split sum.split prod.split)

section \<open>A concrete package\<close>

definition sample_user_pkg :: user_pkg where
  "sample_user_pkg = \<lparr>
     bcrypt_DefaultCost = 10,
     bcrypt_GenerateFromPassword = (\<lambda>n plain cost.
       if length plain > 72 then Inl (ErrText ''bcrypt: password length exceeds 72 bytes'') else Inr (CHR ''h'' # plain)),
     bcrypt_CompareHashAndPassword = (\<lambda>h plain. if h = CHR ''h'' # plain then None else Some ErrMismatchedHashAndPassword),
     unicode_ToLower = (\<lambda>s. s),
     bind_RegisterRequest = (\<lambda>body. Inl (ErrText ''EOF'')),
     bind_LoginRequest = (\<lambda>body. Inl (ErrText ''EOF''))\<rparr>"

definition sample_user_service :: user_service where
  "sample_user_service = \<lparr>us_cost = NewBcryptHasher sample_user_pkg 0, us_tokens = sample_manager\<rparr>"

section \<open>Properties\<close>

text \<open>What bcrypt documents: a hash it generated for a password compares equal with it.\<close>

definition bcrypt_ok :: "user_pkg \<Rightarrow> bool" where
  "bcrypt_ok P \<longleftrightarrow> (\<forall>n plain cost h. bcrypt_GenerateFromPassword P n plain cost = Inr h \<longrightarrow>
     bcrypt_CompareHashAndPassword P h plain = None)"

text \<open>A token can be signed with the manager's secret.\<close>

definition signs :: "jwt_pkg \<Rightarrow> Manager \<Rightarrow> bool" where
  "signs J m \<longleftrightarrow> (\<forall>c. \<exists>raw. jwt_SignedString J (SigningMethodHMAC ''HS256'') c (m_secret m) = Inr raw)"

lemma Issue_total:
  assumes "signs J m"
  shows "\<exists>raw. fst (run_state (Issue E J m s) w) = Inr raw"
proof -
  obtain raw where "jwt_SignedString J (SigningMethodHMAC ''HS256'')
      \<lparr>cl_Issuer = m_issuer m, cl_Subject = s, cl_IssuedAt = jwt_NewNumericDate J (e_now E (w_tick w)),
       cl_ExpiresAt = jwt_NewNumericDate J (e_now E (w_tick w) + m_ttl m)\<rparr> (m_secret m) = Inr raw"
    using assms unfolding signs_def by blast
  then show ?thesis by (simp add: Issue_def run_prims Let_def)
qed



lemma sample_user_ok: "bcrypt_ok sample_user_pkg" "signs sample_jwt m"
  by (simp_all add: bcrypt_ok_def sample_user_pkg_def signs_def sample_jwt_def)

definition ann :: RegisterRequest where
  "ann = \<lparr>rq_Email = ''ann@x.io'', rq_Password = ''secret12'', rq_DisplayName = ''Ann''\<rparr>"

lemma Register_succeeds:
  assumes "reliable E" "signs J (us_tokens svc)" "d_users (w_db w) = []"
    and "bcrypt_GenerateFromPassword P (Suc (w_tick w)) (rq_Password inp) (us_cost svc) = Inr hash"
    and "NewUser P (e_now E (Suc (Suc (w_tick w)))) (e_NewV7 E (Suc (Suc (Suc (w_tick w))))) (rq_Email inp) hash
      (rq_DisplayName inp) = Inr u"
  shows "\<exists>token w'. run_state (Register E P J svc inp) w = (Inr (u, token), w')"
proof -
  let ?w = "w\<lparr>w_tick := Suc (Suc (Suc (Suc (Suc (w_tick w))))), w_db := (w_db w)\<lparr>d_users := [userToInsertParams u]\<rparr>\<rparr>"
  obtain token where "fst (run_state (Issue E J (us_tokens svc) (uuid_String (e_uuid E) (u_id u))) ?w) = Inr token"
    using Issue_total [OF assms(2)] by blast
  then show ?thesis
    using assms
    by (auto simp: Register_def run_FindByEmail find_email_def bcrypt_Hash_def user_Save_def InsertUser_def run_prims
        split: prod.splits)
qed

lemma register_sample:
  assumes "NewUser sample_user_pkg (1767225602 * Second) 1003 (rq_Email inp) (CHR ''h'' # rq_Password inp) (rq_DisplayName inp) = Inr u"
    "length (rq_Password inp) \<le> 72"
  shows "\<exists>token w1. run_state (Register sample_env sample_user_pkg sample_jwt sample_user_service inp)
      (start_world empty_db) = (Inr (u, token), w1) \<and> db_wf (w_db w1)"
proof -
  have E: "reliable sample_env" by (simp add: reliable_def sample_env_def)
  have "\<exists>token w1. run_state (Register sample_env sample_user_pkg sample_jwt sample_user_service inp)
      (start_world empty_db) = (Inr (u, token), w1)"
    by (rule Register_succeeds [OF E sample_user_ok(2)])
      (use assms in \<open>simp_all add: start_world_def empty_db_def sample_env_sel sample_user_pkg_def\<close>)
  then obtain token w1 where run: "run_state (Register sample_env sample_user_pkg sample_jwt sample_user_service inp)
      (start_world empty_db) = (Inr (u, token), w1)" by blast
  have "db_wf (w_db (start_world empty_db))" by (simp add: db_wf_def empty_db_def start_world_def)
  from step_wf [OF step.Register this, of sample_env sample_user_pkg sample_jwt sample_user_service inp] run
  show ?thesis by auto
qed


text \<open>
  C35 (roundtrip, refuted in the code): with an address that is not in normal form the same login
  fails. Registration stores the lower-case, trimmed address, and login looks for the text as it was
  typed; so who registers as \<^verbatim>\<open>Ann@x.io\<close> cannot log in as \<^verbatim>\<open>Ann@x.io\<close>,
  whatever the password.
\<close>

theorem Register_Login_mixed_case:
  assumes "reliable E" "run_state (Register E P J svc inp) w = (Inr (u, token), w1)"
    and "ToLower P (TrimSpace (rq_Email inp)) \<noteq> rq_Email inp"
  shows "fst (run_state (Login E P J svc \<lparr>lq_Email = rq_Email inp, lq_Password = password\<rparr>) w1) =
    Inl ErrInvalidCredentials"
proof -
  from run_Register [OF assms(2)] have "registered P svc inp u"
    and "w_db w1 = (w_db w)\<lparr>d_users := d_users (w_db w) @ [userToInsertParams u]\<rparr>" by auto
  then have "find_email (w_db w1) (rq_Email inp) = None"
    using Register_unknown [OF assms(1,2)] assms(3)
    by (simp add: find_email_def find_append registered_def userToInsertParams_def)
  then show ?thesis by (simp add: Login_result [OF assms(1)])
qed

theorem Register_Login_mixed_case_witness:
  "\<exists>u token w1. run_state (Register sample_env sample_user_pkg sample_jwt sample_user_service
      (ann\<lparr>rq_Email := ''Ann@x.io''\<rparr>)) (start_world empty_db) = (Inr (u, token), w1) \<and>
    fst (run_state (Login sample_env sample_user_pkg sample_jwt sample_user_service
       \<lparr>lq_Email = ''Ann@x.io'', lq_Password = ''secret12''\<rparr>) w1) = Inl ErrInvalidCredentials"
proof -
  let ?inp = "ann\<lparr>rq_Email := ''Ann@x.io''\<rparr>"
  have E: "reliable sample_env" by (simp add: reliable_def sample_env_def)
  have low: "ToLower sample_user_pkg (TrimSpace (rq_Email ?inp)) = ''ann@x.io''" by code_simp
  then obtain u where "NewUser sample_user_pkg (1767225602 * Second) 1003 (rq_Email ?inp) (CHR ''h'' # rq_Password ?inp)
      (rq_DisplayName ?inp) = Inr u"
    by (auto simp: NewUser_def ann_def)
  then obtain token w1 where run: "run_state (Register sample_env sample_user_pkg sample_jwt sample_user_service ?inp)
      (start_world empty_db) = (Inr (u, token), w1)"
    using register_sample [of ?inp u] by (auto simp: ann_def)
  from Register_Login_mixed_case [OF E run] low run show ?thesis by auto
qed

text \<open>
  A login tells nothing about who is registered. When no call fails it refuses with
  \<^verbatim>\<open>ErrInvalidCredentials\<close>, which the handler answers with status 401 and a fixed text,
  exactly when no user has the address or the password does not match, and it never writes.
\<close>

theorem Login_opaque:
  assumes "reliable E" "signs J (us_tokens svc)" "db_wf (w_db w)"
  shows "let (r, w') = run_state (Login E P J svc inp) w in
    w_db w' = w_db w \<and>
    (r = Inl ErrInvalidCredentials \<longleftrightarrow>
       (\<forall>row\<in>set (d_users (w_db w)). ur_email row = lq_Email inp \<longrightarrow>
          bcrypt_CompareHashAndPassword P (ur_password_hash row) (lq_Password inp) \<noteq> None)) \<and>
    (\<forall>e. r = Inl e \<longrightarrow> user_writeError e = http_error 401 ''invalid credentials'')"
proof -
  obtain r w' where run: "run_state (Login E P J svc inp) w = (r, w')" by fastforce
  have keep: "w_db w' = w_db w"
    by (rule untouched_run [OF untouched.Login run])
  have dist: "distinct (map ur_email (d_users (w_db w)))" using assms(3) by (simp add: db_wf_def)
  have r: "r = fst (run_state (Login E P J svc inp) w)" by (simp add: run)
  show ?thesis
  proof (cases "find_email (w_db w) (lq_Email inp)")
    case None
    then have "r = Inl ErrInvalidCredentials" by (simp add: r Login_result [OF assms(1)])
    moreover have "\<forall>row\<in>set (d_users (w_db w)). ur_email row \<noteq> lq_Email inp"
      using None by (simp add: find_email_def find_None_iff)
    ultimately show ?thesis using keep by (simp add: run user_writeError_def)
  next
    case (Some row)
    then have row: "row \<in> set (d_users (w_db w))" "ur_email row = lq_Email inp"
      by (auto simp: find_email_def dest: find_SomeD)
    then have same: "row' = row" if "row' \<in> set (d_users (w_db w))" "ur_email row' = lq_Email inp" for row'
      using that distinct_key_eq [OF dist] by metis
    let ?bad = "bcrypt_CompareHashAndPassword P (ur_password_hash row) (lq_Password inp) \<noteq> None"
    obtain token where "fst (run_state (Issue E J (us_tokens svc) (uuid_String (e_uuid E) (ur_id row)))
        (w\<lparr>w_tick := Suc (w_tick w)\<rparr>)) = Inr token"
      using Issue_total [OF assms(2)] by blast
    then have res: "r = (if ?bad then Inl ErrInvalidCredentials else Inr (userFromSqlc row, token))"
      by (simp add: r Login_result [OF assms(1)] Some map_result_def)
    have iff: "(\<forall>row\<in>set (d_users (w_db w)). ur_email row = lq_Email inp \<longrightarrow>
        bcrypt_CompareHashAndPassword P (ur_password_hash row) (lq_Password inp) \<noteq> None) \<longleftrightarrow> ?bad"
      using row same by blast
    show ?thesis unfolding run Let_def prod.case iff res using keep by (simp add: user_writeError_def)
  qed
qed

theorem Login_opaque_witness:
  "db_wf empty_db \<and> (let (r, w') = run_state (Login sample_env sample_user_pkg sample_jwt sample_user_service
       \<lparr>lq_Email = ''ann@x.io'', lq_Password = ''secret12''\<rparr>) (start_world empty_db) in
     r = Inl ErrInvalidCredentials \<and> w_db w' = empty_db)"
proof -
  have E: "reliable sample_env" by (simp add: reliable_def sample_env_def)
  have wf: "db_wf (w_db (start_world empty_db))" by (simp add: db_wf_def empty_db_def start_world_def)
  from Login_opaque [OF E sample_user_ok(2) wf, where svc = sample_user_service and P = sample_user_pkg and
      inp = "\<lparr>lq_Email = ''ann@x.io'', lq_Password = ''secret12''\<rparr>"]
  show ?thesis using wf by (auto simp: Let_def start_world_def empty_db_def split: prod.splits)
qed

end
