(* ===== verification/Platform.thy ===== *)
theory Platform
  imports Bootstrap
begin

text \<open>
  The platform packages the program is started with: \<^verbatim>\<open>logger\<close>,
  \<^verbatim>\<open>otel\<close>, \<^verbatim>\<open>postgres\<close>, \<^verbatim>\<open>redis\<close> and the server of
  \<^verbatim>\<open>httpserver\<close>. The libraries they configure (zap, OpenTelemetry, pgx, go-redis,
  net/http) are the parameter \<open>libs\<close>: what their constructors answer. A constructor runs
  over the list of the resources that are open, which it opens and closes.
\<close>

datatype resource = ResTracer | ResPool | ResRedis

type_synonym 'a startup = "(resource list, 'a) state"

definition acquire :: "resource \<Rightarrow> unit startup" where
  "acquire r = do { rs \<leftarrow> State_Monad.get; State_Monad.set (r # rs) }"

definition release :: "resource \<Rightarrow> unit startup" where
  "release r = do { rs \<leftarrow> State_Monad.get; State_Monad.set (removeAll r rs) }"

lemma run_acquire: "run_state (acquire r) rs = ((), r # rs)"
  by (simp add: acquire_def)

lemma run_release: "run_state (release r) rs = ((), removeAll r rs)"
  by (simp add: release_def)

lemmas run_resources = run_acquire run_release

section \<open>Configurations of the libraries\<close>

datatype Level = DebugLevel | InfoLevel | WarnLevel | ErrorLevel

datatype time_encoder = ISO8601TimeEncoder | OtherTimeEncoder string

datatype level_encoder = LowercaseLevelEncoder | OtherLevelEncoder string

record encoder_config =
  ec_TimeKey :: string
  ec_EncodeTime :: time_encoder
  ec_MessageKey :: string
  ec_LevelKey :: string
  ec_CallerKey :: string
  ec_EncodeLevel :: level_encoder

record zap_config =
  zc_Level :: Level
  zc_Development :: bool
  zc_Encoding :: string
  zc_EncoderConfig :: encoder_config
  zc_OutputPaths :: "string list"
  zc_ErrorOutputPaths :: "string list"
  zc_Stacktrace :: Level

record pgx_config =
  pgx_DSN :: string
  pgx_MaxConns :: int
  pgx_MinConns :: int
  pgx_HealthCheckPeriod :: duration
  pgx_MaxConnLifetime :: duration

record libs =
  lib_NewProductionEncoderConfig :: encoder_config
  lib_zap_Build :: "zap_config \<Rightarrow> error option"
  lib_otlptracegrpc_New :: "string \<Rightarrow> error option"
  lib_resource_New :: "string \<Rightarrow> error option"
  lib_pgx_ParseConfig :: "string \<Rightarrow> pgx_config result"
  lib_pgx_NewWithConfig :: "pgx_config \<Rightarrow> error option"
  lib_pool_Ping :: "pgx_config \<Rightarrow> error option"
  lib_redis_Ping :: "RedisConfig \<Rightarrow> error option"

section \<open>Logger (logger.go)\<close>

definition parseLevel :: "string \<Rightarrow> Level result" where
  "parseLevel s =
     (if s = ''debug'' then Inr DebugLevel
      else if s = '''' \<or> s = ''info'' then Inr InfoLevel
      else if s = ''warn'' \<or> s = ''warning'' then Inr WarnLevel
      else if s = ''error'' then Inr ErrorLevel
      else Inl (ErrText (''unknown log level: '' @ s)))"

definition encoderConfig :: "libs \<Rightarrow> encoder_config" where
  "encoderConfig L = (lib_NewProductionEncoderConfig L)\<lparr>
     ec_TimeKey := ''ts'',
     ec_EncodeTime := ISO8601TimeEncoder,
     ec_MessageKey := ''msg'',
     ec_LevelKey := ''level'',
     ec_CallerKey := ''caller'',
     ec_EncodeLevel := LowercaseLevelEncoder\<rparr>"

text \<open>A logger is the configuration it was built from.\<close>

definition logger_New :: "libs \<Rightarrow> LoggerConfig \<Rightarrow> zap_config result" where
  "logger_New L cfg = (case parseLevel (log_Level cfg) of
       Inl err \<Rightarrow> Inl err
     | Inr level \<Rightarrow>
         (let encoding = (if log_Encoding cfg = '''' then ''json'' else log_Encoding cfg);
              zcfg = \<lparr>
                zc_Level = level,
                zc_Development = False,
                zc_Encoding = encoding,
                zc_EncoderConfig = encoderConfig L,
                zc_OutputPaths = [''stdout''],
                zc_ErrorOutputPaths = [''stderr''],
                zc_Stacktrace = ErrorLevel\<rparr>
          in case lib_zap_Build L zcfg of
               Some err \<Rightarrow> Inl (Errorf ''build logger'' err)
             | None \<Rightarrow> Inr zcfg))"

section \<open>Tracing (tracer.go)\<close>

text \<open>The shutdown function \<^verbatim>\<open>Setup\<close> returns: the no-op, or the tracer provider's.\<close>

datatype ShutdownFunc = NoopShutdown | TracerShutdown

definition otel_Setup :: "libs \<Rightarrow> OTelConfig \<Rightarrow> ShutdownFunc result startup" where
  "otel_Setup L cfg =
     (if \<not> otel_Enabled cfg then State_Monad.return (Inr NoopShutdown)
      else case lib_otlptracegrpc_New L (otel_Endpoint cfg) of
        Some err \<Rightarrow> State_Monad.return (Inl (Errorf ''otlp exporter'' err))
      | None \<Rightarrow> (case lib_resource_New L (otel_ServiceName cfg) of
            Some err \<Rightarrow> State_Monad.return (Inl (Errorf ''otel resource'' err))
          | None \<Rightarrow> do {
              acquire ResTracer;
              State_Monad.return (Inr TracerShutdown)
            }))"

section \<open>Database and Redis clients (postgres.go, redis.go)\<close>

definition postgres_New :: "libs \<Rightarrow> DBConfig \<Rightarrow> pgx_config result startup" where
  "postgres_New L cfg = (case lib_pgx_ParseConfig L (dbc_DSN cfg) of
       Inl err \<Rightarrow> State_Monad.return (Inl (Errorf ''parse pg dsn'' err))
     | Inr pcfg \<Rightarrow>
         (let pcfg = (if dbc_MaxConns cfg > 0 then pcfg\<lparr>pgx_MaxConns := dbc_MaxConns cfg\<rparr> else pcfg);
              pcfg = (if dbc_MinConns cfg > 0 then pcfg\<lparr>pgx_MinConns := dbc_MinConns cfg\<rparr> else pcfg);
              pcfg = pcfg\<lparr>pgx_HealthCheckPeriod := 30 * Second, pgx_MaxConnLifetime := Hour_ns\<rparr>
          in case lib_pgx_NewWithConfig L pcfg of
               Some err \<Rightarrow> State_Monad.return (Inl (Errorf ''create pgxpool'' err))
             | None \<Rightarrow> do {
                 acquire ResPool;
                 case lib_pool_Ping L pcfg of
                   Some err \<Rightarrow> do {
                     release ResPool;
                     State_Monad.return (Inl (Errorf ''ping postgres'' err))
                   }
                 | None \<Rightarrow> State_Monad.return (Inr pcfg)
               }))"

definition redis_New :: "libs \<Rightarrow> RedisConfig \<Rightarrow> RedisConfig result startup" where
  "redis_New L cfg = do {
     acquire ResRedis;
     case lib_redis_Ping L cfg of
       Some err \<Rightarrow> do {
         release ResRedis;
         State_Monad.return (Inl (Errorf ''ping redis'' err))
       }
     | None \<Rightarrow> State_Monad.return (Inr cfg)
   }"

section \<open>The HTTP server (server.go)\<close>

record Server =
  srv_Addr :: string
  srv_ReadHeaderTimeout :: duration
  srv_ReadTimeout :: duration
  srv_WriteTimeout :: duration
  srv_IdleTimeout :: duration

definition Wrap :: "HTTPConfig \<Rightarrow> Server" where
  "Wrap cfg = \<lparr>
     srv_Addr = '':'' @ Itoa (http_Port cfg),
     srv_ReadHeaderTimeout = 5 * Second,
     srv_ReadTimeout = 30 * Second,
     srv_WriteTimeout = 30 * Second,
     srv_IdleTimeout = 120 * Second\<rparr>"

definition http_ErrServerClosed :: error where
  "http_ErrServerClosed = ErrText ''http: Server closed''"

text \<open>
  \<open>err\<close> is what \<^verbatim>\<open>ListenAndServe\<close> returned, which it does only with an error;
  the result is what \<^verbatim>\<open>Start\<close> returns.
\<close>

definition Start :: "error \<Rightarrow> error option" where
  "Start err = (if \<not> err_is err http_ErrServerClosed then Some (Errorf ''http server'' err) else None)"

end
