(* ===== verification/HttpServer.thy ===== *)
theory HttpServer
  imports Platform
begin

text \<open>
  \<^verbatim>\<open>internal/platform/httpserver\<close>, \<^verbatim>\<open>httperr\<close>, the handlers of
  \<^verbatim>\<open>internal/platform/metrics\<close> and the routes that \<^verbatim>\<open>NewApp\<close> and
  \<^verbatim>\<open>wireFeatures\<close> register: the whole HTTP interface, from a request to its response,
  request identifier and access log line. The router of gin, the random request identifier, the text
  format of Prometheus and the embedded files are the parameter \<open>gin_pkg\<close>. The recovery
  middleware has nothing to do here, since a handler of the model returns.
\<close>

section \<open>Error envelope (httperr.go)\<close>

record Response =
  er_Error :: string
  er_Code :: string

definition httperr_JSON :: "int \<Rightarrow> string \<Rightarrow> int \<times> Response" where
  "httperr_JSON status msg = (status, \<lparr>er_Error = msg, er_Code = ''''\<rparr>)"

definition httperr_JSONWithCode :: "int \<Rightarrow> string \<Rightarrow> string \<Rightarrow> int \<times> Response" where
  "httperr_JSONWithCode status code msg = (status, \<lparr>er_Error = msg, er_Code = code\<rparr>)"

definition BadRequest :: "string \<Rightarrow> int \<times> Response" where "BadRequest msg = httperr_JSON 400 msg"
definition Unauthorized :: "string \<Rightarrow> int \<times> Response" where "Unauthorized msg = httperr_JSON 401 msg"
definition Forbidden :: "string \<Rightarrow> int \<times> Response" where "Forbidden msg = httperr_JSON 403 msg"
definition NotFound :: "string \<Rightarrow> int \<times> Response" where "NotFound msg = httperr_JSON 404 msg"
definition Conflict :: "string \<Rightarrow> int \<times> Response" where "Conflict msg = httperr_JSON 409 msg"
definition Internal :: "string \<Rightarrow> int \<times> Response" where "Internal msg = httperr_JSON 500 msg"

section \<open>Requests and replies\<close>

record http_request =
  hr_Method :: string
  hr_Path :: string
  hr_Header :: "string \<Rightarrow> string"
  hr_Query :: "string \<Rightarrow> string"
  hr_Body :: string
  hr_ClientIP :: string

datatype page =
    ApiPage api_response
  | HealthPage "(string \<times> string) list"
  | MetricsPage string
  | DataPage string string
  | RedirectPage string
  | EmptyPage

record reply =
  rp_status :: int
  rp_page :: page
  rp_headers :: "(string \<times> string) list"

type_synonym route = "string \<times> string"

text \<open>
  \<open>gin_find\<close> is the router: given the registered routes, a method and a path, the route that
  matches with its path parameters, or the status it answers itself with (not found, a redirect).
\<close>

record gin_pkg =
  gin_find :: "route list \<Rightarrow> string \<Rightarrow> string \<Rightarrow> int + route \<times> (string \<Rightarrow> string)"
  gin_NewString :: "nat \<Rightarrow> string"
  gin_promhttp :: "metric list \<Rightarrow> string"
  gin_ReadFile :: "string \<Rightarrow> string option"

text \<open>What the program relies on: the router finds only what was registered.\<close>

definition gin_sound :: "gin_pkg \<Rightarrow> bool" where
  "gin_sound G \<longleftrightarrow> (\<forall>routes m p r ps. gin_find G routes m p = Inr (r, ps) \<longrightarrow> r \<in> set routes)"

abbreviation reply_of :: "int \<Rightarrow> page \<Rightarrow> reply" where
  "reply_of s p \<equiv> \<lparr>rp_status = s, rp_page = p, rp_headers = []\<rparr>"

type_synonym 'r route_handler = "http_request \<Rightarrow> (string \<Rightarrow> string) \<Rightarrow> ('r, reply) app"

section \<open>Handlers of the platform (metrics.go, demo.go)\<close>

definition Health :: "'r route_handler" where
  "Health rq ps = State_Monad.return (reply_of 200 (HealthPage [(''status'', ''ok'')]))"

definition metrics_Handler :: "gin_pkg \<Rightarrow> 'r route_handler" where
  "metrics_Handler G rq ps = do {
     w \<leftarrow> State_Monad.get;
     State_Monad.return (reply_of 200 (MetricsPage (gin_promhttp G (w_metrics w))))
   }"

definition demoAsset :: "gin_pkg \<Rightarrow> string \<Rightarrow> string \<Rightarrow> 'r route_handler" where
  "demoAsset G name contentType rq ps = (case gin_ReadFile G name of
       None \<Rightarrow> State_Monad.return (reply_of 404 EmptyPage)
     | Some content \<Rightarrow> State_Monad.return (reply_of 200 (DataPage contentType content)))"

definition demo_redirect :: "'r route_handler" where
  "demo_redirect rq ps = State_Monad.return (reply_of 307 (RedirectPage ''/demo/''))"

definition RegisterDemo :: "gin_pkg \<Rightarrow> (route \<times> 'r route_handler) list" where
  "RegisterDemo G = [
     ((''GET'', ''/''), demo_redirect),
     ((''GET'', ''/demo''), demo_redirect),
     ((''GET'', ''/demo/''), demoAsset G ''demo/index.html'' ''text/html; charset=utf-8''),
     ((''GET'', ''/demo/app.css''), demoAsset G ''demo/app.css'' ''text/css; charset=utf-8''),
     ((''GET'', ''/demo/app.js''), demoAsset G ''demo/app.js'' ''text/javascript; charset=utf-8'')]"

section \<open>Routes of the features (routes.go)\<close>

fun api_status :: "api_response \<Rightarrow> int" where
  "api_status (TaskResponse r) = rs_status r"
| "api_status (AuthResponse r) = rs_status r"
| "api_status (ProfileResponse r) = rs_status r"

text \<open>A route of a feature: the call it makes of a request and its path parameters.\<close>

definition user_routes :: "string \<Rightarrow> (route \<times> (http_request \<Rightarrow> (string \<Rightarrow> string) \<Rightarrow> api_call)) list" where
  "user_routes rg = [
     ((''POST'', rg @ ''/auth/register''), \<lambda>rq ps. RegisterCall (hr_Body rq)),
     ((''POST'', rg @ ''/auth/login''), \<lambda>rq ps. LoginCall (hr_Body rq)),
     ((''GET'', rg @ ''/users/me''), \<lambda>rq ps. MeCall (hr_Header rq ''Authorization''))]"

definition task_routes :: "string \<Rightarrow> (route \<times> (http_request \<Rightarrow> (string \<Rightarrow> string) \<Rightarrow> api_call)) list" where
  "task_routes rg =
     (let call = \<lambda>f rq ps. TaskCall (hr_Header rq ''Authorization'') (f rq ps)
      in [
     ((''POST'', rg @ ''/jobs''), call (\<lambda>rq ps. PostJobs (hr_Body rq))),
     ((''GET'', rg @ ''/jobs''), call (\<lambda>rq ps. GetJobs (hr_Query rq ''limit'') (hr_Query rq ''offset''))),
     ((''GET'', rg @ ''/jobs/:id/runs''),
       call (\<lambda>rq ps. GetJobRuns (ps ''id'') (hr_Query rq ''limit'') (hr_Query rq ''offset''))),
     ((''GET'', rg @ ''/jobs/:id''), call (\<lambda>rq ps. GetJob (ps ''id''))),
     ((''POST'', rg @ ''/jobs/:id/cancel''), call (\<lambda>rq ps. PostJobCancel (ps ''id''))),
     ((''GET'', rg @ ''/runs/:id/events''), call (\<lambda>rq ps. GetRunEvents (ps ''id'')))])"

definition feature_handler :: "'r env \<Rightarrow> packages \<Rightarrow> Config \<Rightarrow>
    (http_request \<Rightarrow> (string \<Rightarrow> string) \<Rightarrow> api_call) \<Rightarrow> 'r route_handler" where
  "feature_handler E P cfg call rq ps = do {
     r \<leftarrow> wireFeatures E P cfg (call rq ps);
     State_Monad.return (reply_of (api_status r) (ApiPage r))
   }"

text \<open>Everything \<^verbatim>\<open>NewApp\<close> registers, in its order.\<close>

definition app_routes :: "'r env \<Rightarrow> packages \<Rightarrow> Config \<Rightarrow> gin_pkg \<Rightarrow> (route \<times> 'r route_handler) list" where
  "app_routes E P cfg G =
     [((''GET'', ''/healthz''), Health), ((''GET'', ''/metrics''), metrics_Handler G)] @
     RegisterDemo G @
     map (\<lambda>(r, call). (r, feature_handler E P cfg call))
       (user_routes ''/api/v1'' @ task_routes ''/api/v1'')"

section \<open>Middleware and the engine (middleware.go, server.go)\<close>

definition HeaderRequestID :: string where "HeaderRequestID = ''X-Request-Id''"

text \<open>
  \<open>next\<close> is the rest of the chain, given the request identifier stored in the context; the
  header is on the response whatever it answers.
\<close>

definition RequestIDMiddleware ::
  "gin_pkg \<Rightarrow> http_request \<Rightarrow> (string \<Rightarrow> ('r, reply \<times> 'l) app) \<Rightarrow> ('r, reply \<times> 'l) app" where
  "RequestIDMiddleware G rq next = do {
     rid \<leftarrow> (if hr_Header rq HeaderRequestID = ''''
       then do { n \<leftarrow> tick; State_Monad.return (gin_NewString G n) }
       else State_Monad.return (hr_Header rq HeaderRequestID));
     (rp, l) \<leftarrow> next rid;
     State_Monad.return (rp\<lparr>rp_headers := (HeaderRequestID, rid) # rp_headers rp\<rparr>, l)
   }"

record access_log =
  al_method :: string
  al_path :: string
  al_status :: int
  al_latency :: duration
  al_client_ip :: string
  al_request_id :: string

definition ZapLoggerMiddleware ::
  "'r env \<Rightarrow> http_request \<Rightarrow> ('r, reply) app \<Rightarrow> string \<Rightarrow> ('r, reply \<times> access_log) app" where
  "ZapLoggerMiddleware E rq next rid = do {
     start \<leftarrow> time_Now E;
     rp \<leftarrow> next;
     now \<leftarrow> time_Now E;
     State_Monad.return (rp, \<lparr>
       al_method = hr_Method rq,
       al_path = hr_Path rq,
       al_status = rp_status rp,
       al_latency = time_Sub now start,
       al_client_ip = hr_ClientIP rq,
       al_request_id = rid\<rparr>)
   }"

definition route_request ::
  "gin_pkg \<Rightarrow> (route \<times> 'r route_handler) list \<Rightarrow> http_request \<Rightarrow> ('r, reply) app" where
  "route_request G routes rq = (case gin_find G (map fst routes) (hr_Method rq) (hr_Path rq) of
       Inl status \<Rightarrow> State_Monad.return (reply_of status EmptyPage)
     | Inr (r, ps) \<Rightarrow> (case map_of routes r of
           None \<Rightarrow> State_Monad.return (reply_of 404 EmptyPage)
         | Some handler \<Rightarrow> handler rq ps))"

definition ServeHTTP ::
  "'r env \<Rightarrow> packages \<Rightarrow> Config \<Rightarrow> gin_pkg \<Rightarrow> http_request \<Rightarrow> ('r, reply \<times> access_log) app" where
  "ServeHTTP E P cfg G rq =
     RequestIDMiddleware G rq (ZapLoggerMiddleware E rq (route_request G (app_routes E P cfg G) rq))"

section \<open>What a request does to the database\<close>

text \<open>A registered handler calls a feature or only reads.\<close>

lemma app_routes_cases:
  assumes "(r, handler) \<in> set (app_routes E P cfg G)"
  obtains call where "(r, call) \<in> set (user_routes ''/api/v1'' @ task_routes ''/api/v1'')"
      "handler = feature_handler E P cfg call"
  | "\<And>rq ps w. snd (run_state (handler rq ps) w) = w"
proof -
  have quiet: "snd (run_state (Health rq ps) w) = w" "snd (run_state (metrics_Handler G rq ps) w) = w"
    "snd (run_state (demo_redirect rq ps) w) = w" "snd (run_state (demoAsset G n t rq ps) w) = w" for rq ps n t w
    by (simp_all add: Health_def metrics_Handler_def demo_redirect_def demoAsset_def split: option.split)
  have split: "(r, h) \<in> set (xs @ map (\<lambda>(r, c). (r, f c)) ys) \<Longrightarrow>
      (r, h) \<in> set xs \<or> (\<exists>c. (r, c) \<in> set ys \<and> h = f c)"
    for h :: "'x route_handler" and xs f and ys :: "(route \<times> (http_request \<Rightarrow> (string \<Rightarrow> string) \<Rightarrow> api_call)) list"
    by auto
  from split [OF assms [unfolded app_routes_def append_assoc [symmetric]]] show thesis
  proof (elim disjE exE conjE)
    assume "(r, handler) \<in> set ([((''GET'', ''/healthz''), Health), ((''GET'', ''/metrics''), metrics_Handler G)] @ RegisterDemo G)"
    then have "handler \<in> {Health, metrics_Handler G, demo_redirect} \<union> range (\<lambda>(n, t). demoAsset G n t)"
      by (auto simp: RegisterDemo_def)
    then show thesis by (intro that(2)) (auto simp: quiet)
  qed (rule that(1))
qed

context api_statements
begin

lemma app_route_handler:
  assumes "(r, handler) \<in> set (app_routes E P cfg G)"
  shows "state_io_rel (on_db R) (handler rq ps)"
  using assms
proof (cases rule: app_routes_cases)
  case (1 call)
  then show ?thesis by (simp add: feature_handler_def) (intro db_intros wireFeatures)
next
  case 2
  then show ?thesis by (intro io_same_db) simp
qed

lemma route_request: "state_io_rel (on_db R) (route_request G (app_routes E P cfg G) rq)"
proof -
  have "state_io_rel (on_db R) (handler rq ps)" if "map_of (app_routes E P cfg G) r = Some handler" for r handler ps
    using that by (rule app_route_handler [OF map_of_SomeD])
  then show ?thesis
    by (auto simp: route_request_def world.io_return split: sum.split option.split)
qed

lemma ServeHTTP: "state_io_rel (on_db R) (ServeHTTP E P cfg G rq)"
  unfolding ServeHTTP_def RequestIDMiddleware_def ZapLoggerMiddleware_def
  by (intro db_intros route_request)

end

section \<open>Who may change something\<close>

text \<open>The bearer header of a call that goes through the middleware.\<close>

fun call_header :: "api_call \<Rightarrow> string option" where
  "call_header (TaskCall header route) = Some header"
| "call_header (MeCall header) = Some header"
| "call_header _ = None"

text \<open>A token the manager of the configuration signed that has not expired at an instant.\<close>

definition authentic :: "jwt_pkg \<Rightarrow> Config \<Rightarrow> time \<Rightarrow> string \<Rightarrow> bool" where
  "authentic J cfg now header \<longleftrightarrow> (\<exists>raw h c. header = bearerPrefix @ raw \<and>
     jwt_signed J (SigningMethodHMAC h) c (jwtc_Secret (cfg_JWT cfg)) raw \<and> now < cl_ExpiresAt c)"

definition unchanged :: "'r world \<Rightarrow> 'r world \<Rightarrow> bool" where
  "unchanged w w' \<longleftrightarrow> w_db w' = w_db w \<and> w_redis w' = w_redis w"

lemma wireFeatures_guard:
  assumes "jwt_sound (pk_jwt P)" "run_state (wireFeatures E P cfg call) w = (r, w')" "call_header call = Some header"
  shows "api_status r = 401 \<and> unchanged w w' \<or> authentic (pk_jwt P) cfg (e_now E (w_tick w)) header"
proof -
  have sec: "m_secret (NewManager (cfg_JWT cfg)) = jwtc_Secret (cfg_JWT cfg)" "e_now (wire_env E cfg) = e_now E"
    by (simp_all add: NewManager_def wire_env_def)
  show ?thesis
  proof (cases call)
    case (TaskCall h route)
    obtain r' where "run_state (RegisterRoutes (wire_env E cfg) \<lparr>svc_quota = True, svc_rejections = True\<rparr>
        \<lparr>th_resolver = wire_resolver (e_uuid (wire_env E cfg)), th_bind = pk_bind P\<rparr> (pk_jwt P)
        (NewManager (cfg_JWT cfg)) h route) w = (r', w')" "r = TaskResponse r'"
      using assms(2) TaskCall by (auto simp: wireFeatures_def Let_def split: prod.splits)
    then show ?thesis
      using Middleware_guard [OF assms(1)] assms(3) TaskCall
      unfolding RegisterRoutes_def authentic_def unchanged_def by (fastforce simp: sec)
  next
    case (MeCall h)
    obtain r' where "run_state (Middleware (wire_env E cfg) (pk_jwt P) (NewManager (cfg_JWT cfg)) h
        (me_handler (wire_env E cfg))) w = (r', w')" "r = ProfileResponse r'"
      using assms(2) MeCall by (auto simp: wireFeatures_def Let_def split: prod.splits)
    then show ?thesis
      using Middleware_guard [OF assms(1)] assms(3) MeCall
      unfolding authentic_def unchanged_def by (fastforce simp: sec)
  qed (use assms(3) in simp_all)
qed

text \<open>The two routes that anybody may write through.\<close>

definition auth_routes :: "route list" where
  "auth_routes = [(''POST'', ''/api/v1/auth/register''), (''POST'', ''/api/v1/auth/login'')]"

lemma feature_header:
  "list_all (\<lambda>(r, call). r \<in> set auth_routes \<or> call_header (call rq ps) = Some (hr_Header rq ''Authorization''))
     (user_routes ''/api/v1'' @ task_routes ''/api/v1'')"
  by (simp add: user_routes_def task_routes_def auth_routes_def Let_def)

lemma app_route_guard:
  assumes "jwt_sound (pk_jwt P)" "(r, handler) \<in> set (app_routes E P cfg G)" "r \<notin> set auth_routes"
    "run_state (handler rq ps) w = (rp, w')"
  shows "unchanged w w' \<or> authentic (pk_jwt P) cfg (e_now E (w_tick w)) (hr_Header rq ''Authorization'')"
  using assms(2)
proof (cases rule: app_routes_cases)
  case (1 call)
  have "call_header (call rq ps) = Some (hr_Header rq ''Authorization'')"
    using feature_header [of rq ps] 1(1) assms(3) unfolding list_all_iff by blast
  moreover obtain a where "run_state (wireFeatures E P cfg (call rq ps)) w = (a, w')"
    using assms(4) by (auto simp: 1(2) feature_handler_def split: prod.splits)
  ultimately show ?thesis using wireFeatures_guard [OF assms(1)] by blast
next
  case 2
  show ?thesis using assms(4) 2 [of rq ps w] by (simp add: unchanged_def)
qed

lemma run_RequestIDMiddleware:
  assumes "run_state (RequestIDMiddleware G rq next) w = ((rp, l), w')"
  obtains rid rp0 w0 where "run_state (next rid) w0 = ((rp0, l), w')" "unchanged w w0"
    "w_tick w \<le> w_tick w0" "w_tick w0 \<le> Suc (w_tick w)"
    "rid = (if hr_Header rq HeaderRequestID = '''' then gin_NewString G (w_tick w) else hr_Header rq HeaderRequestID)"
    "rp = rp0\<lparr>rp_headers := (HeaderRequestID, rid) # rp_headers rp0\<rparr>"
proof -
  let ?rid = "if hr_Header rq HeaderRequestID = '''' then gin_NewString G (w_tick w) else hr_Header rq HeaderRequestID"
  let ?w0 = "if hr_Header rq HeaderRequestID = '''' then w\<lparr>w_tick := Suc (w_tick w)\<rparr> else w"
  obtain rp0 where "run_state (next ?rid) ?w0 = ((rp0, l), w')"
    "rp = rp0\<lparr>rp_headers := (HeaderRequestID, ?rid) # rp_headers rp0\<rparr>"
    using assms by (cases "hr_Header rq HeaderRequestID = ''''")
      (auto simp: RequestIDMiddleware_def run_prims split: prod.splits)
  then show thesis using that [of ?rid ?w0 rp0] by (simp add: unchanged_def)
qed

lemma run_ZapLoggerMiddleware:
  assumes "run_state (ZapLoggerMiddleware E rq next rid) w = ((rp, l), w')"
  obtains w1 where "run_state next (w\<lparr>w_tick := Suc (w_tick w)\<rparr>) = (rp, w1)" "unchanged w1 w'"
    "al_request_id l = rid" "al_status l = rp_status rp" "al_method l = hr_Method rq" "al_path l = hr_Path rq"
  using assms by (auto simp: ZapLoggerMiddleware_def run_prims unchanged_def split: prod.splits)

section \<open>A request without a token\<close>

definition sample_packages :: packages where
  "sample_packages = \<lparr>pk_jwt = sample_jwt, pk_user = sample_user_pkg, pk_bind = (\<lambda>body. Inr sample_request),
     pk_mcp = sample_mcp\<rparr>"

definition sample_gin :: gin_pkg where
  "sample_gin = \<lparr>
     gin_find = (\<lambda>routes m p. if (m, p) \<in> set routes then Inr ((m, p), \<lambda>_. '''') else Inl 404),
     gin_NewString = (\<lambda>n. ''req-'' @ Itoa (int n)),
     gin_promhttp = (\<lambda>ms. Itoa (int (length ms))),
     gin_ReadFile = (\<lambda>name. if name = ''demo/index.html'' then Some ''<html/>'' else None)\<rparr>"

definition anonymous_post :: http_request where
  "anonymous_post = \<lparr>hr_Method = ''POST'', hr_Path = ''/api/v1/jobs'', hr_Header = (\<lambda>_. ''''),
     hr_Query = (\<lambda>_. ''''), hr_Body = ''{}'', hr_ClientIP = ''127.0.0.1''\<rparr>"

section \<open>Properties\<close>



end
