(* ===== verification/RunLimits.thy ===== *)
theory RunLimits
  imports HttpServer
begin

text \<open>
  The limit of concurrent runs: \<open>bounded\<close> says that no tenant gets more running runs than it
  had or than its quota allows. Every statement that makes no run running respects it by itself; the
  claim of a slot respects it for the tenant of the stored run, which is why the worker's
  handler is followed from the row it read to the claim.
\<close>

section \<open>The relation\<close>

definition bounded :: "'r env \<Rightarrow> database \<Rightarrow> database \<Rightarrow> bool" where
  "bounded E d d' \<longleftrightarrow> d_quotas d' = d_quotas d \<and> (db_wf d \<longrightarrow> db_wf d' \<and>
     (\<forall>t. int (running_count d' t) \<le>
       max (int (running_count d t)) (MaxConcurrentRuns (tenant_quota E d t))))"

lemma bounded_refl [simp]: "bounded E d d"
  by (simp add: bounded_def)

lemma bounded_trans:
  assumes "bounded E d d'" "bounded E d' d''"
  shows "bounded E d d''"
proof -
  have "tenant_quota E d' t = tenant_quota E d t" for t
    using assms(1) by (simp add: bounded_def tenant_quota_def)
  then show ?thesis using assms unfolding bounded_def by (auto intro: order_trans)
qed

lemma boundedI:
  assumes "d_quotas d' = d_quotas d" "db_step d d'" "\<And>t. running_count d' t \<le> running_count d t"
  shows "bounded E d d'"
  using assms by (auto simp: bounded_def db_step_def le_max_iff_disj)

lemma running_count_runs: "d_runs d' = d_runs d \<Longrightarrow> running_count d' t \<le> running_count d t"
  by (simp add: running_count_def running_runs_def)

lemma running_count_append:
  "rr_status r \<noteq> StatusRunning \<Longrightarrow> running_count (d\<lparr>d_runs := d_runs d @ [r]\<rparr>) t \<le> running_count d t"
  by (simp add: running_count_def running_runs_def)

lemma running_count_update:
  assumes "\<And>r. P r \<Longrightarrow> rr_status (f r) \<noteq> StatusRunning"
  shows "running_count (d\<lparr>d_runs := update_where P f (d_runs d)\<rparr>) t \<le> running_count d t"
proof -
  have "length (filter (\<lambda>r. rr_tenant_id r = t \<and> rr_status r = StatusRunning) (update_where P f rs)) \<le>
      length (filter (\<lambda>r. rr_tenant_id r = t \<and> rr_status r = StatusRunning) rs)" for rs
    by (induction rs) (auto simp: update_where_def assms)
  then show ?thesis by (simp add: running_count_def running_runs_def)
qed

section \<open>The statements the program claims with\<close>

text \<open>
  A writing statement that respects the limit by itself: it makes no run running, or it is a claim
  for the tenant of the stored run, with that tenant's quota.
\<close>

inductive limited_step :: "'r env \<Rightarrow> database \<Rightarrow> database \<Rightarrow> bool" for E where
  insert_job: "limited_step E d (snd (InsertJob j d))"
| insert_run: "rr_status r \<noteq> StatusRunning \<Longrightarrow> limited_step E d (snd (InsertJobRun r d))"
| insert_run_if_absent: "limited_step E d (snd (InsertJobRunIfAbsent a d))"
| update_run_status: "us_Status u \<noteq> StatusRunning \<Longrightarrow> limited_step E d (snd (UpdateJobRunStatus u d))"
| cancel_pending: "limited_step E d (snd (CancelPendingJobRuns c u' t i d))"
| insert_event: "limited_step E d (snd (InsertRunEvent e d))"
| reserve_cost: "limited_step E d (snd (ReserveDailyLLMCost t date cost limit d))"
| adjust_cost: "limited_step E d (snd (AdjustDailyLLMCost delta t date d))"
| begin_idempotency: "limited_step E d (snd (BeginIdempotency key i h c u' d))"
| complete_idempotency: "limited_step E d (snd (CompleteIdempotency hash u' key d))"
| insert_user: "limited_step E d (snd (InsertUser ur d))"
| update_user: "limited_step E d (snd (UpdateUserDisplayName n u' i d))"
| claim: "find_run d (tm_ID m) = Some row \<Longrightarrow> rr_tenant_id row = tm_TenantID m \<Longrightarrow>
    tm_RunLimit m = MaxConcurrentRuns (tenant_quota E d (tm_TenantID m)) \<Longrightarrow>
    limited_step E d (snd (TryMarkJobRunRunning m d))"

lemma claim_bounded:
  assumes "find_run d (tm_ID m) = Some row" "rr_tenant_id row = tm_TenantID m"
    and "tm_RunLimit m = MaxConcurrentRuns (tenant_quota E d (tm_TenantID m))"
  shows "bounded E d (snd (TryMarkJobRunRunning m d))"
proof (cases "fst (TryMarkJobRunRunning m d) = Inr True")
  case True
  have "db_step d (snd (TryMarkJobRunRunning m d))" by (rule step.TryMarkJobRunRunning)
  moreover have "d_quotas (snd (TryMarkJobRunRunning m d)) = d_quotas d"
    by (simp add: TryMarkJobRunRunning_def Let_def)
  moreover have "int (running_count (snd (TryMarkJobRunRunning m d)) t) \<le>
      max (int (running_count d t)) (MaxConcurrentRuns (tenant_quota E d t))" if "db_wf d" for t
    using claim_counts(1) [OF that assms(1,2) True, of t] claim_counts(2) [OF that assms(1,2) True]
    by (auto simp: assms(3))
  ultimately show ?thesis by (simp add: bounded_def db_step_def)
next
  case False
  then have "snd (TryMarkJobRunRunning m d) = d"
    by (auto simp: TryMarkJobRunRunning_def Let_def update_where_none)
  then show ?thesis by simp
qed

lemma limited_step_bounded: "limited_step E d d' \<Longrightarrow> bounded E d d'"
proof (induction rule: limited_step.induct)
  case (insert_user d ur)
  show ?case by (rule boundedI) (simp_all add: step.writes, simp_all add: InsertUser_def running_count_runs)
next
  case (update_user d n u' i)
  show ?case by (rule boundedI) (simp_all add: step.writes, simp_all add: UpdateUserDisplayName_def running_count_runs)
next
  case (insert_event d e)
  show ?case by (rule boundedI) (simp_all add: step.writes, simp add: InsertRunEvent_def)
next
  case (reserve_cost d t date cost limit)
  show ?case by (rule boundedI)
      (simp_all add: step.writes, auto simp: ReserveDailyLLMCost_def Let_def running_count_runs split: option.split)
next
  case (adjust_cost d delta t date)
  show ?case by (rule boundedI) (simp_all add: step.writes, simp_all add: AdjustDailyLLMCost_def running_count_runs)
next
  case (begin_idempotency d key i h c u')
  show ?case by (rule boundedI) (simp_all add: step.writes, simp_all add: BeginIdempotency_def running_count_runs)
next
  case (complete_idempotency d hash u' key)
  show ?case by (rule boundedI) (simp_all add: step.writes, simp_all add: CompleteIdempotency_def running_count_runs)
next
  case (insert_job d j)
  show ?case by (rule boundedI)
      (simp_all add: step.writes, simp_all add: InsertJob_def running_count_runs split: option.split)
next
  case (insert_run r d)
  then show ?case by (intro boundedI)
      (simp_all add: step.writes, simp_all add: InsertJobRun_def running_count_append split: option.split)
next
  case (insert_run_if_absent d a)
  show ?case by (rule boundedI) (simp_all add: step.writes,
        simp_all add: InsertJobRunIfAbsent_def Let_def running_count_append split: option.split)
next
  case (cancel_pending d c u' t i)
  show ?case by (rule boundedI)
      (simp_all add: step.writes, simp_all add: CancelPendingJobRuns_def Let_def running_count_update)
next
  case (update_run_status u d)
  then show ?case by (intro boundedI) (simp_all add: step.writes,
        simp_all add: UpdateJobRunStatus_def Let_def set_run_status_def running_count_update)
qed (rule claim_bounded)

lemma limited_steps_bounded: "(limited_step E)\<^sup>*\<^sup>* d d' \<Longrightarrow> bounded E d d'"
  by (induction rule: rtranclp_induct) (auto intro: bounded_trans limited_step_bounded)

text \<open>Every operation that makes no run running is a sequence of such statements.\<close>

interpretation limits: status_statements "(limited_step E)\<^sup>*\<^sup>*" for E :: "'r env"
  by unfold_locales (auto intro: limited_step.intros r_into_rtranclp rtranclp_trans)

section \<open>The claim of a slot\<close>

text \<open>The run in memory belongs to the tenant of the stored row.\<close>

definition row_tenant :: "database \<Rightarrow> JobRun \<Rightarrow> bool" where
  "row_tenant d run \<longleftrightarrow> (\<exists>row. find_run d (run_id run) = Some row \<and> rr_tenant_id row = run_tenantID run)"

lemma claim_limited:
  assumes "row_tenant (w_db w) run" "run_state (TryMarkRunRunning E' run ev limit) w = (r, w')"
    and limit: "limit = MaxConcurrentRuns (tenant_quota E (w_db w) (run_tenantID run))"
  shows "(limited_step E)\<^sup>*\<^sup>* (w_db w) (w_db w')"
proof (cases "w_db w' = w_db w")
  case False
  let ?d = "w_db w" and ?a = "claim_params run limit"
  from False have w': "w_db w' = claim_db run ev limit ?d"
    using run_TryMarkRunRunning [OF assms(2)] by (auto split: sum.splits bool.splits)
  have "limited_step E ?d (snd (TryMarkJobRunRunning ?a ?d))"
    using assms(1) limit by (auto simp: row_tenant_def claim_params_def intro!: limited_step.claim)
  then show ?thesis
    unfolding w' claim_db_def by (blast intro: rtranclp.rtrancl_into_rtrancl limited_step.insert_event)
qed simp

lemma acquireRunSlot_limited:
  assumes E: "honest E" and "wk_quota wk" "row_tenant (w_db w) run" "run_state (acquireRunSlot E wk run ev) w = (r, w')"
  shows "(limited_step E)\<^sup>*\<^sup>* (w_db w) (w_db w')"
proof -
  obtain rq w1 where q: "run_state (quota_Get E (run_tenantID run)) w = (rq, w1)" by fastforce
  have q': "w_db w1 = w_db w" using untouched_run [OF untouched.reading(9) q] .
  show ?thesis
  proof (cases rq)
    case (Inl e)
    then show ?thesis using assms(2,4) q q' by (simp add: acquireRunSlot_def)
  next
    case (Inr quota)
    then have "run_state (TryMarkRunRunning E run ev (MaxConcurrentRuns quota)) w1 = (r, w')"
      using assms(2,4) q by (simp add: acquireRunSlot_def)
    then show ?thesis using claim_limited [of w1 run E ev _ r w' E] assms(3) q' quota_Get_result [OF q [unfolded Inr] E] by simp
  qed
qed

section \<open>The worker\<close>

text \<open>Programs that only read, and programs that respect the limit by themselves.\<close>

lemma triple_reads:
  "state_io_rel (on_db (=)) m \<Longrightarrow> (\<And>a. triple (dbp ((=) d0)) (f a) Q) \<Longrightarrow> triple (dbp ((=) d0)) (m \<bind> f) Q"
  by (rule triple_bind [of _ _ "\<lambda>_. dbp ((=) d0)"]) (auto simp: triple_def dbp_def state_io_rel_def on_db_def)

lemma triple_limited:
  "state_io_rel (on_db (limited_step E)\<^sup>*\<^sup>*) m \<Longrightarrow> triple (dbp ((limited_step E)\<^sup>*\<^sup>* d0)) m (\<lambda>_. dbp ((limited_step E)\<^sup>*\<^sup>* d0))"
  by (auto simp: state_io_rel_def on_db_def triple_def dbp_def intro: rtranclp_trans)

lemma triple_limited_from:
  "state_io_rel (on_db (limited_step E)\<^sup>*\<^sup>*) m \<Longrightarrow> triple (dbp ((=) d0)) m (\<lambda>_. dbp ((limited_step E)\<^sup>*\<^sup>* d0))"
  by (auto simp: state_io_rel_def on_db_def triple_def dbp_def)

lemma triple_acquireRunSlot:
  "honest E \<Longrightarrow> wk_quota wk \<Longrightarrow> row_tenant d0 run \<Longrightarrow>
   triple (dbp ((=) d0)) (acquireRunSlot E wk run ev) (\<lambda>_. dbp ((limited_step E)\<^sup>*\<^sup>* d0))"
  by (rule tripleI) (auto simp: dbp_def intro: acquireRunSlot_limited)

lemma untouched_event: "state_io_rel (on_db (=)) (new_event E run s t p)"
  unfolding new_event_def by (intro untouched.db_intros)

lemma MarkRunning_tenant: "MarkRunning now run = Inr run' \<Longrightarrow> row_tenant d run' = row_tenant d run"
  by (auto simp: MarkRunning_def row_tenant_def split: if_splits)

lemma triple_startRun_limited:
  assumes "honest E" "wk_quota wk" "row_tenant d0 run" "\<And>run. state_io_rel (on_db (limited_step E)\<^sup>*\<^sup>*) (execute run)"
  shows "triple (dbp ((=) d0)) (startRun E wk execute qm run) (\<lambda>_. dbp ((limited_step E)\<^sup>*\<^sup>* d0))"
  unfolding startRun_def
proof (intro triple_reads [OF untouched.io_time_Now] triple_sum triple_limited_from [OF limits.ack], goal_cases)
  case (1 now run1)
  have row: "row_tenant d0 run1" using MarkRunning_tenant [OF 1] assms(3) by simp
  show ?case
    using assms(2)
    by (intro triple_reads [OF untouched_event] triple_bind [OF triple_acquireRunSlot [OF assms(1,2) row]]
        triple_limited limits.db_intros limits.metrics limits.executeRun assms(4)) simp_all
qed

lemma process_limited:
  assumes "honest E" "wk_quota wk" "\<And>run. state_io_rel (on_db (limited_step E)\<^sup>*\<^sup>*) (execute run)"
  shows "state_io_rel (on_db (limited_step E)\<^sup>*\<^sup>*) (process E wk execute qm reclaimed)"
proof (rule rel_of_triple)
  fix d0
  have found: "triple (dbp ((=) d0)) (FindRunByID E i)
      (\<lambda>r. dbp (\<lambda>d. d = d0 \<and> (\<forall>run. r = Inr run \<longrightarrow> row_tenant d0 run)))" for i
  proof (rule tripleI)
    fix w r w'
    assume "dbp ((=) d0) w" and run: "run_state (FindRunByID E i) w = (r, w')"
    then have "w_db w' = d0" "\<And>run. r = Inr run \<Longrightarrow> \<exists>row. find_run d0 i = Some row \<and> run = jobRunFromGetByIDRow row"
      by (auto simp: dbp_def FindRunByID_def run_db_exec GetJobRunByID_def find_run_def
          split: fault.splits option.splits if_splits)
    moreover have "row_tenant d0 (jobRunFromGetByIDRow row)" if "find_run d0 i = Some row" for row
      using find_run_id [OF that] that by (auto simp: row_tenant_def)
    ultimately show "dbp (\<lambda>d. d = d0 \<and> (\<forall>run. r = Inr run \<longrightarrow> row_tenant d0 run)) w'"
      by (auto simp: dbp_def)
  qed
  have handled: "triple (dbp (\<lambda>d. d = d0 \<and> (\<forall>run. r = Inr run \<longrightarrow> row_tenant d0 run)))
      (case r of Inl e \<Rightarrow> State_Monad.return () | Inr run \<Rightarrow>
         if IsTerminal run then ack E (qm_StreamID qm)
         else if run_status run = StatusRunning then
           (if reclaimed then handleFailure E wk qm run ErrWorkerStalled else ack E (qm_StreamID qm))
         else if run_status run \<noteq> StatusQueued \<and> run_status run \<noteq> StatusRetry
         then ack E (qm_StreamID qm)
         else startRun E wk execute qm run) (\<lambda>_. dbp ((limited_step E)\<^sup>*\<^sup>* d0))" (is "triple _ ?handle _") for r
  proof (rule triple_const_pre [of _ "\<forall>run. r = Inr run \<longrightarrow> row_tenant d0 run"])
    assume row: "\<forall>run. r = Inr run \<longrightarrow> row_tenant d0 run"
    have "triple (dbp ((=) d0)) ?handle (\<lambda>_. dbp ((limited_step E)\<^sup>*\<^sup>* d0))"
      using row
      by (intro triple_sum triple_if triple_startRun_limited assms triple_limited_from limits.world.io_return
          limits.ack limits.handleFailure) simp_all
    then show ?thesis by (rule triple_weaken) (auto simp: dbp_def)
  qed (auto simp: dbp_def)
  show "triple (dbp ((=) d0)) (process E wk execute qm reclaimed) (\<lambda>_. dbp ((limited_step E)\<^sup>*\<^sup>* d0))"
    unfolding process_def
    by (intro triple_sum triple_bind [OF found handled] triple_limited_from [OF limits.ack])
qed

lemma runner_turn_limited:
  assumes "honest E" "r \<in> set (wire_runners c)"
  shows "state_io_rel (on_db (limited_step (wire_env E cfg))\<^sup>*\<^sup>*) (runner_turn E cfg r)"
proof (cases r)
  case (RunWorker wk)
  then have "wk_quota wk" "honest (wire_env E cfg)"
    using wired_workers assms by (auto simp: honest_def wire_env_def)
  then show ?thesis
    unfolding RunWorker runner_turn_def Let_def runner.case worker_turn_def processReclaimed_def
    by (intro limits.db_intros limits.queueing process_limited limits.idempotent_Execute limits.llm_Execute)
qed (simp_all add: runner_turn_def Let_def limits.scanOnce limits.recurring_scanOnce)

section \<open>Claims on a stale snapshot\<close>

text \<open>
  The model takes a statement as atomic. PostgreSQL runs it at the default isolation level on a
  snapshot taken when the statement starts, which is before the statement takes the advisory lock
  of its tenant: a claim that waited for the lock counts the running runs of its snapshot, while the
  row it updates is read again. On its own state it is the claim of the model.
\<close>

definition claim_on_snapshot :: "database \<Rightarrow> TryMarkJobRunRunningParams \<Rightarrow> bool statement" where
  "claim_on_snapshot snap a d =
     (let hit = (\<lambda>r. rr_id r = tm_ID a \<and> (rr_status r = StatusQueued \<or> rr_status r = StatusRetry) \<and>
                     int (length (running_runs (tm_TenantID a) snap)) < tm_RunLimit a)
      in (Inr (\<exists>r\<in>set (d_runs d). hit r),
          d\<lparr>d_runs := update_where hit
              (\<lambda>r. r\<lparr>rr_status := StatusRunning, rr_started_at := Some (tm_StartedAt a),
                     rr_updated_at := tm_UpdatedAt a\<rparr>) (d_runs d)\<rparr>))"

lemma claim_on_own_state: "claim_on_snapshot d a d = TryMarkJobRunRunning a d"
  by (simp add: claim_on_snapshot_def TryMarkJobRunRunning_def)

text \<open>A snapshot with a free slot makes the claim one with an unlimited quota.\<close>

lemma claim_on_snapshot_free:
  "int (running_count snap (tm_TenantID a)) < tm_RunLimit a \<Longrightarrow>
   claim_on_snapshot snap a d = TryMarkJobRunRunning (a\<lparr>tm_RunLimit := int (running_count d (tm_TenantID a)) + 1\<rparr>) d"
  by (simp add: claim_on_snapshot_def TryMarkJobRunRunning_def running_count_def Let_def running_runs_def)

lemma claim_on_snapshot_counts:
  assumes "db_wf d" "find_run d (tm_ID a) = Some row" "rr_tenant_id row = tm_TenantID a"
    and "rr_status row = StatusQueued" "int (running_count snap (tm_TenantID a)) < tm_RunLimit a"
  shows "running_count (snd (claim_on_snapshot snap a d)) (tm_TenantID a) = Suc (running_count d (tm_TenantID a)) \<and>
    db_wf (snd (claim_on_snapshot snap a d)) \<and>
    (\<forall>i. i \<noteq> tm_ID a \<longrightarrow> find_run (snd (claim_on_snapshot snap a d)) i = find_run d i)"
proof -
  let ?a = "a\<lparr>tm_RunLimit := int (running_count d (tm_TenantID a)) + 1\<rparr>"
  have "row \<in> set (d_runs d)" "rr_id row = tm_ID a" using find_run_id [OF assms(2)] by auto
  then have "fst (TryMarkJobRunRunning ?a d) = Inr True"
    using assms(4) by (auto simp: TryMarkJobRunRunning_def Let_def running_count_def)
  then have "int (running_count (snd (TryMarkJobRunRunning ?a d)) (tm_TenantID a)) = int (running_count d (tm_TenantID a)) + 1"
    using claim_counts(1) [OF assms(1), of ?a row "tm_TenantID a"] assms(2,3) by simp
  moreover have "db_wf (snd (TryMarkJobRunRunning ?a d))"
    using step.TryMarkJobRunRunning [of d ?a] assms(1) by (simp add: db_step_def)
  moreover have "find_run (snd (TryMarkJobRunRunning ?a d)) i = find_run d i" if "i \<noteq> tm_ID a" for i
    using that find_run_id [of d i] by (cases "find_run d i") (auto simp: find_run_claim)
  ultimately show ?thesis unfolding claim_on_snapshot_free [OF assms(5)] by simp
qed


text \<open>Two queued runs of a tenant with one slot.\<close>

definition two_queued :: database where
  "two_queued = empty_db\<lparr>d_jobs := [sample_job 11 1], d_runs := [sample_run 21 1 11 1 StatusQueued 0,
     sample_run 22 1 11 2 StatusQueued 0]\<rparr>"

definition sample_claim :: "JobRunID \<Rightarrow> TryMarkJobRunRunningParams" where
  "sample_claim i = \<lparr>tm_TenantID = 1, tm_StartedAt = 0, tm_UpdatedAt = 0, tm_ID = i, tm_RunLimit = 1\<rparr>"


end
