(* ===== verification/AppLifecycle.thy ===== *)
theory AppLifecycle
  imports Platform
begin

text \<open>
  The life of the API process: \<^verbatim>\<open>bootstrap.NewApp\<close> builds the application and
  releases what it opened when a later step fails; \<^verbatim>\<open>main\<close> runs
  \<^verbatim>\<open>App.Run\<close> in a goroutine, which starts one goroutine per runner and serves HTTP,
  waits for a signal or for the server to end, and calls \<^verbatim>\<open>App.Shutdown\<close>. The
  goroutines interleave: the state says where each of them is, an action is the next statement of one
  of them or an event from outside, and an execution is a list of actions.
\<close>

section \<open>The application (app.go)\<close>

record App =
  a_cfg :: Config
  a_logger :: zap_config
  a_pool :: pgx_config
  a_rdb :: RedisConfig
  a_authMgr :: Manager
  a_server :: Server
  a_otelShutdown :: ShutdownFunc
  a_runners :: "runner list"

definition NewApp :: "libs \<Rightarrow> Config \<Rightarrow> App result startup" where
  "NewApp L cfg = (case logger_New L (cfg_Logger cfg) of
       Inl err \<Rightarrow> State_Monad.return (Inl (Errorf ''init logger'' err))
     | Inr lg \<Rightarrow> do {
         r \<leftarrow> otel_Setup L (cfg_OTel cfg);
         case r of
           Inl err \<Rightarrow> State_Monad.return (Inl (Errorf ''init otel'' err))
         | Inr otelShutdown \<Rightarrow> do {
             r \<leftarrow> postgres_New L (cfg_DB cfg);
             case r of
               Inl err \<Rightarrow> State_Monad.return (Inl (Errorf ''init postgres'' err))
             | Inr pool \<Rightarrow> do {
                 r \<leftarrow> redis_New L (cfg_Redis cfg);
                 case r of
                   Inl err \<Rightarrow> do {
                     release ResPool;
                     State_Monad.return (Inl (Errorf ''init redis'' err))
                   }
                 | Inr rdb \<Rightarrow> State_Monad.return (Inr \<lparr>
                     a_cfg = cfg,
                     a_logger = lg,
                     a_pool = pool,
                     a_rdb = rdb,
                     a_authMgr = NewManager (cfg_JWT cfg),
                     a_server = Wrap (cfg_HTTP cfg),
                     a_otelShutdown = otelShutdown,
                     a_runners = wire_runners (cfg_Task cfg)\<rparr>)
               }
           }
       })"

section \<open>The state of the process\<close>

text \<open>
  Where \<^verbatim>\<open>App.Run\<close> is, with the rest of the goroutine of \<^verbatim>\<open>main\<close> that calls
  it; where a runner is; where \<^verbatim>\<open>main\<close> is after it started that goroutine, through
  \<^verbatim>\<open>App.Shutdown\<close>.
\<close>

datatype run_pc =
    RunWithCancel
  | RunLoop nat
  | RunGo nat
  | RunListen
  | RunServing
  | RunReturned "error option"
  | RunCloseErrs
  | RunDone

datatype runner_pc = NotStarted | Starting | Looping | Returned "error option"

datatype main_pc =
    MainSelect
  | SdServer
  | SdCancel
  | SdWait
  | SdTracer
  | SdRedis
  | SdPool
  | SdSync
  | MainExit
  | MainFatal error

record life =
  l_run :: run_pc
  l_main :: main_pc
  l_runners :: "runner_pc list"
  l_bgCancel :: bool
  l_bgDone :: bool
  l_bgWG :: nat
  l_serverShut :: bool
  l_errs :: "error option"
  l_errsClosed :: bool
  l_signal :: bool
  l_open :: "resource list"

text \<open>
  \<open>l_bgCancel\<close>: the field is set; \<open>l_bgDone\<close>: the context of the runners is
  cancelled; \<open>l_errs\<close>: the buffer of the channel \<^verbatim>\<open>errs\<close>.
\<close>

definition life_init :: "App \<Rightarrow> resource list \<Rightarrow> life" where
  "life_init a rs = \<lparr>
     l_run = RunWithCancel, l_main = MainSelect,
     l_runners = replicate (length (a_runners a)) NotStarted,
     l_bgCancel = False, l_bgDone = False, l_bgWG = 0, l_serverShut = False,
     l_errs = None, l_errsClosed = False, l_signal = False, l_open = rs\<rparr>"

text \<open>
  \<^verbatim>\<open>main\<close> up to there: an error of the configuration or of \<^verbatim>\<open>NewApp\<close> ends the
  process with a message, and what is still open stays so.
\<close>

definition api_main :: "libs \<Rightarrow> Config result \<Rightarrow> (error \<times> resource list) + (App \<times> life)" where
  "api_main L loaded = (case loaded of
       Inl err \<Rightarrow> Inl (Errorf ''config'' err, [])
     | Inr cfg \<Rightarrow> (case run_state (NewApp L cfg) [] of
           (Inl err, rs) \<Rightarrow> Inl (Errorf ''bootstrap'' err, rs)
         | (Inr a, rs) \<Rightarrow> Inr (a, life_init a rs)))"

section \<open>Steps\<close>

text \<open>
  A step is \<^term>\<open>None\<close> where the goroutine blocks or is not there. The goroutine of
  \<^verbatim>\<open>App.Run\<close>: once \<^verbatim>\<open>Shutdown\<close> was called on the server,
  \<^verbatim>\<open>ListenAndServe\<close> returns \<^const>\<open>http_ErrServerClosed\<close>.
\<close>

definition run_step :: "life \<Rightarrow> life option" where
  "run_step s = (case l_run s of
       RunWithCancel \<Rightarrow> Some (s\<lparr>l_bgCancel := True, l_run := RunLoop 0\<rparr>)
     | RunLoop i \<Rightarrow>
         if i < length (l_runners s) then Some (s\<lparr>l_bgWG := Suc (l_bgWG s), l_run := RunGo i\<rparr>)
         else Some (s\<lparr>l_run := RunListen\<rparr>)
     | RunGo i \<Rightarrow> Some (s\<lparr>l_runners := (l_runners s)[i := Starting], l_run := RunLoop (Suc i)\<rparr>)
     | RunListen \<Rightarrow>
         if l_serverShut s then Some (s\<lparr>l_run := RunReturned (Start http_ErrServerClosed)\<rparr>)
         else Some (s\<lparr>l_run := RunServing\<rparr>)
     | RunServing \<Rightarrow>
         if l_serverShut s then Some (s\<lparr>l_run := RunReturned (Start http_ErrServerClosed)\<rparr>) else None
     | RunReturned (Some err) \<Rightarrow>
         if \<not> err_is err http_ErrServerClosed then Some (s\<lparr>l_errs := Some err, l_run := RunCloseErrs\<rparr>)
         else Some (s\<lparr>l_run := RunCloseErrs\<rparr>)
     | RunReturned None \<Rightarrow> Some (s\<lparr>l_run := RunCloseErrs\<rparr>)
     | RunCloseErrs \<Rightarrow> Some (s\<lparr>l_errsClosed := True, l_run := RunDone\<rparr>)
     | RunDone \<Rightarrow> None)"

text \<open>The server stops by itself with an error (the port is taken, a listener breaks).\<close>

definition serve_fails :: "error \<Rightarrow> life \<Rightarrow> life option" where
  "serve_fails err s =
     (if l_run s \<in> {RunListen, RunServing} \<and> \<not> l_serverShut s \<and> \<not> err_is err http_ErrServerClosed
      then Some (s\<lparr>l_run := RunReturned (Start err)\<rparr>) else None)"

text \<open>
  The goroutine of runner \<open>i\<close>, with the deferred \<^verbatim>\<open>bgWG.Done\<close>. \<open>ensure\<close> is
  what a worker's \<^verbatim>\<open>EnsureGroup\<close> returns. A turn of a loop changes nothing here, and a
  loop ends when it finds its context cancelled.
\<close>

definition runner_step :: "App \<Rightarrow> nat \<Rightarrow> error option \<Rightarrow> life \<Rightarrow> life option" where
  "runner_step a i ensure s =
     (if \<not> i < length (l_runners s) then None
      else case l_runners s ! i of
        NotStarted \<Rightarrow> None
      | Starting \<Rightarrow>
          (case (a_runners a ! i, ensure) of
             (RunWorker _, Some err) \<Rightarrow> Some (s\<lparr>
               l_runners := (l_runners s)[i := Returned (Some (Errorf ''ensure group'' err))],
               l_bgWG := l_bgWG s - 1\<rparr>)
           | _ \<Rightarrow> Some (s\<lparr>l_runners := (l_runners s)[i := Looping]\<rparr>))
      | Looping \<Rightarrow>
          if l_bgDone s
          then Some (s\<lparr>l_runners := (l_runners s)[i := Returned None], l_bgWG := l_bgWG s - 1\<rparr>)
          else None
      | Returned _ \<Rightarrow> None)"

text \<open>The two cases of the select in \<^verbatim>\<open>main\<close>.\<close>

definition select_signal :: "life \<Rightarrow> life option" where
  "select_signal s =
     (if l_main s = MainSelect \<and> l_signal s then Some (s\<lparr>l_main := SdServer\<rparr>) else None)"

definition select_errs :: "life \<Rightarrow> life option" where
  "select_errs s =
     (if l_main s \<noteq> MainSelect then None
      else case l_errs s of
        Some err \<Rightarrow> Some (s\<lparr>l_errs := None, l_main := MainFatal err\<rparr>)
      | None \<Rightarrow> if l_errsClosed s then Some (s\<lparr>l_main := SdServer\<rparr>) else None)"

text \<open>
  \<^verbatim>\<open>App.Shutdown\<close>, statement by statement; an error of a call is logged and the next
  statement follows.
\<close>

definition Shutdown :: "life \<Rightarrow> life option" where
  "Shutdown s = (case l_main s of
       SdServer \<Rightarrow> Some (s\<lparr>l_serverShut := True, l_main := SdCancel\<rparr>)
     | SdCancel \<Rightarrow> Some (s\<lparr>l_bgDone := (l_bgDone s \<or> l_bgCancel s), l_main := SdWait\<rparr>)
     | SdWait \<Rightarrow> if l_bgWG s = 0 then Some (s\<lparr>l_main := SdTracer\<rparr>) else None
     | SdTracer \<Rightarrow> Some (s\<lparr>l_open := removeAll ResTracer (l_open s), l_main := SdRedis\<rparr>)
     | SdRedis \<Rightarrow> Some (s\<lparr>l_open := removeAll ResRedis (l_open s), l_main := SdPool\<rparr>)
     | SdPool \<Rightarrow> Some (s\<lparr>l_open := removeAll ResPool (l_open s), l_main := SdSync\<rparr>)
     | SdSync \<Rightarrow> Some (s\<lparr>l_main := MainExit\<rparr>)
     | _ \<Rightarrow> None)"

datatype action =
    ActRun
  | ActServeFails error
  | ActRunner nat "error option"
  | ActSignal
  | ActSelectSignal
  | ActSelectErrs
  | ActShutdown

text \<open>When \<^verbatim>\<open>main\<close> has returned or ended the process, nothing runs any more.\<close>

definition exited :: "life \<Rightarrow> bool" where
  "exited s = (case l_main s of MainExit \<Rightarrow> True | MainFatal _ \<Rightarrow> True | _ \<Rightarrow> False)"

definition act :: "App \<Rightarrow> action \<Rightarrow> life \<Rightarrow> life option" where
  "act a x s =
     (if exited s then None
      else case x of
        ActRun \<Rightarrow> run_step s
      | ActServeFails err \<Rightarrow> serve_fails err s
      | ActRunner i ensure \<Rightarrow> runner_step a i ensure s
      | ActSignal \<Rightarrow> if l_signal s then None else Some (s\<lparr>l_signal := True\<rparr>)
      | ActSelectSignal \<Rightarrow> select_signal s
      | ActSelectErrs \<Rightarrow> select_errs s
      | ActShutdown \<Rightarrow> Shutdown s)"

fun acts :: "App \<Rightarrow> action list \<Rightarrow> life \<Rightarrow> life option" where
  "acts a [] s = Some s"
| "acts a (x # xs) s = (case act a x s of None \<Rightarrow> None | Some s' \<Rightarrow> acts a xs s')"

section \<open>Invariants of every execution\<close>

definition active :: "runner_pc \<Rightarrow> bool" where
  "active p \<longleftrightarrow> p = Starting \<or> p = Looping"

text \<open>How many runners \<^verbatim>\<open>App.Run\<close> has started.\<close>

fun started :: "nat \<Rightarrow> run_pc \<Rightarrow> nat" where
  "started n RunWithCancel = 0"
| "started n (RunLoop i) = i"
| "started n (RunGo i) = i"
| "started n _ = n"

fun in_launch :: "run_pc \<Rightarrow> bool" where
  "in_launch RunWithCancel = True"
| "in_launch (RunLoop i) = True"
| "in_launch (RunGo i) = True"
| "in_launch _ = False"

fun added :: "run_pc \<Rightarrow> nat" where
  "added (RunGo i) = 1"
| "added _ = 0"

text \<open>
  The wait group counts the runners that are active and the one that is being started; the runners
  before the loop's index are the ones that were started.
\<close>

definition life_ok :: "App \<Rightarrow> life \<Rightarrow> bool" where
  "life_ok a s \<longleftrightarrow>
     length (l_runners s) = length (a_runners a) \<and>
     started (length (l_runners s)) (l_run s) + added (l_run s) \<le> length (l_runners s) \<and>
     (\<forall>j<length (l_runners s).
        l_runners s ! j = NotStarted \<longleftrightarrow> started (length (l_runners s)) (l_run s) \<le> j) \<and>
     l_bgWG s = length (filter active (l_runners s)) + added (l_run s) \<and>
     (l_run s \<noteq> RunWithCancel \<longrightarrow> l_bgCancel s)"

lemma length_filter_update:
  assumes "i < length xs"
  shows "length (filter P (xs[i := x])) + (if P (xs ! i) then 1 else 0) =
    length (filter P xs) + (if P x then 1 else 0)"
proof -
  have xs: "xs = take i xs @ xs ! i # drop (Suc i) xs" using assms by (rule id_take_nth_drop)
  have "length (filter P xs) =
      length (filter P (take i xs)) + (if P (xs ! i) then 1 else 0) + length (filter P (drop (Suc i) xs))"
    by (subst xs) simp
  moreover have "length (filter P (xs[i := x])) =
      length (filter P (take i xs)) + (if P x then 1 else 0) + length (filter P (drop (Suc i) xs))"
    using assms by (simp add: upd_conv_take_nth_drop)
  ultimately show ?thesis by simp
qed

lemma life_init_ok: "life_ok a (life_init a rs)"
  by (simp add: life_ok_def life_init_def active_def)

lemma run_step_ok:
  assumes "life_ok a s" "run_step s = Some s'"
  shows "life_ok a s'"
proof (cases "l_run s")
  case (RunGo i)
  then have "i < length (l_runners s)" "l_runners s ! i = NotStarted"
    using assms(1) by (auto simp: life_ok_def)
  then show ?thesis
    using assms RunGo length_filter_update [of i "l_runners s" active Starting]
    by (auto simp: life_ok_def run_step_def active_def nth_list_update split: if_splits)
next
  case (RunReturned e)
  then show ?thesis using assms by (cases e) (auto simp: life_ok_def run_step_def split: if_splits)
qed (use assms in \<open>auto simp: life_ok_def run_step_def split: if_splits\<close>)

lemma runner_step_ok:
  assumes "life_ok a s" "runner_step a i ensure s = Some s'"
  shows "life_ok a s'"
proof -
  have i: "i < length (l_runners s)" and on: "active (l_runners s ! i)"
    using assms(2) by (auto simp: runner_step_def active_def split: if_splits runner_pc.splits)
  obtain p where p: "l_runners s' = (l_runners s)[i := p]" "p \<noteq> NotStarted"
    "l_bgWG s' = l_bgWG s - (if active p then 0 else 1)"
    "l_run s' = l_run s" "l_bgCancel s' = l_bgCancel s"
    using assms(2) by (auto simp: runner_step_def active_def split: if_splits runner_pc.splits runner.splits option.splits)
  have "length (filter active ((l_runners s)[i := p])) + 1 =
      length (filter active (l_runners s)) + (if active p then 1 else 0)"
    using length_filter_update [OF i, of active p] on by simp
  moreover have "l_runners s' ! j = NotStarted \<longleftrightarrow> l_runners s ! j = NotStarted" for j
    using on i p(1,2) by (cases "j = i") (auto simp: active_def)
  ultimately show ?thesis
    using assms(1) p by (auto simp: life_ok_def split: if_splits)
qed

lemma serve_fails_ok:
  assumes "life_ok a s" "serve_fails err s = Some s'"
  shows "life_ok a s'"
  using assms by (auto simp: life_ok_def serve_fails_def split: if_splits)

text \<open>The other actions touch neither the runners nor \<^verbatim>\<open>App.Run\<close>.\<close>

definition same_run :: "life \<Rightarrow> life \<Rightarrow> bool" where
  "same_run s s' \<longleftrightarrow> l_run s' = l_run s \<and> l_runners s' = l_runners s \<and> l_bgWG s' = l_bgWG s \<and>
     l_bgCancel s' = l_bgCancel s"

lemma same_run_ok: "same_run s s' \<Longrightarrow> life_ok a s \<Longrightarrow> life_ok a s'"
  by (clarsimp simp: same_run_def life_ok_def)

lemma main_same_run:
  "select_signal s = Some s' \<Longrightarrow> same_run s s'"
  "select_errs s = Some s' \<Longrightarrow> same_run s s'"
  "Shutdown s = Some s' \<Longrightarrow> same_run s s'"
  by (auto simp: same_run_def select_signal_def select_errs_def Shutdown_def
      split: if_splits option.splits main_pc.splits)

lemma act_ok:
  assumes "life_ok a s" "act a x s = Some s'"
  shows "life_ok a s'"
proof (cases x)
  case ActSignal
  then have "same_run s s'" using assms(2) by (auto simp: act_def same_run_def split: if_splits)
  then show ?thesis using assms(1) by (rule same_run_ok)
qed (use assms in \<open>auto simp: act_def intro: run_step_ok runner_step_ok serve_fails_ok
  same_run_ok [OF main_same_run(1)] same_run_ok [OF main_same_run(2)] same_run_ok [OF main_same_run(3)]
  split: if_splits\<close>)

text \<open>An invariant of the actions is an invariant of the executions.\<close>

lemma acts_invariant:
  assumes "acts a xs s = Some s'" "I s" "\<And>x s s'. I s \<Longrightarrow> act a x s = Some s' \<Longrightarrow> I s'"
  shows "I s'"
  using assms(1,2)
proof (induction xs arbitrary: s)
  case (Cons x xs)
  then show ?case using assms(3) by (auto split: option.splits)
qed simp

lemma acts_ok: "acts a xs s = Some s' \<Longrightarrow> life_ok a s \<Longrightarrow> life_ok a s'"
  by (rule acts_invariant) (auto intro: act_ok)

section \<open>Shutdown after the launch\<close>

text \<open>What \<^verbatim>\<open>Shutdown\<close> has released where it stands.\<close>

fun released :: "main_pc \<Rightarrow> resource set" where
  "released SdRedis = {ResTracer}"
| "released SdPool = {ResTracer, ResRedis}"
| "released SdSync = {ResTracer, ResRedis, ResPool}"
| "released MainExit = {ResTracer, ResRedis, ResPool}"
| "released _ = {}"

fun cancelled :: "main_pc \<Rightarrow> bool" where
  "cancelled SdWait = True"
| "cancelled SdTracer = True"
| "cancelled SdRedis = True"
| "cancelled SdPool = True"
| "cancelled SdSync = True"
| "cancelled MainExit = True"
| "cancelled _ = False"

definition opened :: "resource list \<Rightarrow> life \<Rightarrow> bool" where
  "opened rs s \<longleftrightarrow> l_open s = filter (\<lambda>r. r \<notin> released (l_main s)) rs"

lemma same_main_opened:
  "l_main s' = l_main s \<Longrightarrow> l_open s' = l_open s \<Longrightarrow> opened rs s \<Longrightarrow> opened rs s'"
  by (simp add: opened_def)

lemma run_step_main:
  "run_step s = Some s' \<Longrightarrow> l_main s' = l_main s \<and> l_open s' = l_open s \<and> l_bgDone s' = l_bgDone s"
  by (auto simp: run_step_def split: run_pc.splits option.splits if_splits)

lemma runner_step_main:
  "runner_step a i e s = Some s' \<Longrightarrow> l_main s' = l_main s \<and> l_open s' = l_open s \<and> l_bgDone s' = l_bgDone s \<and>
     l_run s' = l_run s \<and> l_bgWG s' \<le> l_bgWG s"
  by (auto simp: runner_step_def split: if_splits runner_pc.splits runner.splits option.splits)

lemma serve_fails_main:
  "serve_fails e s = Some s' \<Longrightarrow> l_main s' = l_main s \<and> l_open s' = l_open s \<and> l_bgDone s' = l_bgDone s \<and>
     l_bgWG s' = l_bgWG s \<and> \<not> in_launch (l_run s')"
  by (auto simp: serve_fails_def split: if_splits)

lemma main_opened:
  "opened rs s \<Longrightarrow> select_signal s = Some s' \<Longrightarrow> opened rs s'"
  "opened rs s \<Longrightarrow> select_errs s = Some s' \<Longrightarrow> opened rs s'"
  "opened rs s \<Longrightarrow> Shutdown s = Some s' \<Longrightarrow> opened rs s'"
  by (auto simp: opened_def select_signal_def select_errs_def Shutdown_def removeAll_filter_not_eq
      intro!: filter_cong split: if_splits option.splits main_pc.splits)

lemma act_opened:
  assumes "opened rs s" "act a x s = Some s'"
  shows "opened rs s'"
  using assms
  by (cases x)
    (auto simp: act_def dest: run_step_main runner_step_main serve_fails_main
      intro: main_opened same_main_opened [OF _ _ assms(1)] split: if_splits)

lemma opened_init: "opened (l_open (life_init a rs)) (life_init a rs)"
  by (simp add: opened_def life_init_def)

text \<open>Once every runner is started, nothing is released before they have all returned.\<close>

definition orderly :: "App \<Rightarrow> life \<Rightarrow> bool" where
  "orderly a s \<longleftrightarrow> life_ok a s \<and> \<not> in_launch (l_run s) \<and> (cancelled (l_main s) \<longrightarrow> l_bgDone s) \<and>
     (cancelled (l_main s) \<and> l_main s \<noteq> SdWait \<longrightarrow> l_bgWG s = 0)"

lemma run_step_launched:
  "run_step s = Some s' \<Longrightarrow> \<not> in_launch (l_run s) \<Longrightarrow> \<not> in_launch (l_run s') \<and> l_bgWG s' = l_bgWG s"
  by (auto simp: run_step_def split: run_pc.splits option.splits if_splits)

lemma main_orderly:
  assumes "orderly a s" "select_signal s = Some s' \<or> select_errs s = Some s' \<or> Shutdown s = Some s'"
  shows "orderly a s'"
proof -
  have run: "same_run s s'" using assms(2) main_same_run by blast
  have ok: "life_ok a s" "\<not> in_launch (l_run s)" and "l_bgCancel s"
    using assms(1) by (auto simp: orderly_def life_ok_def)
  then have "(cancelled (l_main s') \<longrightarrow> l_bgDone s') \<and> (cancelled (l_main s') \<and> l_main s' \<noteq> SdWait \<longrightarrow> l_bgWG s' = 0)"
    using assms
    by (auto simp: orderly_def select_signal_def select_errs_def Shutdown_def
        split: if_splits option.splits main_pc.splits)
  moreover have "life_ok a s'" using run ok(1) by (rule same_run_ok)
  ultimately show ?thesis using run ok(2) by (simp add: orderly_def same_run_def)
qed

lemma act_orderly:
  assumes "orderly a s" "act a x s = Some s'"
  shows "orderly a s'"
proof (cases "x \<in> {ActSelectSignal, ActSelectErrs, ActShutdown}")
  case True
  then show ?thesis using assms(2) by (intro main_orderly [OF assms(1)]) (auto simp: act_def split: if_splits)
next
  case False
  then have "l_main s' = l_main s \<and> l_bgDone s' = l_bgDone s \<and> \<not> in_launch (l_run s') \<and> l_bgWG s' \<le> l_bgWG s"
    using assms run_step_launched [of s s'] run_step_main [of s s']
    by (cases x) (auto simp: act_def orderly_def dest: runner_step_main serve_fails_main split: if_splits)
  then show ?thesis using assms act_ok [OF _ assms(2)] by (auto simp: orderly_def)
qed

lemma orderly_runners:
  assumes "orderly a s" "cancelled (l_main s)" "l_main s \<noteq> SdWait" "p \<in> set (l_runners s)"
  shows "\<exists>e. p = Returned e"
proof -
  have "filter active (l_runners s) = []" and "p \<noteq> NotStarted"
    using assms by (auto simp: orderly_def life_ok_def in_set_conv_nth split: run_pc.splits elim!: in_launch.elims)
  then show ?thesis using assms(4) by (cases p) (auto simp: active_def filter_empty_conv)
qed

section \<open>Termination\<close>

text \<open>How many statements each goroutine has left at most.\<close>

fun run_left :: "run_pc \<Rightarrow> nat" where
  "run_left RunListen = 5"
| "run_left RunServing = 4"
| "run_left (RunReturned e) = 3"
| "run_left RunCloseErrs = 2"
| "run_left RunDone = 1"
| "run_left _ = 0"

fun runner_left :: "runner_pc \<Rightarrow> nat" where
  "runner_left Starting = 2"
| "runner_left Looping = 1"
| "runner_left _ = 0"

fun main_left :: "main_pc \<Rightarrow> nat" where
  "main_left MainSelect = 8"
| "main_left SdServer = 7"
| "main_left SdCancel = 6"
| "main_left SdWait = 5"
| "main_left SdTracer = 4"
| "main_left SdRedis = 3"
| "main_left SdPool = 2"
| "main_left SdSync = 1"
| "main_left _ = 0"

definition steps_left :: "life \<Rightarrow> nat" where
  "steps_left s = run_left (l_run s) + sum_list (map runner_left (l_runners s)) + main_left (l_main s) +
     (if l_signal s then 0 else 1)"

lemma sum_list_map_update:
  assumes "i < length xs"
  shows "sum_list (map f (xs[i := x])) + f (xs ! i) = sum_list (map f xs) + (f x :: nat)"
proof -
  have xs: "xs = take i xs @ xs ! i # drop (Suc i) xs" using assms by (rule id_take_nth_drop)
  have "sum_list (map f xs) = sum_list (map f (take i xs)) + f (xs ! i) + sum_list (map f (drop (Suc i) xs))"
    by (subst xs) simp
  then show ?thesis using assms by (simp add: upd_conv_take_nth_drop)
qed

lemma runner_step_left:
  assumes "runner_step a i e s = Some s'"
  shows "steps_left s' < steps_left s"
proof -
  have i: "i < length (l_runners s)"
    and p: "\<exists>p. l_runners s' = (l_runners s)[i := p] \<and> runner_left p < runner_left (l_runners s ! i)"
    and rest: "l_run s' = l_run s" "l_main s' = l_main s" "l_signal s' = l_signal s"
    using assms by (auto simp: runner_step_def split: if_splits runner_pc.splits runner.splits option.splits)
  from p obtain p where "l_runners s' = (l_runners s)[i := p]" "runner_left p < runner_left (l_runners s ! i)"
    by blast
  then show ?thesis
    using sum_list_map_update [OF i, of runner_left p] rest by (simp add: steps_left_def)
qed

lemma act_left:
  assumes "\<not> in_launch (l_run s)" "act a x s = Some s'"
  shows "steps_left s' < steps_left s"
proof (cases x)
  case ActRun
  then show ?thesis using assms
    by (auto simp: act_def run_step_def steps_left_def split: if_splits run_pc.splits option.splits)
next
  case ActRunner
  then show ?thesis using assms by (auto simp: act_def intro: runner_step_left split: if_splits)
next
  case ActShutdown
  then show ?thesis using assms
    by (auto simp: act_def Shutdown_def steps_left_def split: if_splits main_pc.splits)
next
  case ActSelectErrs
  then show ?thesis using assms
    by (auto simp: act_def select_errs_def steps_left_def split: if_splits option.splits)
next
  case ActServeFails
  then show ?thesis using assms
    by (auto simp: act_def serve_fails_def steps_left_def split: if_splits)
qed (use assms in \<open>auto simp: act_def select_signal_def steps_left_def split: if_splits\<close>)

lemma acts_left:
  "orderly a s \<Longrightarrow> acts a xs s = Some s' \<Longrightarrow> length xs + steps_left s' \<le> steps_left s"
proof (induction xs arbitrary: s)
  case (Cons x xs)
  then obtain t where t: "act a x s = Some t" "acts a xs t = Some s'" by (auto split: option.splits)
  have "steps_left t < steps_left s" using act_left t(1) Cons.prems(1) by (simp add: orderly_def)
  then show ?case using Cons.IH [OF act_orderly [OF Cons.prems(1) t(1)] t(2)] by simp
qed simp

lemma runners_left: "sum_list (map runner_left ps) \<le> 2 * length ps"
proof (induction ps)
  case (Cons p ps)
  then show ?case by (cases p) simp_all
qed simp

lemma steps_left_bound: "steps_left s \<le> 2 * length (l_runners s) + 14"
proof -
  have "run_left (l_run s) \<le> 5" "main_left (l_main s) \<le> 8"
    by (cases "l_run s"; simp) (cases "l_main s"; simp)
  then show ?thesis using runners_left [of "l_runners s"] by (simp add: steps_left_def)
qed

lemma orderly_progress:
  assumes "orderly a s" "\<not> exited s"
  shows "\<exists>x. act a x s \<noteq> None"
proof (cases "l_main s = SdWait \<and> l_bgWG s \<noteq> 0")
  case True
  then have "filter active (l_runners s) \<noteq> []"
    using assms(1) by (auto simp: orderly_def life_ok_def elim!: in_launch.elims)
  then obtain i where "i < length (l_runners s)" "active (l_runners s ! i)"
    by (auto simp: filter_empty_conv in_set_conv_nth)
  then have "act a (ActRunner i None) s \<noteq> None"
    using True assms by (auto simp: act_def runner_step_def active_def orderly_def split: runner.splits)
  then show ?thesis by blast
next
  case False
  show ?thesis
  proof (cases "l_main s = MainSelect")
    case True
    then have "act a (if l_signal s then ActSelectSignal else ActSignal) s \<noteq> None"
      using assms(2) by (simp add: act_def select_signal_def)
    then show ?thesis by blast
  next
    case select: False
    then have "act a ActShutdown s \<noteq> None"
      using False assms(2) by (auto simp: act_def Shutdown_def exited_def split: main_pc.splits)
    then show ?thesis by blast
  qed
qed

section \<open>What the program starts with\<close>

lemma run_otel_Setup:
  "run_state (otel_Setup L cfg) [] = (r, rs) \<Longrightarrow>
   rs = (case r of Inr TracerShutdown \<Rightarrow> [ResTracer] | _ \<Rightarrow> []) \<and>
   (\<forall>f. r = Inr f \<longrightarrow> (f = TracerShutdown \<longleftrightarrow> otel_Enabled cfg))"
  by (auto simp: otel_Setup_def run_resources split: if_splits option.splits)

lemma run_postgres_New:
  "run_state (postgres_New L cfg) rs = (r, rs') \<Longrightarrow> ResPool \<notin> set rs \<Longrightarrow>
   rs' = (case r of Inl _ \<Rightarrow> rs | Inr _ \<Rightarrow> ResPool # rs)"
  by (auto simp: postgres_New_def run_resources Let_def split: sum.splits option.splits if_splits)

lemma run_redis_New:
  "run_state (redis_New L cfg) rs = (r, rs') \<Longrightarrow> ResRedis \<notin> set rs \<Longrightarrow>
   rs' = (case r of Inl _ \<Rightarrow> rs | Inr _ \<Rightarrow> ResRedis # rs)"
  by (auto simp: redis_New_def run_resources split: option.splits)

definition tracer_open :: "OTelConfig \<Rightarrow> resource list" where
  "tracer_open cfg = (if otel_Enabled cfg then [ResTracer] else [])"

lemma NewApp_open:
  assumes "run_state (NewApp L cfg) [] = (r, rs)"
  shows "case r of
      Inl err \<Rightarrow> rs = [] \<and> (\<exists>e. err = Errorf ''init logger'' e \<or> err = Errorf ''init otel'' e) \<or>
        rs = tracer_open (cfg_OTel cfg) \<and> (\<exists>e. err = Errorf ''init postgres'' e \<or> err = Errorf ''init redis'' e)
    | Inr a \<Rightarrow> rs = ResRedis # ResPool # tracer_open (cfg_OTel cfg) \<and>
        a_runners a = wire_runners (cfg_Task cfg) \<and> a_authMgr a = NewManager (cfg_JWT cfg)"
proof (cases "logger_New L (cfg_Logger cfg)")
  case (Inr lg)
  obtain r1 rs1 where 1: "run_state (otel_Setup L (cfg_OTel cfg)) [] = (r1, rs1)" by fastforce
  show ?thesis
  proof (cases r1)
    case otel: (Inr sd)
    have rs1: "rs1 = tracer_open (cfg_OTel cfg)"
      using run_otel_Setup [OF 1] otel by (cases sd) (auto simp: tracer_open_def)
    then have no: "ResPool \<notin> set rs1" "ResRedis \<notin> set rs1" by (auto simp: tracer_open_def)
    obtain r2 rs2 where 2: "run_state (postgres_New L (cfg_DB cfg)) rs1 = (r2, rs2)" by fastforce
    show ?thesis
    proof (cases r2)
      case pg: (Inr pool)
      have rs2: "rs2 = ResPool # rs1" using run_postgres_New [OF 2 no(1)] pg by simp
      obtain r3 rs3 where 3: "run_state (redis_New L (cfg_Redis cfg)) rs2 = (r3, rs3)" by fastforce
      have "rs3 = (case r3 of Inl _ \<Rightarrow> rs2 | Inr _ \<Rightarrow> ResRedis # rs2)"
        using run_redis_New [OF 3] no(2) rs2 by simp
      then show ?thesis
        using assms Inr 1 2 3 otel pg rs1 rs2 no
        by (auto simp: NewApp_def run_resources split: sum.splits)
    qed (use assms Inr 1 2 otel rs1 run_postgres_New [OF 2 no(1)] in \<open>auto simp: NewApp_def\<close>)
  qed (use assms Inr 1 run_otel_Setup [OF 1] in \<open>auto simp: NewApp_def\<close>)
qed (use assms in \<open>auto simp: NewApp_def\<close>)

lemma api_main_started:
  assumes "api_main L loaded = Inr (a, s)"
  shows "\<exists>cfg. loaded = Inr cfg \<and> a_runners a = wire_runners (cfg_Task cfg) \<and>
    s = life_init a (ResRedis # ResPool # tracer_open (cfg_OTel cfg))"
  using assms NewApp_open
  by (fastforce simp: api_main_def split: sum.splits prod.splits)

lemma started_runners:
  assumes "api_main L loaded = Inr (a, s)"
  shows "a_runners a \<noteq> [] \<and> a_runners a ! 0 = RunWatcher NewWatcher"
  using api_main_started [OF assms] by (auto simp: wire_runners_def)

lemma launched_orderly:
  assumes "api_main L loaded = Inr (a, s0)" "acts a xs s0 = Some s1"
    "\<not> in_launch (l_run s1)" "l_main s1 = MainSelect"
  shows "orderly a s1 \<and> opened (l_open s0) s1"
proof -
  obtain rs where s0: "s0 = life_init a rs" using api_main_started [OF assms(1)] by blast
  have "life_ok a s1" using acts_ok [OF assms(2)] by (simp add: s0 life_init_ok)
  moreover have "opened (l_open s0) s1"
    by (rule acts_invariant [OF assms(2)]) (auto simp: s0 opened_init intro: act_opened)
  ultimately show ?thesis using assms(3,4) by (simp add: orderly_def)
qed

text \<open>
  Where the cancel function was skipped and a runner is in its loop, \<^verbatim>\<open>Shutdown\<close>
  waits.
\<close>

lemma act_hang:
  assumes "life_ok a s \<and> l_main s = SdWait \<and> l_runners s ! 0 = Looping \<and> l_runners s \<noteq> [] \<and> \<not> l_bgDone s"
    "act a x s = Some s'"
  shows "l_main s' = SdWait \<and> l_runners s' ! 0 = Looping \<and> l_runners s' \<noteq> [] \<and> \<not> l_bgDone s'"
proof (cases x)
  case ActRun
  have "l_run s \<noteq> RunGo 0" using assms(1) by (auto simp: life_ok_def)
  then show ?thesis using assms ActRun
    by (auto simp: act_def run_step_def nth_list_update split: if_splits run_pc.splits option.splits)
next
  case (ActRunner i e)
  then show ?thesis using assms
    by (cases "i = 0")
      (auto simp: act_def runner_step_def split: if_splits runner_pc.splits runner.splits option.splits)
next
  case ActShutdown
  have "active (l_runners s ! 0)" "0 < length (l_runners s)" using assms(1) by (auto simp: active_def)
  then have "filter active (l_runners s) \<noteq> []" by (metis filter_empty_conv nth_mem)
  then have "l_bgWG s \<noteq> 0" using assms(1) by (auto simp: life_ok_def)
  then show ?thesis using assms ActShutdown by (auto simp: act_def Shutdown_def split: if_splits)
qed (use assms in \<open>auto simp: act_def serve_fails_def select_signal_def select_errs_def split: if_splits\<close>)

section \<open>A start of the program\<close>

definition sample_libs :: libs where
  "sample_libs = \<lparr>
     lib_NewProductionEncoderConfig = \<lparr>
       ec_TimeKey = ''ts'', ec_EncodeTime = OtherTimeEncoder ''epoch'', ec_MessageKey = ''msg'',
       ec_LevelKey = ''level'', ec_CallerKey = ''caller'', ec_EncodeLevel = LowercaseLevelEncoder\<rparr>,
     lib_zap_Build = (\<lambda>c. if zc_Encoding c \<in> {''json'', ''console''} then None
       else Some (ErrText ''no encoder registered'')),
     lib_otlptracegrpc_New = (\<lambda>_. None),
     lib_resource_New = (\<lambda>_. None),
     lib_pgx_ParseConfig = (\<lambda>dsn. if HasPrefix dsn ''postgres://''
       then Inr \<lparr>pgx_DSN = dsn, pgx_MaxConns = 4, pgx_MinConns = 0, pgx_HealthCheckPeriod = 60 * Second,
         pgx_MaxConnLifetime = Hour_ns\<rparr>
       else Inl (ErrText ''cannot parse DSN'')),
     lib_pgx_NewWithConfig = (\<lambda>_. None),
     lib_pool_Ping = (\<lambda>_. None),
     lib_redis_Ping = (\<lambda>c. if rdc_Addr c = ''localhost:6379'' then None else Some (ErrText ''connection refused''))\<rparr>"

definition sample_app :: App where
  "sample_app = (case api_main sample_libs (Inr local_config) of Inr (a, s) \<Rightarrow> a)"

definition sample_start :: life where
  "sample_start = (case api_main sample_libs (Inr local_config) of Inr (a, s) \<Rightarrow> s)"

lemma sample_main: "api_main sample_libs (Inr local_config) = Inr (sample_app, sample_start)"
proof -
  obtain lg pool where
    "logger_New sample_libs (cfg_Logger local_config) = Inr lg"
    "run_state (otel_Setup sample_libs (cfg_OTel local_config)) [] = (Inr NoopShutdown, [])"
    "run_state (postgres_New sample_libs (cfg_DB local_config)) [] = (Inr pool, [ResPool])"
    "run_state (redis_New sample_libs (cfg_Redis local_config)) [ResPool] =
       (Inr (cfg_Redis local_config), [ResRedis, ResPool])"
    by (simp add: logger_New_def parseLevel_def otel_Setup_def postgres_New_def redis_New_def run_resources
        sample_libs_def local_config_def HasPrefix_def Let_def)
  then have "\<exists>a s. api_main sample_libs (Inr local_config) = Inr (a, s)"
    by (simp add: api_main_def NewApp_def)
  then show ?thesis by (auto simp: sample_app_def sample_start_def)
qed

lemma sample_runners: "length (a_runners sample_app) = 5"
  "sample_start = life_init sample_app [ResRedis, ResPool]"
  using api_main_started [OF sample_main]
  by (auto simp: local_config_def wire_runners_def tracer_open_def life_init_def)

text \<open>\<^verbatim>\<open>App.Run\<close> up to serving, and a signal with everything that follows.\<close>

definition launch_acts :: "action list" where
  "launch_acts = replicate 13 ActRun"

definition shutdown_acts :: "action list" where
  "shutdown_acts = [ActSignal, ActSelectSignal, ActShutdown, ActShutdown] @
     concat (map (\<lambda>i. [ActRunner i None, ActRunner i None]) [0..<5]) @ replicate 5 ActShutdown"

lemma sample_shutdown:
  obtains s1 s2 where "acts sample_app launch_acts sample_start = Some s1" "\<not> in_launch (l_run s1)"
    "l_main s1 = MainSelect" "acts sample_app shutdown_acts s1 = Some s2" "l_main s2 = MainExit"
proof -
  have "\<exists>s1 s2. acts sample_app launch_acts sample_start = Some s1 \<and> \<not> in_launch (l_run s1) \<and>
      l_main s1 = MainSelect \<and> acts sample_app shutdown_acts s1 = Some s2 \<and> l_main s2 = MainExit"
    by (simp add: sample_runners life_init_def launch_acts_def shutdown_acts_def act_def exited_def run_step_def
        runner_step_def select_signal_def Shutdown_def eval_nat_numeral split: runner.split)
  then show thesis using that by blast
qed

section \<open>Properties\<close>

text \<open>
  C13 (safety): once \<^verbatim>\<open>App.Run\<close> has started every runner, then however the goroutines
  interleave afterwards, the tracer, the Redis client and the pool are released only when every runner
  has returned, in that order, and a process that \<^verbatim>\<open>main\<close> leaves through
  \<^verbatim>\<open>Shutdown\<close> has released them all.
\<close>

theorem Shutdown_releases:
  assumes "api_main L loaded = Inr (a, s0)" "acts a xs s0 = Some s1"
    "\<not> in_launch (l_run s1)" "l_main s1 = MainSelect" "acts a ys s1 = Some s2"
  shows "(l_open s2 \<noteq> l_open s0 \<longrightarrow> (\<forall>p\<in>set (l_runners s2). \<exists>e. p = Returned e)) \<and>
    (ResRedis \<in> set (l_open s2) \<or> ResTracer \<notin> set (l_open s2) \<and> ResRedis \<in> set (l_open s0)) \<and>
    (ResPool \<in> set (l_open s2) \<or> ResRedis \<notin> set (l_open s2) \<and> ResPool \<in> set (l_open s0)) \<and>
    (l_main s2 = MainExit \<longrightarrow> l_open s2 = [])"
proof -
  obtain tr where "l_open s0 = ResRedis # ResPool # tr" "set tr \<subseteq> {ResTracer}"
    using api_main_started [OF assms(1)] by (fastforce simp: life_init_def tracer_open_def split: if_splits)
  moreover have "orderly a s2"
    using launched_orderly [OF assms(1-4)]
    by (intro acts_invariant [OF assms(5), of "orderly a"]) (auto intro: act_orderly)
  moreover have "opened (l_open s0) s2"
    using launched_orderly [OF assms(1-4)]
    by (intro acts_invariant [OF assms(5), of "opened (l_open s0)"]) (auto intro: act_opened)
  ultimately show ?thesis
    using orderly_runners [of a s2]
    by (cases "l_main s2") (auto simp: opened_def filter_empty_conv)
qed

theorem Shutdown_releases_witness:
  "\<exists>s1 s2. acts sample_app launch_acts sample_start = Some s1 \<and> acts sample_app shutdown_acts s1 = Some s2 \<and>
     l_main s2 = MainExit \<and> l_open s2 = [] \<and> (\<forall>p\<in>set (l_runners s2). \<exists>e. p = Returned e)"
proof -
  obtain s1 s2 where s: "acts sample_app launch_acts sample_start = Some s1" "\<not> in_launch (l_run s1)"
    "l_main s1 = MainSelect" "acts sample_app shutdown_acts s1 = Some s2" "l_main s2 = MainExit"
    by (rule sample_shutdown)
  then show ?thesis using Shutdown_releases [OF sample_main s(1-4)]
    by (auto simp: sample_runners life_init_def)
qed

text \<open>
  C14 (termination): once every runner is started, every execution is finite, with at most two
  statements per runner and fourteen more, and it can stop only where \<^verbatim>\<open>main\<close> has
  returned or ended the process: a signal always gets through, no goroutine waits for another for
  ever. (A turn of a runner's loop is not a step here, so it is taken to end.)
\<close>

theorem Shutdown_terminates:
  assumes "api_main L loaded = Inr (a, s0)" "acts a xs s0 = Some s1"
    "\<not> in_launch (l_run s1)" "l_main s1 = MainSelect" "acts a ys s1 = Some s2"
  shows "length ys \<le> 2 * length (a_runners a) + 14 \<and> ((\<forall>x. act a x s2 = None) \<longrightarrow> exited s2)"
proof -
  have o1: "orderly a s1" using launched_orderly [OF assms(1-4)] by blast
  then have "orderly a s2" by (intro acts_invariant [OF assms(5), of "orderly a"]) (auto intro: act_orderly)
  moreover have "length (l_runners s1) = length (a_runners a)" using o1 by (simp add: orderly_def life_ok_def)
  ultimately show ?thesis
    using acts_left [OF o1 assms(5)] steps_left_bound [of s1] orderly_progress [of a s2] by fastforce
qed

theorem Shutdown_terminates_witness:
  "\<exists>s1 s2. acts sample_app launch_acts sample_start = Some s1 \<and> acts sample_app shutdown_acts s1 = Some s2 \<and>
     length shutdown_acts = 19 \<and> length shutdown_acts \<le> 2 * length (a_runners sample_app) + 14"
proof -
  obtain s1 s2 where s: "acts sample_app launch_acts sample_start = Some s1" "\<not> in_launch (l_run s1)"
    "l_main s1 = MainSelect" "acts sample_app shutdown_acts s1 = Some s2" "l_main s2 = MainExit"
    by (rule sample_shutdown)
  have "length shutdown_acts = 19" by code_simp
  then show ?thesis using Shutdown_terminates [OF sample_main s(1-4)] s by blast
qed

text \<open>
  C15 (safety): before that the two goroutines race. A signal that arrives while
  \<^verbatim>\<open>App.Run\<close> has not stored the cancel function yet makes \<^verbatim>\<open>Shutdown\<close> skip it.
  Then the process can wait for ever for runners that were never told to stop, whatever happens
  next, and it can close the pool and the Redis client with a runner running on them.
\<close>

theorem Shutdown_race:
  assumes "api_main L loaded = Inr (a, s0)"
  shows "(\<exists>xs s. acts a xs s0 = Some s \<and> l_main s = SdWait \<and>
      (\<forall>ys s'. acts a ys s = Some s' \<longrightarrow> l_main s' = SdWait)) \<and>
    (\<exists>xs s. acts a xs s0 = Some s \<and> \<not> exited s \<and> ResPool \<notin> set (l_open s) \<and> ResRedis \<notin> set (l_open s) \<and>
      Looping \<in> set (l_runners s))"
proof -
  obtain rs where s0: "s0 = life_init a rs" using api_main_started [OF assms] by blast
  obtain r where r: "a_runners a = RunWatcher NewWatcher # r"
    using started_runners [OF assms] by (cases "a_runners a") auto
  note compute = s0 life_init_def act_def exited_def select_signal_def Shutdown_def run_step_def runner_step_def r
  let ?hang = "[ActSignal, ActSelectSignal, ActShutdown, ActShutdown, ActRun, ActRun, ActRun, ActRunner 0 None]"
  obtain s where s: "acts a ?hang s0 = Some s" "l_main s = SdWait" "l_runners s ! 0 = Looping" "l_runners s \<noteq> []" "\<not> l_bgDone s"
    by (simp add: compute)
  define I where "I = (\<lambda>s. life_ok a s \<and> l_main s = SdWait \<and> l_runners s ! 0 = Looping \<and> l_runners s \<noteq> [] \<and> \<not> l_bgDone s)"
  have "I s" using s acts_ok [OF s(1)] by (simp add: I_def s0 life_init_ok)
  moreover have "I s'" if "I s" "act a x s = Some s'" for x s s'
    using act_ok [OF _ that(2)] that act_hang [OF _ that(2)] by (auto simp: I_def)
  ultimately have "I s'" if "acts a ys s = Some s'" for ys s'
    using that by (rule acts_invariant [rotated]) blast
  then have "\<forall>ys s'. acts a ys s = Some s' \<longrightarrow> l_main s' = SdWait" by (simp add: I_def)
  moreover have "\<exists>s. acts a ([ActSignal, ActSelectSignal] @ replicate 6 ActShutdown @ replicate 3 ActRun @ [ActRunner 0 None])
      s0 = Some s \<and> \<not> exited s \<and> ResPool \<notin> set (l_open s) \<and> ResRedis \<notin> set (l_open s) \<and> Looping \<in> set (l_runners s)"
    by (simp add: compute eval_nat_numeral)
  ultimately show ?thesis using s(1,2) by blast
qed

theorem Shutdown_race_witness:
  "\<exists>xs s. acts sample_app xs sample_start = Some s \<and> \<not> exited s \<and> ResPool \<notin> set (l_open s) \<and>
     ResRedis \<notin> set (l_open s) \<and> Looping \<in> set (l_runners s)"
  using Shutdown_race [OF sample_main] by blast



end
