(* ===== verification/TaskMetrics.thy ===== *)
theory TaskMetrics
  imports HttpApi
begin

text \<open>
  The collectors of \<^verbatim>\<open>internal/task/metrics.go\<close> and the registry of
  \<^verbatim>\<open>internal/platform/metrics\<close> they are registered with. The recorders of the model
  append observations to a list; here an observation is the operation on a collector that the
  recorder performs, and the value of a counter is read off the list. Prometheus panics when two
  collectors of a registry share a name and when an observation does not fit its collector: a wrong
  number of label values, or an observation on a counter.
\<close>

section \<open>Collectors (task/metrics.go)\<close>

datatype collector_kind = Counter | Histogram

record collector =
  c_Name :: string
  c_Help :: string
  c_Labels :: "string list"
  c_Kind :: collector_kind

definition NewCounterVec :: "string \<Rightarrow> string \<Rightarrow> string list \<Rightarrow> collector" where
  "NewCounterVec name help labels = \<lparr>c_Name = name, c_Help = help, c_Labels = labels, c_Kind = Counter\<rparr>"

definition NewCounter :: "string \<Rightarrow> string \<Rightarrow> collector" where
  "NewCounter name help = \<lparr>c_Name = name, c_Help = help, c_Labels = [], c_Kind = Counter\<rparr>"

definition NewHistogram :: "string \<Rightarrow> string \<Rightarrow> collector" where
  "NewHistogram name help = \<lparr>c_Name = name, c_Help = help, c_Labels = [], c_Kind = Histogram\<rparr>"

text \<open>In the order in which they are registered.\<close>

definition task_collectors :: "collector list" where
  "task_collectors = [
     NewCounterVec ''task_runs_total'' ''Total task runs by terminal or retry status.'' [''status''],
     NewHistogram ''task_run_duration_seconds'' ''Task run execution duration in seconds.'',
     NewCounter ''task_dlq_total'' ''Total task runs sent to the dead-letter queue.'',
     NewCounterVec ''task_quota_rejections_total''
       ''Total task creation requests rejected by tenant quotas.'' [''reason''],
     NewCounterVec ''task_runs_deferred_total''
       ''Total run executions deferred for redelivery because a tenant quota was at its limit.'' [''reason''],
     NewHistogram ''task_llm_latency_seconds'' ''LLM request latency in seconds.'',
     NewCounter ''task_llm_timeouts_total'' ''Total timed out LLM requests.'',
     NewCounter ''task_llm_validation_failures_total'' ''Total LLM responses rejected by output validation.'',
     NewCounter ''task_llm_cost_cents''
       ''Total estimated LLM cost in cents (per-tenant cost lives in tenant_llm_daily_cost).'']"

text \<open>A registry is the names it holds; \<^term>\<open>None\<close> is the panic of \<^verbatim>\<open>MustRegister\<close>.\<close>

fun MustRegister :: "collector list \<Rightarrow> string list \<Rightarrow> string list option" where
  "MustRegister [] reg = Some reg"
| "MustRegister (c # cs) reg = (if c_Name c \<in> set reg then None else MustRegister cs (c_Name c # reg))"

definition NewMetrics :: "string list \<Rightarrow> (collector list \<times> string list) option" where
  "NewMetrics reg = (case MustRegister task_collectors reg of
       None \<Rightarrow> None
     | Some reg' \<Rightarrow> Some (task_collectors, reg'))"

text \<open>
  \<^verbatim>\<open>metrics.New\<close>: the names the Go and process collectors of the library bring are its
  parameter.
\<close>

definition Registry_New :: "string list \<Rightarrow> string list" where
  "Registry_New builtin = rev builtin"

section \<open>Observations\<close>

datatype metric_op = Add int | Observe duration

text \<open>The collector a recorder uses, its label values and the operation.\<close>

fun operation :: "metric \<Rightarrow> string \<times> string list \<times> metric_op" where
  "operation (MRuns s) = (''task_runs_total'', [status_text s], Add 1)"
| "operation (MDuration d) = (''task_run_duration_seconds'', [], Observe d)"
| "operation MDLQ = (''task_dlq_total'', [], Add 1)"
| "operation (MQuotaRejection reason) = (''task_quota_rejections_total'', [reason], Add 1)"
| "operation (MRunDeferred reason) = (''task_runs_deferred_total'', [reason], Add 1)"
| "operation (MLLMLatency d) = (''task_llm_latency_seconds'', [], Observe d)"
| "operation MLLMTimeout = (''task_llm_timeouts_total'', [], Add 1)"
| "operation MLLMValidationFailure = (''task_llm_validation_failures_total'', [], Add 1)"
| "operation (MLLMCostCents cost) = (''task_llm_cost_cents'', [], Add cost)"

definition op_fits :: "collector \<Rightarrow> string list \<Rightarrow> metric_op \<Rightarrow> bool" where
  "op_fits c labels op \<longleftrightarrow> length labels = length (c_Labels c) \<and>
     (case op of Add _ \<Rightarrow> c_Kind c = Counter | Observe _ \<Rightarrow> c_Kind c = Histogram)"

definition find_collector :: "collector list \<Rightarrow> string \<Rightarrow> collector option" where
  "find_collector cs name = find (\<lambda>c. c_Name c = name) cs"

text \<open>The value of a counter for given label values.\<close>

definition counter_value :: "metric list \<Rightarrow> string \<Rightarrow> string list \<Rightarrow> int" where
  "counter_value ms name labels = sum_list (map (\<lambda>m. case operation m of
       (n, ls, Add k) \<Rightarrow> if n = name \<and> ls = labels then k else 0
     | _ \<Rightarrow> 0) ms)"

lemma operation_fits: "\<exists>c. find_collector task_collectors (fst (operation m)) = Some c \<and>
    op_fits c (fst (snd (operation m))) (snd (snd (operation m)))"
  by (cases m) (simp_all add: find_collector_def task_collectors_def NewCounterVec_def NewCounter_def
      NewHistogram_def op_fits_def)

lemma MustRegister_None: "MustRegister cs reg = None \<longleftrightarrow>
    \<not> (distinct (map c_Name cs) \<and> set (map c_Name cs) \<inter> set reg = {})"
  by (induction cs arbitrary: reg) auto

lemma task_collectors_distinct: "distinct (map c_Name task_collectors)"
  by (simp add: task_collectors_def NewCounterVec_def NewCounter_def NewHistogram_def)

text \<open>
  No recorder panics: the collectors register unless the library brings one of their names, and
  every observation fits the collector it is made on.
\<close>

theorem NewMetrics_registers:
  assumes "set (map c_Name task_collectors) \<inter> set builtin = {}"
  shows "\<exists>reg. NewMetrics (Registry_New builtin) = Some (task_collectors, reg) \<and>
    (\<forall>m. \<exists>c\<in>set task_collectors. c_Name c = fst (operation m) \<and>
       op_fits c (fst (snd (operation m))) (snd (snd (operation m))))"
proof -
  have "MustRegister task_collectors (Registry_New builtin) \<noteq> None"
    using assms task_collectors_distinct unfolding MustRegister_None by (simp add: Registry_New_def)
  moreover have "\<exists>c\<in>set task_collectors. c_Name c = fst (operation m) \<and>
      op_fits c (fst (snd (operation m))) (snd (snd (operation m)))" for m
    using operation_fits [of m] unfolding find_collector_def find_Some_iff by (metis nth_mem)
  ultimately show ?thesis by (auto simp: NewMetrics_def)
qed

theorem NewMetrics_registers_witness:
  "NewMetrics (Registry_New [''go_goroutines'', ''process_cpu_seconds_total'']) \<noteq> None"
proof -
  have "set (map c_Name task_collectors) \<inter> set [''go_goroutines'', ''process_cpu_seconds_total''] = {}"
    by (simp add: task_collectors_def NewCounterVec_def NewCounter_def NewHistogram_def)
  from NewMetrics_registers [OF this] show ?thesis by auto
qed

text \<open>A quota rejection and a deferred run are counted once each, under their reason.\<close>

lemma rejections_counted:
  "counter_value (w_metrics (snd (run_state (RecordQuotaRejection True reason) w))) ''task_quota_rejections_total'' [reason] =
     counter_value (w_metrics w) ''task_quota_rejections_total'' [reason] + 1"
  "counter_value (w_metrics (snd (run_state (recordRunDeferred True reason) w))) ''task_runs_deferred_total'' [reason] =
     counter_value (w_metrics w) ''task_runs_deferred_total'' [reason] + 1"
  by (simp_all add: RecordQuotaRejection_def recordRunDeferred_def run_prims counter_value_def)

end
